(* ===== verification/Rust_Str.thy ===== *)
theory Rust_Str
  imports Prelude
begin

text \<open>
  Rust's \<open>char\<close>, \<open>str\<close> and \<open>String\<close> as the sources use them. A \<open>char\<close> is a Unicode scalar
  value, a \<open>str\<close> the list of its characters; \<open>as_bytes\<close> is its UTF-8 encoding, and the offsets of
  \<open>find\<close> and \<open>split_at\<close> are byte offsets into that encoding, as in Rust. \<open>from_utf8\<close> and
  \<open>from_utf8_lossy\<close> are the validating and the replacing decoder of the standard library.
\<close>

section \<open>Characters\<close>

type_synonym rchar = u32
type_synonym rstr = "rchar list"

definition is_scalar :: "rchar \<Rightarrow> bool" where
  "is_scalar c \<longleftrightarrow> c < 0xD800 \<or> (0xE000 \<le> c \<and> c \<le> 0x10FFFF)"

definition char_from_u32 :: "u32 \<Rightarrow> rchar option" where
  "char_from_u32 c = (if is_scalar c then Some c else None)"

abbreviation replacement_char :: rchar where
  "replacement_char \<equiv> 0xFFFD"

text \<open>String literals of the sources; only ASCII ones occur, apart from the replacement character.\<close>

definition str :: "string \<Rightarrow> rstr" where
  "str s = map of_char s"

lemma str_simps [simp]:
  "str [] = []"
  "str (c # s) = of_char c # str s"
  by (simp_all add: str_def)

lemma is_scalar_replacement [simp]: "is_scalar replacement_char"
  by (simp add: is_scalar_def)

lemma is_scalar_unat:
  "is_scalar c \<longleftrightarrow> unat c < 0xD800 \<or> (0xE000 \<le> unat c \<and> unat c \<le> 0x10FFFF)"
  by (simp add: is_scalar_def word_less_nat_alt word_le_nat_alt)

section \<open>UTF-8\<close>

definition utf8_encode :: "rchar \<Rightarrow> u8 list" where
  "utf8_encode c =
     (let n = unat c in
      if n < 0x80 then [of_nat n]
      else if n < 0x800 then [of_nat (0xC0 + n div 64), of_nat (0x80 + n mod 64)]
      else if n < 0x10000 then
        [of_nat (0xE0 + n div 4096), of_nat (0x80 + n div 64 mod 64), of_nat (0x80 + n mod 64)]
      else
        [of_nat (0xF0 + n div 262144), of_nat (0x80 + n div 4096 mod 64),
         of_nat (0x80 + n div 64 mod 64), of_nat (0x80 + n mod 64)])"

definition as_bytes :: "rstr \<Rightarrow> u8 list" where
  "as_bytes s = concat (map utf8_encode s)"

lemma as_bytes_simps [simp]:
  "as_bytes [] = []"
  "as_bytes (c # s) = utf8_encode c @ as_bytes s"
  "as_bytes (s @ t) = as_bytes s @ as_bytes t"
  by (simp_all add: as_bytes_def)

lemma utf8_encode_length: "utf8_encode c \<noteq> [] \<and> length (utf8_encode c) \<le> 4"
  by (simp add: utf8_encode_def Let_def)

lemma utf8_encode_nonempty [simp]: "utf8_encode c \<noteq> []"
  using utf8_encode_length by blast

lemma length_as_bytes_bound: "length (as_bytes s) \<le> 4 * length s"
  unfolding as_bytes_def by (rule length_concat_bound) (simp add: utf8_encode_length)

lemma utf8_encode_ascii: "unat c < 128 \<Longrightarrow> utf8_encode c = [of_nat (unat c)]"
  by (simp add: utf8_encode_def)

text \<open>
  One step of the validating decoder (\<open>run_utf8_validation\<close>): the character at the front and the
  bytes after it, or the number of bytes that are wrong, \<open>None\<close> when the input ends inside a
  sequence that is right so far.
\<close>

definition is_cont :: "u8 \<Rightarrow> bool" where
  "is_cont b \<longleftrightarrow> 0x80 \<le> unat b \<and> unat b \<le> 0xBF"

definition utf8_second_ok :: "nat \<Rightarrow> nat \<Rightarrow> bool" where
  "utf8_second_ok a b \<longleftrightarrow>
     (a = 0xE0 \<and> 0xA0 \<le> b \<and> b \<le> 0xBF) \<or>
     (0xE1 \<le> a \<and> a \<le> 0xEC \<and> 0x80 \<le> b \<and> b \<le> 0xBF) \<or>
     (a = 0xED \<and> 0x80 \<le> b \<and> b \<le> 0x9F) \<or>
     (0xEE \<le> a \<and> a \<le> 0xEF \<and> 0x80 \<le> b \<and> b \<le> 0xBF) \<or>
     (a = 0xF0 \<and> 0x90 \<le> b \<and> b \<le> 0xBF) \<or>
     (0xF1 \<le> a \<and> a \<le> 0xF3 \<and> 0x80 \<le> b \<and> b \<le> 0xBF) \<or>
     (a = 0xF4 \<and> 0x80 \<le> b \<and> b \<le> 0x8F)"

definition utf8_next :: "u8 \<Rightarrow> u8 list \<Rightarrow> nat option + rchar \<times> u8 list" where
  "utf8_next b0 bs =
     (let a = unat b0 in
      if a < 0x80 then Inr (of_nat a, bs)
      else if 0xC2 \<le> a \<and> a \<le> 0xDF then
        (case bs of [] \<Rightarrow> Inl None
         | b1 # bs1 \<Rightarrow>
             if is_cont b1 then Inr (of_nat ((a - 0xC0) * 64 + (unat b1 - 0x80)), bs1)
             else Inl (Some 1))
      else if 0xE0 \<le> a \<and> a \<le> 0xEF then
        (case bs of [] \<Rightarrow> Inl None
         | b1 # bs1 \<Rightarrow>
             if \<not> utf8_second_ok a (unat b1) then Inl (Some 1)
             else (case bs1 of [] \<Rightarrow> Inl None
               | b2 # bs2 \<Rightarrow>
                   if is_cont b2 then
                     Inr (of_nat (((a - 0xE0) * 64 + (unat b1 - 0x80)) * 64 + (unat b2 - 0x80)), bs2)
                   else Inl (Some 2)))
      else if 0xF0 \<le> a \<and> a \<le> 0xF4 then
        (case bs of [] \<Rightarrow> Inl None
         | b1 # bs1 \<Rightarrow>
             if \<not> utf8_second_ok a (unat b1) then Inl (Some 1)
             else (case bs1 of [] \<Rightarrow> Inl None
               | b2 # bs2 \<Rightarrow>
                   if \<not> is_cont b2 then Inl (Some 2)
                   else (case bs2 of [] \<Rightarrow> Inl None
                     | b3 # bs3 \<Rightarrow>
                         if is_cont b3 then
                           Inr (of_nat ((((a - 0xF0) * 64 + (unat b1 - 0x80)) * 64
                                 + (unat b2 - 0x80)) * 64 + (unat b3 - 0x80)), bs3)
                         else Inl (Some 3))))
      else Inl (Some 1))"

lemma utf8_next_shorter: "utf8_next b bs = Inr (c, rest) \<Longrightarrow> length rest \<le> length bs"
  by (auto simp: utf8_next_def Let_def split: if_splits list.splits)

text \<open>
  The two decoders of the standard library. A validation error carries the length of the valid
  prefix (\<open>valid_up_to\<close>) and the length of the wrong sequence (\<open>error_len\<close>).
\<close>

record utf8_error =
  valid_up_to :: nat
  error_len :: "nat option"

function from_utf8_at :: "nat \<Rightarrow> u8 list \<Rightarrow> utf8_error + rstr" where
  "from_utf8_at n [] = Inr []"
| "from_utf8_at n (b # bs) =
     (case utf8_next b bs of
        Inl e \<Rightarrow> Inl \<lparr>valid_up_to = n, error_len = e\<rparr>
      | Inr (c, rest) \<Rightarrow>
          (case from_utf8_at (n + (Suc (length bs) - length rest)) rest of
             Inl e \<Rightarrow> Inl e
           | Inr s \<Rightarrow> Inr (c # s)))"
  by pat_completeness auto
termination
  by (relation "measure (\<lambda>(n, bs). length bs)") (auto dest: utf8_next_shorter)

definition from_utf8 :: "u8 list \<Rightarrow> utf8_error + rstr" where
  "from_utf8 bs = from_utf8_at 0 bs"

function from_utf8_lossy :: "u8 list \<Rightarrow> rstr" where
  "from_utf8_lossy [] = []"
| "from_utf8_lossy (b # bs) =
     (case utf8_next b bs of
        Inl None \<Rightarrow> [replacement_char]
      | Inl (Some n) \<Rightarrow> replacement_char # from_utf8_lossy (drop (n - 1) bs)
      | Inr (c, rest) \<Rightarrow> c # from_utf8_lossy rest)"
  by pat_completeness auto
termination
  by (relation "measure length") (auto dest: utf8_next_shorter)

declare from_utf8_at.simps(2) [simp del] from_utf8_lossy.simps(2) [simp del]

section \<open>Prefix codecs\<close>

text \<open>
  What a decoder that peels one item off the front promises: it inverts the encoder on valid items
  and never invents one. \<open>decodes\<close> is the run of such a decoder over a whole input.
\<close>

inductive decodes :: "('b \<Rightarrow> 'b list \<Rightarrow> 'e + 'a \<times> 'b list) \<Rightarrow> 'b list \<Rightarrow> 'a list \<Rightarrow> bool"
  for step where
  decodes_Nil: "decodes step [] []"
| decodes_Cons:
    "step b bs = Inr (x, rest) \<Longrightarrow> decodes step rest xs \<Longrightarrow> decodes step (b # bs) (x # xs)"

inductive_cases decodes_NilE [elim!]: "decodes step [] xs"
inductive_cases decodes_ConsE: "decodes step (b # bs) xs"

locale prefix_codec =
  fixes enc :: "'a \<Rightarrow> 'b list"
    and step :: "'b \<Rightarrow> 'b list \<Rightarrow> 'e + 'a \<times> 'b list"
    and valid :: "'a \<Rightarrow> bool"
  assumes complete:
      "valid x \<Longrightarrow> \<exists>b bs. enc x = b # bs \<and> (\<forall>rest. step b (bs @ rest) = Inr (x, rest))"
    and sound: "step b bs = Inr (x, rest) \<Longrightarrow> valid x \<and> enc x @ rest = b # bs"
begin

lemma decodes_enc: "list_all valid xs \<Longrightarrow> decodes step (concat (map enc xs)) xs"
proof (induction xs)
  case Nil
  then show ?case by (simp add: decodes_Nil)
next
  case (Cons x xs)
  from Cons.prems obtain b bs where e: "enc x = b # bs"
    and s: "\<And>rest. step b (bs @ rest) = Inr (x, rest)"
    using complete [of x] by auto
  have "decodes step (b # (bs @ concat (map enc xs))) (x # xs)"
    by (rule decodes_Cons [where rest = "concat (map enc xs)"]) (use s Cons in simp_all)
  then show ?case by (simp add: e)
qed

lemma decodes_iff: "decodes step bs xs \<longleftrightarrow> list_all valid xs \<and> concat (map enc xs) = bs"
proof
  assume "decodes step bs xs"
  then show "list_all valid xs \<and> concat (map enc xs) = bs"
    by induction (auto dest: sound)
next
  assume "list_all valid xs \<and> concat (map enc xs) = bs"
  then show "decodes step bs xs" using decodes_enc by blast
qed

lemma decodes_unique:
  "decodes step bs xs \<Longrightarrow> decodes step bs ys \<Longrightarrow> xs = ys"
proof (induction arbitrary: ys rule: decodes.induct)
  case decodes_Nil
  then show ?case by auto
next
  case (decodes_Cons b bs x rest xs)
  from decodes_Cons.prems decodes_Cons.hyps(1) obtain zs where "ys = x # zs" "decodes step rest zs"
    by (auto elim: decodes_ConsE)
  with decodes_Cons.IH show ?case by simp
qed

lemma enc_inj_list:
  "list_all valid xs \<Longrightarrow> list_all valid ys \<Longrightarrow> concat (map enc xs) = concat (map enc ys) \<Longrightarrow> xs = ys"
  by (metis decodes_enc decodes_unique)

end

text \<open>UTF-8 is such a codec: one lemma per sequence length.\<close>

lemma utf8_encode_by_length:
  "unat c < 0x80 \<Longrightarrow> utf8_encode c = [of_nat (unat c)]"
  "0x80 \<le> unat c \<Longrightarrow> unat c < 0x800 \<Longrightarrow>
     utf8_encode c = [of_nat (0xC0 + unat c div 64), of_nat (0x80 + unat c mod 64)]"
  "0x800 \<le> unat c \<Longrightarrow> unat c < 0x10000 \<Longrightarrow>
     utf8_encode c = [of_nat (0xE0 + unat c div 4096), of_nat (0x80 + unat c div 64 mod 64),
       of_nat (0x80 + unat c mod 64)]"
  "0x10000 \<le> unat c \<Longrightarrow>
     utf8_encode c = [of_nat (0xF0 + unat c div 262144), of_nat (0x80 + unat c div 4096 mod 64),
       of_nat (0x80 + unat c div 64 mod 64), of_nat (0x80 + unat c mod 64)]"
  by (simp_all add: utf8_encode_def Let_def)

lemma utf8_next_by_length:
  "k < 128 \<Longrightarrow> utf8_next (of_nat k) rest = Inr (of_nat k, rest)"
  "2 \<le> k \<Longrightarrow> k < 32 \<Longrightarrow> j < 64 \<Longrightarrow>
     utf8_next (of_nat (0xC0 + k)) (of_nat (0x80 + j) # rest) = Inr (of_nat (k * 64 + j), rest)"
  "k < 16 \<Longrightarrow> j < 64 \<Longrightarrow> l < 64 \<Longrightarrow> (k = 0 \<longrightarrow> 32 \<le> j) \<Longrightarrow> (k = 13 \<longrightarrow> j < 32) \<Longrightarrow>
     utf8_next (of_nat (0xE0 + k)) (of_nat (0x80 + j) # of_nat (0x80 + l) # rest)
       = Inr (of_nat ((k * 64 + j) * 64 + l), rest)"
  "k \<le> 4 \<Longrightarrow> j < 64 \<Longrightarrow> l < 64 \<Longrightarrow> m < 64 \<Longrightarrow> (k = 0 \<longrightarrow> 16 \<le> j) \<Longrightarrow> (k = 4 \<longrightarrow> j < 16) \<Longrightarrow>
     utf8_next (of_nat (0xF0 + k))
       (of_nat (0x80 + j) # of_nat (0x80 + l) # of_nat (0x80 + m) # rest)
       = Inr (of_nat (((k * 64 + j) * 64 + l) * 64 + m), rest)"
  by (auto simp add: utf8_next_def is_cont_def utf8_second_ok_def Let_def
      simp del: of_nat_add of_nat_mult)

lemma div_4096: "n div 4096 = (n::nat) div 64 div 64"
  and div_262144: "n div 262144 = (n::nat) div 64 div 64 div 64"
  by (simp_all flip: div_mult2_eq)

lemma base64_digits:
  "(n::nat) div 64 * 64 + n mod 64 = n"
  "(n div 4096 * 64 + n div 64 mod 64) * 64 + n mod 64 = n"
  "((n div 262144 * 64 + n div 4096 mod 64) * 64 + n div 64 mod 64) * 64 + n mod 64 = n"
  by (simp_all only: div_4096 div_262144 div_mult_mod_eq)

lemma div_mod_64: "q = 64 * (q div 64) + q mod 64 \<and> q mod 64 < (64::nat)"
  by simp

lemma three_byte_range:
  assumes "0x800 \<le> n" "n < 0x10000" "n < 0xD800 \<or> 0xE000 \<le> (n::nat)"
  shows "n div 4096 < 16" "n div 4096 = 0 \<longrightarrow> 32 \<le> n div 64 mod 64"
    "n div 4096 = 13 \<longrightarrow> n div 64 mod 64 < 32"
proof -
  have q: "32 \<le> n div 64" "n div 64 < 1024" "n div 64 < 864 \<or> 896 \<le> n div 64"
    using assms by auto
  show "n div 4096 < 16" "n div 4096 = 0 \<longrightarrow> 32 \<le> n div 64 mod 64"
    "n div 4096 = 13 \<longrightarrow> n div 64 mod 64 < 32"
    unfolding div_4096 using q div_mod_64 [of "n div 64"] by linarith+
qed

lemma four_byte_range:
  assumes "0x10000 \<le> n" "n \<le> (0x10FFFF::nat)"
  shows "n div 262144 \<le> 4" "n div 262144 = 0 \<longrightarrow> 16 \<le> n div 4096 mod 64"
    "n div 262144 = 4 \<longrightarrow> n div 4096 mod 64 < 16"
proof -
  have q: "16 \<le> n div 4096" "n div 4096 \<le> 271" using assms by auto
  have d: "n div 262144 = n div 4096 div 64" by (simp flip: div_mult2_eq)
  show "n div 262144 \<le> 4" "n div 262144 = 0 \<longrightarrow> 16 \<le> n div 4096 mod 64"
    "n div 262144 = 4 \<longrightarrow> n div 4096 mod 64 < 16"
    unfolding d using q div_mod_64 [of "n div 4096"] by linarith+
qed

lemma utf8_next_encode:
  assumes "is_scalar c"
  shows "\<exists>b bs. utf8_encode c = b # bs \<and> (\<forall>rest. utf8_next b (bs @ rest) = Inr (c, rest))"
proof -
  let ?n = "unat c"
  have c: "of_nat ?n = c" by simp
  from assms have sc: "?n < 0xD800 \<or> (0xE000 \<le> ?n \<and> ?n \<le> 0x10FFFF)"
    by (simp only: is_scalar_unat)
  consider "?n < 0x80" | "0x80 \<le> ?n" "?n < 0x800" | "0x800 \<le> ?n" "?n < 0x10000"
    | "0x10000 \<le> ?n" "?n \<le> 0x10FFFF"
    using sc by linarith
  then show ?thesis
  proof cases
    case 1
    then show ?thesis
      using utf8_next_by_length(1) [of ?n] c by (simp add: utf8_encode_by_length(1))
  next
    case 2
    then have "2 \<le> ?n div 64" "?n div 64 < 32" by auto
    then have "utf8_next (of_nat (0xC0 + ?n div 64)) (of_nat (0x80 + ?n mod 64) # rest)
        = Inr (c, rest)" for rest
      using utf8_next_by_length(2) [of "?n div 64" "?n mod 64", unfolded base64_digits c] by simp
    then show ?thesis by (simp only: utf8_encode_by_length(2) [OF 2]) simp
  next
    case 3
    moreover from sc have "?n < 0xD800 \<or> 0xE000 \<le> ?n" by linarith
    ultimately have "utf8_next (of_nat (0xE0 + ?n div 4096))
        (of_nat (0x80 + ?n div 64 mod 64) # of_nat (0x80 + ?n mod 64) # rest) = Inr (c, rest)" for rest
      by (intro utf8_next_by_length(3) [of "?n div 4096" "?n div 64 mod 64" "?n mod 64",
            unfolded base64_digits c] three_byte_range) simp_all
    then show ?thesis by (simp only: utf8_encode_by_length(3) [OF 3]) simp
  next
    case 4
    then have "utf8_next (of_nat (0xF0 + ?n div 262144)) (of_nat (0x80 + ?n div 4096 mod 64)
        # of_nat (0x80 + ?n div 64 mod 64) # of_nat (0x80 + ?n mod 64) # rest) = Inr (c, rest)" for rest
      by (intro utf8_next_by_length(4) [of "?n div 262144" "?n div 4096 mod 64" "?n div 64 mod 64"
            "?n mod 64", unfolded base64_digits c] four_byte_range) simp_all
    then show ?thesis by (simp only: utf8_encode_by_length(4) [OF 4(1)]) simp
  qed
qed

lemma utf8_encode_digits:
  "2 \<le> k \<Longrightarrow> k < 32 \<Longrightarrow> j < 64 \<Longrightarrow>
     utf8_encode (of_nat (k * 64 + j)) = [of_nat (0xC0 + k), of_nat (0x80 + j)]"
  "k < 16 \<Longrightarrow> j < 64 \<Longrightarrow> l < 64 \<Longrightarrow> (k = 0 \<longrightarrow> 32 \<le> j) \<Longrightarrow>
     utf8_encode (of_nat ((k * 64 + j) * 64 + l))
       = [of_nat (0xE0 + k), of_nat (0x80 + j), of_nat (0x80 + l)]"
  "k \<le> 4 \<Longrightarrow> j < 64 \<Longrightarrow> l < 64 \<Longrightarrow> m < 64 \<Longrightarrow> (k = 0 \<longrightarrow> 16 \<le> j) \<Longrightarrow>
     utf8_encode (of_nat (((k * 64 + j) * 64 + l) * 64 + m))
       = [of_nat (0xF0 + k), of_nat (0x80 + j), of_nat (0x80 + l), of_nat (0x80 + m)]"
proof -
  show "utf8_encode (of_nat (k * 64 + j)) = [of_nat (0xC0 + k), of_nat (0x80 + j)]"
    if "2 \<le> k" "k < 32" "j < 64"
    using that by (subst utf8_encode_by_length(2)) (simp_all del: of_nat_add of_nat_mult)
  show "utf8_encode (of_nat ((k * 64 + j) * 64 + l))
       = [of_nat (0xE0 + k), of_nat (0x80 + j), of_nat (0x80 + l)]"
    if h: "k < 16" "j < 64" "l < 64" "k = 0 \<longrightarrow> 32 \<le> j"
  proof -
    obtain q where q: "k * 64 + j = q" by blast
    with h have b: "32 \<le> q" "q < 1024" "q div 64 = k" "q mod 64 = j" by auto
    let ?n = "q * 64 + l"
    have n: "0x800 \<le> ?n" "?n < 0x10000" "?n div 64 = q" "?n mod 64 = l" using b h by auto
    then have u: "unat (of_nat ?n :: u32) = ?n" by (intro unat_of_nat_u32) linarith
    show ?thesis
      using utf8_encode_by_length(3) [of "of_nat ?n", unfolded u div_4096 n b] n(1,2) q by blast
  qed
  show "utf8_encode (of_nat (((k * 64 + j) * 64 + l) * 64 + m))
       = [of_nat (0xF0 + k), of_nat (0x80 + j), of_nat (0x80 + l), of_nat (0x80 + m)]"
    if h: "k \<le> 4" "j < 64" "l < 64" "m < 64" "k = 0 \<longrightarrow> 16 \<le> j"
  proof -
    obtain p where p: "k * 64 + j = p" by blast
    with h have b: "16 \<le> p" "p < 320" "p div 64 = k" "p mod 64 = j" by auto
    obtain q where q: "p * 64 + l = q" by blast
    with h b have d: "1024 \<le> q" "q < 20480" "q div 64 = p" "q mod 64 = l" by auto
    let ?n = "q * 64 + m"
    have n: "0x10000 \<le> ?n" "?n < 4294967296" "?n div 64 = q" "?n mod 64 = m" using d h by auto
    then have u: "unat (of_nat ?n :: u32) = ?n" by (intro unat_of_nat_u32)
    show ?thesis
      using utf8_encode_by_length(4) [of "of_nat ?n", unfolded u div_4096 div_262144 n b d] n(1) p q
      by blast
  qed
qed

lemma cont_digit: "is_cont b \<Longrightarrow> \<exists>j<64. b = of_nat (0x80 + j)"
  by (rule exI [of _ "unat b - 0x80"]) (auto simp: is_cont_def)

lemma second_digit: "utf8_second_ok a (unat b) \<Longrightarrow> is_cont b"
  by (auto simp: is_cont_def utf8_second_ok_def)

lemma lead_digit: "n \<le> unat b \<Longrightarrow> unat b < n + k \<Longrightarrow> \<exists>i<k. b = of_nat (n + i)" for b :: u8
  by (rule exI [of _ "unat b - n"]) auto

lemma utf8_next_sound_2:
  assumes "utf8_next b bs = Inr (c, rest)" and "0xC2 \<le> unat b" and "unat b \<le> 0xDF"
  shows "is_scalar c \<and> utf8_encode c @ rest = b # bs"
proof -
  from assms obtain b1 where bs: "bs = b1 # rest" "is_cont b1"
    by (auto simp: utf8_next_def Let_def split: if_splits list.splits)
  obtain k where k: "k < 32" "b = of_nat (0xC0 + k)" using lead_digit [of 192 b 32] assms(2,3) by auto
  obtain j where j: "j < 64" "b1 = of_nat (0x80 + j)" using cont_digit bs(2) by blast
  have "2 \<le> k" using assms(2) k(1) unfolding k(2) by (subst (asm) unat_of_nat_u8) linarith+
  then have kj: "2 \<le> k" "k < 32" "j < 64" using k(1) j(1) by blast+
  have c: "c = of_nat (k * 64 + j)"
    using assms(1) utf8_next_by_length(2) [OF kj] unfolding bs k(2) j(2) by simp
  have "unat c = k * 64 + j" unfolding c by (rule unat_of_nat_u32) (use kj in linarith)
  with kj have "is_scalar c" by (simp add: is_scalar_unat)
  then show ?thesis unfolding bs k(2) j(2) c utf8_encode_digits(1) [OF kj] by simp
qed

lemma utf8_next_sound_3:
  assumes "utf8_next b bs = Inr (c, rest)" and "0xE0 \<le> unat b" and "unat b \<le> 0xEF"
  shows "is_scalar c \<and> utf8_encode c @ rest = b # bs"
proof -
  from assms obtain b1 b2 where bs: "bs = b1 # b2 # rest" "is_cont b1" "is_cont b2"
    and ok: "utf8_second_ok (unat b) (unat b1)"
    by (auto simp: utf8_next_def Let_def dest: second_digit split: if_splits list.splits)
  obtain k where k: "k < 16" "b = of_nat (0xE0 + k)" using lead_digit [of 224 b 16] assms(2,3) by auto
  obtain j where j: "j < 64" "b1 = of_nat (0x80 + j)" using cont_digit bs(2) by blast
  obtain l where l: "l < 64" "b2 = of_nat (0x80 + l)" using cont_digit bs(3) by blast
  have u: "unat b = 0xE0 + k" "unat b1 = 0x80 + j" using k j by (simp_all del: of_nat_add)
  have r: "k = 0 \<longrightarrow> 32 \<le> j" "k = 13 \<longrightarrow> j < 32" using ok k(1) by (auto simp: u utf8_second_ok_def)
  have c: "c = of_nat ((k * 64 + j) * 64 + l)"
    using assms(1) utf8_next_by_length(3) [OF k(1) j(1) l(1) r] unfolding bs k(2) j(2) l(2) by simp
  have "unat c = (k * 64 + j) * 64 + l"
    unfolding c by (rule unat_of_nat_u32) (use k(1) j(1) l(1) in auto)
  moreover have "k * 64 + j < 864 \<or> 896 \<le> k * 64 + j" using r(2) k(1) j(1) by (cases "k < 13"; cases "k = 13") auto
  ultimately have "is_scalar c" using k(1) j(1) l(1) unfolding is_scalar_unat by auto
  then show ?thesis
    unfolding bs k(2) j(2) l(2) c utf8_encode_digits(2) [OF k(1) j(1) l(1) r(1)] by simp
qed

lemma utf8_next_sound_4:
  assumes "utf8_next b bs = Inr (c, rest)" and "0xF0 \<le> unat b" and "unat b \<le> 0xF4"
  shows "is_scalar c \<and> utf8_encode c @ rest = b # bs"
proof -
  from assms obtain b1 b2 b3 where bs: "bs = b1 # b2 # b3 # rest" "is_cont b1" "is_cont b2" "is_cont b3"
    and ok: "utf8_second_ok (unat b) (unat b1)"
    by (auto simp: utf8_next_def Let_def dest: second_digit split: if_splits list.splits)
  obtain k where k: "k < 5" "b = of_nat (0xF0 + k)" using lead_digit [of 240 b 5] assms(2,3) by auto
  obtain j where j: "j < 64" "b1 = of_nat (0x80 + j)" using cont_digit bs(2) by blast
  obtain l where l: "l < 64" "b2 = of_nat (0x80 + l)" using cont_digit bs(3) by blast
  obtain m where m: "m < 64" "b3 = of_nat (0x80 + m)" using cont_digit bs(4) by blast
  have u: "unat b = 0xF0 + k" "unat b1 = 0x80 + j" using k j by (simp_all del: of_nat_add)
  have r: "k \<le> 4" "k = 0 \<longrightarrow> 16 \<le> j" "k = 4 \<longrightarrow> j < 16"
    using ok k(1) by (auto simp: u utf8_second_ok_def)
  have c: "c = of_nat (((k * 64 + j) * 64 + l) * 64 + m)"
    using assms(1) utf8_next_by_length(4) [OF r(1) j(1) l(1) m(1) r(2,3)]
    unfolding bs k(2) j(2) l(2) m(2) by simp
  have "unat c = ((k * 64 + j) * 64 + l) * 64 + m"
    unfolding c by (rule unat_of_nat_u32) (use k(1) j(1) l(1) m(1) in auto)
  moreover have "16 \<le> k * 64 + j" "k * 64 + j < 272" using r j(1) by (cases "k = 0"; cases "k = 4"; auto)+
  ultimately have "is_scalar c" using j(1) l(1) m(1) unfolding is_scalar_unat by auto
  then show ?thesis
    unfolding bs k(2) j(2) l(2) m(2) c utf8_encode_digits(3) [OF r(1) j(1) l(1) m(1) r(2)] by simp
qed

lemma utf8_next_sound:
  assumes "utf8_next b bs = Inr (c, rest)"
  shows "is_scalar c \<and> utf8_encode c @ rest = b # bs"
proof -
  consider "unat b < 0x80" | "0xC2 \<le> unat b" "unat b \<le> 0xDF" | "0xE0 \<le> unat b" "unat b \<le> 0xEF"
    | "0xF0 \<le> unat b" "unat b \<le> 0xF4"
    using assms by (auto simp: utf8_next_def Let_def split: if_splits)
  then show ?thesis
  proof cases
    case 1
    with assms have "c = of_nat (unat b)" "rest = bs" by (auto simp: utf8_next_def)
    moreover from 1 have "unat (of_nat (unat b) :: u32) = unat b" by (intro unat_of_nat_u32) linarith
    ultimately show ?thesis using 1 by (auto simp: is_scalar_unat utf8_encode_by_length(1))
  next
    case 2
    then show ?thesis by (rule utf8_next_sound_2 [OF assms])
  next
    case 3
    then show ?thesis by (rule utf8_next_sound_3 [OF assms])
  next
    case 4
    then show ?thesis by (rule utf8_next_sound_4 [OF assms])
  qed
qed

interpretation utf8: prefix_codec utf8_encode utf8_next is_scalar
  by unfold_locales (rule utf8_next_encode, assumption, rule utf8_next_sound, assumption)

abbreviation valid_str :: "rstr \<Rightarrow> bool" where
  "valid_str \<equiv> list_all is_scalar"

lemma from_utf8_decodes: "from_utf8_at n bs = Inr s \<longleftrightarrow> decodes utf8_next bs s"
proof
  show "from_utf8_at n bs = Inr s \<Longrightarrow> decodes utf8_next bs s"
    by (induction n bs arbitrary: s rule: from_utf8_at.induct)
      (auto simp: from_utf8_at.simps intro: decodes.intros split: sum.splits prod.splits)
  show "decodes utf8_next bs s \<Longrightarrow> from_utf8_at n bs = Inr s"
    by (induction arbitrary: n rule: decodes.induct) (simp_all add: from_utf8_at.simps)
qed

lemma from_utf8_iff: "from_utf8 bs = Inr s \<longleftrightarrow> valid_str s \<and> as_bytes s = bs"
  by (simp add: from_utf8_def from_utf8_decodes utf8.decodes_iff as_bytes_def)

lemma from_utf8_as_bytes [simp]: "valid_str s \<Longrightarrow> from_utf8 (as_bytes s) = Inr s"
  by (simp add: from_utf8_iff)

lemma from_utf8_lossy_decodes: "decodes utf8_next bs s \<Longrightarrow> from_utf8_lossy bs = s"
  by (induction rule: decodes.induct) (simp_all add: from_utf8_lossy.simps)

lemma from_utf8_lossy_as_bytes [simp]: "valid_str s \<Longrightarrow> from_utf8_lossy (as_bytes s) = s"
  by (rule from_utf8_lossy_decodes) (simp add: utf8.decodes_iff as_bytes_def)

lemma from_utf8_lossy_valid: "valid_str (from_utf8_lossy bs)"
  by (induction bs rule: from_utf8_lossy.induct)
    (auto simp: from_utf8_lossy.simps dest: utf8_next_sound split: sum.splits option.splits)

lemma as_bytes_inj: "valid_str s \<Longrightarrow> valid_str t \<Longrightarrow> as_bytes s = as_bytes t \<Longrightarrow> s = t"
  unfolding as_bytes_def by (rule utf8.enc_inj_list)

end
