(* ===== verification/Str_Ops.thy ===== *)
theory Str_Ops
  imports Rust_Str
begin

text \<open>
  The operations of \<open>str\<close> the shell calls: \<open>find\<close>, \<open>split_at\<close>, \<open>strip_prefix\<close>, \<open>starts_with\<close>,
  \<open>split\<close> and \<open>trim\<close>. Positions are byte offsets into the UTF-8 encoding; \<open>split_at\<close> panics, here
  \<open>None\<close>, on an offset that is not a character boundary.
\<close>

section \<open>Byte offsets\<close>

definition len_utf8 :: "rchar \<Rightarrow> nat" where
  "len_utf8 c = length (utf8_encode c)"

definition str_len :: "rstr \<Rightarrow> nat" where
  "str_len s = length (as_bytes s)"

lemma len_utf8_pos [simp]: "0 < len_utf8 c"
  by (simp add: len_utf8_def)

lemma str_len_simps [simp]:
  "str_len [] = 0"
  "str_len (c # s) = len_utf8 c + str_len s"
  "str_len (s @ t) = str_len s + str_len t"
  by (simp_all add: str_len_def len_utf8_def)

text \<open>\<open>str::find\<close> of a character: the byte offset of its first occurrence.\<close>

fun find_char :: "rchar \<Rightarrow> rstr \<Rightarrow> nat option" where
  "find_char p [] = None"
| "find_char p (c # s) =
     (if c = p then Some 0 else map_option (\<lambda>n. len_utf8 c + n) (find_char p s))"

text \<open>\<open>str::split_at\<close>.\<close>

fun split_at :: "rstr \<Rightarrow> nat \<Rightarrow> (rstr \<times> rstr) option" where
  "split_at [] n = (if n = 0 then Some ([], []) else None)"
| "split_at (c # s) n =
     (if n = 0 then Some ([], c # s)
      else if n < len_utf8 c then None
      else map_option (\<lambda>(l, r). (c # l, r)) (split_at s (n - len_utf8 c)))"

lemma split_at_append [simp]: "split_at (s @ t) (str_len s) = Some (s, t)"
proof (induction s)
  case Nil
  then show ?case by (cases t) simp_all
next
  case (Cons c s)
  have "len_utf8 c + str_len s \<noteq> 0" using len_utf8_pos [of c] by linarith
  with Cons show ?case by simp
qed

lemma find_char_eq:
  "find_char p s = (if p \<in> set s then Some (str_len (takeWhile (\<lambda>c. c \<noteq> p) s)) else None)"
  by (induction s) auto

lemma find_char_None [simp]: "find_char p s = None \<longleftrightarrow> p \<notin> set s"
  by (simp add: find_char_eq)

lemma find_char_split:
  assumes "p \<in> set s"
  obtains l r where "s = l @ p # r" "p \<notin> set l" "find_char p s = Some (str_len l)"
proof -
  from split_list_first [OF assms] obtain l r where s: "s = l @ p # r" "p \<notin> set l" by blast
  then have "find_char p s = Some (str_len l)" by (simp add: find_char_eq)
  with s that show thesis by blast
qed

lemma find_char_append [simp]: "p \<notin> set l \<Longrightarrow> find_char p (l @ p # r) = Some (str_len l)"
  by (simp add: find_char_eq)

section \<open>Prefixes\<close>

definition strip_prefix :: "rstr \<Rightarrow> rstr \<Rightarrow> rstr option" where
  "strip_prefix p s = (if take (length p) s = p then Some (drop (length p) s) else None)"

definition starts_with :: "rstr \<Rightarrow> rstr \<Rightarrow> bool" where
  "starts_with p s \<longleftrightarrow> take (length p) s = p"

lemma strip_prefix_char [simp]:
  "strip_prefix [p] [] = None"
  "strip_prefix [p] (c # s) = (if c = p then Some s else None)"
  by (auto simp: strip_prefix_def)

lemma strip_prefix_starts_with: "strip_prefix p s \<noteq> None \<longleftrightarrow> starts_with p s"
  by (simp add: strip_prefix_def starts_with_def)

lemma starts_with_append [simp]: "starts_with p (p @ s)" "strip_prefix p (p @ s) = Some s"
  by (simp_all add: starts_with_def strip_prefix_def)

section \<open>Whitespace\<close>

text \<open>\<open>char::is_whitespace\<close>: the Unicode property White_Space.\<close>

definition is_whitespace :: "rchar \<Rightarrow> bool" where
  "is_whitespace c \<longleftrightarrow>
     (9 \<le> c \<and> c \<le> 13) \<or> c = 32 \<or> c = 0x85 \<or> c = 0xA0 \<or> c = 0x1680 \<or>
     (0x2000 \<le> c \<and> c \<le> 0x200A) \<or> c = 0x2028 \<or> c = 0x2029 \<or> c = 0x202F \<or> c = 0x205F \<or> c = 0x3000"

definition trim :: "rstr \<Rightarrow> rstr" where
  "trim s = rev (dropWhile is_whitespace (rev (dropWhile is_whitespace s)))"

lemma length_trim: "length (trim s) \<le> length s"
  unfolding trim_def by (metis length_dropWhile_le length_rev order_trans)

lemma set_trim: "set (trim s) \<subseteq> set s"
  unfolding trim_def by (auto dest!: set_dropWhileD)

lemma trim_Nil [simp]: "trim [] = []"
  by (simp add: trim_def)

lemma trim_id: "s = [] \<or> (\<not> is_whitespace (hd s) \<and> \<not> is_whitespace (last s)) \<Longrightarrow> trim s = s"
proof -
  assume h: "s = [] \<or> (\<not> is_whitespace (hd s) \<and> \<not> is_whitespace (last s))"
  have d: "t = [] \<or> \<not> is_whitespace (hd t) \<Longrightarrow> dropWhile is_whitespace t = t" for t
    by (cases t) auto
  from h show ?thesis by (auto simp: trim_def d hd_rev)
qed

section \<open>Splitting\<close>

text \<open>\<open>str::split\<close> at a character: the pieces between its occurrences, empty ones included.\<close>

fun split_on :: "rchar \<Rightarrow> rstr \<Rightarrow> rstr list" where
  "split_on p [] = [[]]"
| "split_on p (c # s) =
     (if c = p then [] # split_on p s
      else (case split_on p s of [] \<Rightarrow> [[c]] | w # ws \<Rightarrow> (c # w) # ws))"

lemma split_on_nonempty [simp]: "split_on p s \<noteq> []"
  by (cases s) (auto split: list.splits)

lemma split_on_append: "p \<notin> set w \<Longrightarrow> split_on p (w @ p # s) = w # split_on p s"
  by (induction w) auto

lemma split_on_single: "p \<notin> set w \<Longrightarrow> split_on p w = [w]"
  by (induction w) auto

lemma split_on_pieces: "w \<in> set (split_on p s) \<Longrightarrow> p \<notin> set w \<and> set w \<subseteq> set s"
proof (induction s arbitrary: w)
  case Nil
  then show ?case by simp
next
  case (Cons c s)
  obtain v vs where v: "split_on p s = v # vs" by (cases "split_on p s") auto
  with Cons.IH have "p \<notin> set v \<and> set v \<subseteq> set s" "\<And>u. u \<in> set vs \<Longrightarrow> p \<notin> set u \<and> set u \<subseteq> set s"
    by auto
  with Cons.prems show ?case by (fastforce simp: v split: if_splits)
qed

end
