(* ===== verification/Machine.thy ===== *)
theory Machine
  imports Rust_Str
begin

text \<open>
  The machine a user program of the test bench runs on, and the effects its Rust code has: byte
  memory, the heap blocks it holds, the kernel behind the \<open>ecall\<close> instruction, panics, calls that
  never return and loops that never end. A computation takes the world and gives \<open>None\<close> when it
  runs forever, otherwise an outcome and the world it left. What the repository does not contain
  (kernel, allocator, linker placement, crates \<open>bitflags\<close> and \<open>time\<close>) is a field of \<open>platform\<close>.
\<close>

section \<open>Memory\<close>

type_synonym addr = u64
type_synonym memory = "addr \<Rightarrow> u8"

definition store_bytes :: "memory \<Rightarrow> addr \<Rightarrow> u8 list \<Rightarrow> memory" where
  "store_bytes m p bs = (\<lambda>a. if unat (a - p) < length bs then bs ! unat (a - p) else m a)"

definition load_bytes :: "memory \<Rightarrow> addr \<Rightarrow> nat \<Rightarrow> u8 list" where
  "load_bytes m p n = map (\<lambda>i. m (p + of_nat i)) [0..<n]"

definition fits :: "addr \<Rightarrow> nat \<Rightarrow> bool" where
  "fits p n \<longleftrightarrow> unat p + n \<le> 2 ^ 64"

definition disjoint :: "addr \<times> nat \<Rightarrow> addr \<times> nat \<Rightarrow> bool" where
  "disjoint b c \<longleftrightarrow>
     unat (fst b) + snd b \<le> unat (fst c) \<or> unat (fst c) + snd c \<le> unat (fst b)"

lemma length_load_bytes [simp]: "length (load_bytes m p n) = n"
  by (simp add: load_bytes_def)

lemma load_bytes_0 [simp]: "load_bytes m p 0 = []"
  by (simp add: load_bytes_def)

lemma load_store_bytes [simp]:
  assumes "n = length bs" "length bs \<le> 2 ^ 64"
  shows "load_bytes (store_bytes m p bs) p n = bs"
  using assms by (intro nth_equalityI) (auto simp: load_bytes_def store_bytes_def)

lemma load_store_other [simp]:
  assumes "fits p (length bs)" "fits q n" "disjoint (p, length bs) (q, n)"
  shows "load_bytes (store_bytes m p bs) q n = load_bytes m q n"
proof -
  have "\<not> unat (q + of_nat i - p) < length bs" if "i < n" for i
  proof -
    have q: "unat q + i < 2 ^ 64" using assms(2) that by (simp add: fits_def)
    then have "unat (of_nat i :: addr) = i" by (intro unat_of_nat_u64) simp
    with q have "unat (q + of_nat i) = unat q + i" by (simp add: unat_plus_if')
    then show ?thesis
      using assms that unat_u64_less [of q]
      by (auto simp: unat_sub_if' disjoint_def fits_def)
  qed
  then show ?thesis by (auto simp: load_bytes_def store_bytes_def)
qed

definition apart :: "addr \<Rightarrow> nat \<Rightarrow> addr \<Rightarrow> nat \<Rightarrow> bool" where
  "apart p n q k \<longleftrightarrow> fits p n \<and> fits q k \<and> disjoint (p, n) (q, k)"

lemma load_store_apart: "apart p (length bs) q n \<Longrightarrow> load_bytes (store_bytes m p bs) q n = load_bytes m q n"
  by (simp add: apart_def)

lemma store_bytes_single [simp]: "store_bytes m p [b] = m(p := b)"
  by (rule ext) (auto simp: store_bytes_def unat_eq_0)

text \<open>A C string: the bytes up to the first NUL.\<close>

definition cstr_at :: "memory \<Rightarrow> addr \<Rightarrow> u8 list \<Rightarrow> bool" where
  "cstr_at m p bs \<longleftrightarrow>
     0 \<notin> set bs \<and> fits p (Suc (length bs)) \<and> load_bytes m p (Suc (length bs)) = bs @ [0]"

section \<open>The world, the platform and the outcomes\<close>

text \<open>
  A panic carries the pieces its message is printed in and its source location. \<open>Gone\<close> is a system
  call that does not come back to the program: \<open>exit\<close>, an \<open>exec\<close> that replaced it, a wait without end.
\<close>

record panic_info =
  pi_message :: "rstr list"
  pi_file :: string
  pi_line :: nat

datatype 'a outcome = Value 'a | Panicked panic_info | Gone

record ecall_event =
  ev_number :: u64
  ev_args :: "u64 list"
  ev_mem :: memory

text \<open>
  \<open>heap\<close> is the region the allocator was given, \<open>live\<close> the blocks it has handed out, \<open>kern\<close> the state
  of everything outside the process, \<open>trace\<close> the system calls made so far (it is never read).
\<close>

record 'k world =
  mem :: memory
  heap :: "(addr \<times> nat) option"
  live :: "(addr \<times> nat) list"
  kern :: 'k
  trace :: "ecall_event list"

datatype 'k ecall_result = Resume u64 u64 memory 'k | Vanish 'k

record 'k platform =
  ecall :: "u64 \<Rightarrow> u64 list \<Rightarrow> memory \<Rightarrow> 'k \<Rightarrow> 'k ecall_result"
  heap_place :: "(addr \<times> nat) option \<Rightarrow> (addr \<times> nat) list \<Rightarrow> nat \<Rightarrow> addr option"
  place :: "nat \<Rightarrow> nat \<Rightarrow> addr"
  heap_space :: addr
  usize_or :: "u64 \<Rightarrow> u64 \<Rightarrow> u64"
  u16_or :: "u16 \<Rightarrow> u16 \<Rightarrow> u16"
  time_format :: "int \<Rightarrow> int \<Rightarrow> rstr \<Rightarrow> rstr"
  layout_debug :: "nat \<Rightarrow> nat \<Rightarrow> rstr list"
  source_path :: "string \<Rightarrow> rstr"
  slice_error :: "rstr \<Rightarrow> nat \<Rightarrow> rstr list"

type_synonym ('k, 'a) rust = "'k world \<Rightarrow> ('a outcome \<times> 'k world) option"

section \<open>Sequencing, the question mark, panics\<close>

definition ret :: "'a \<Rightarrow> ('k, 'a) rust" where
  "ret x w = Some (Value x, w)"

definition andthen :: "('k, 'a) rust \<Rightarrow> ('a \<Rightarrow> ('k, 'b) rust) \<Rightarrow> ('k, 'b) rust" where
  "andthen m f w =
     Option.bind (m w) (\<lambda>(oc, w'). case oc of
         Value x \<Rightarrow> f x w'
       | Panicked i \<Rightarrow> Some (Panicked i, w')
       | Gone \<Rightarrow> Some (Gone, w'))"

definition try_then :: "('k, 'e + 'a) rust \<Rightarrow> ('a \<Rightarrow> ('k, 'e + 'b) rust) \<Rightarrow> ('k, 'e + 'b) rust" where
  "try_then m f = andthen m (\<lambda>r. case r of Inl e \<Rightarrow> ret (Inl e) | Inr x \<Rightarrow> f x)"

definition panic_at :: "string \<Rightarrow> nat \<Rightarrow> rstr list \<Rightarrow> ('k, 'a) rust" where
  "panic_at f l msg w = Some (Panicked \<lparr>pi_message = msg, pi_file = f, pi_line = l\<rparr>, w)"

definition catch_panic :: "('k, 'a) rust \<Rightarrow> (panic_info \<Rightarrow> ('k, 'a) rust) \<Rightarrow> ('k, 'a) rust" where
  "catch_panic m h w =
     Option.bind (m w) (\<lambda>(oc, w'). case oc of
         Value x \<Rightarrow> Some (Value x, w')
       | Panicked i \<Rightarrow> h i w'
       | Gone \<Rightarrow> Some (Gone, w'))"

text \<open>\<open>Result::map\<close>, \<open>Result::unwrap\<close> and \<open>Option::unwrap\<close>.\<close>

definition map_ok :: "('a \<Rightarrow> 'b) \<Rightarrow> ('k, 'e + 'a) rust \<Rightarrow> ('k, 'e + 'b) rust" where
  "map_ok f m = andthen m (\<lambda>r. ret (map_sum id f r))"

definition map_err :: "('e \<Rightarrow> 'd) \<Rightarrow> ('k, 'e + 'a) rust \<Rightarrow> ('k, 'd + 'a) rust" where
  "map_err f m = andthen m (\<lambda>r. ret (map_sum f id r))"

definition unwrap_result :: "('e \<Rightarrow> rstr list) \<Rightarrow> string \<Rightarrow> nat \<Rightarrow> 'e + 'a \<Rightarrow> ('k, 'a) rust" where
  "unwrap_result dbg f l r = (case r of
       Inl e \<Rightarrow> panic_at f l ([str ''called `Result::unwrap()` on an `Err` value'', str '': ''] @ dbg e)
     | Inr x \<Rightarrow> ret x)"

definition unwrap_option :: "string \<Rightarrow> nat \<Rightarrow> 'a option \<Rightarrow> ('k, 'a) rust" where
  "unwrap_option f l x = (case x of
       None \<Rightarrow> panic_at f l [str ''called `Option::unwrap()` on a `None` value'']
     | Some y \<Rightarrow> ret y)"

lemma andthen_simps [rust_simps]:
  "m w = Some (Value x, w') \<Longrightarrow> andthen m f w = f x w'"
  "m w = Some (Panicked i, w') \<Longrightarrow> andthen m f w = Some (Panicked i, w')"
  "m w = Some (Gone, w') \<Longrightarrow> andthen m f w = Some (Gone, w')"
  "m w = None \<Longrightarrow> andthen m f w = None"
  by (simp_all add: andthen_def)

lemma try_then_simps [rust_simps]:
  "m w = Some (Value (Inr x), w') \<Longrightarrow> try_then m f w = f x w'"
  "m w = Some (Value (Inl e), w') \<Longrightarrow> try_then m f w = Some (Value (Inl e), w')"
  "m w = Some (Panicked i, w') \<Longrightarrow> try_then m f w = Some (Panicked i, w')"
  "m w = Some (Gone, w') \<Longrightarrow> try_then m f w = Some (Gone, w')"
  "m w = None \<Longrightarrow> try_then m f w = None"
  by (simp_all add: try_then_def andthen_def ret_def)

lemma catch_panic_simps [rust_simps]:
  "m w = Some (Value x, w') \<Longrightarrow> catch_panic m h w = Some (Value x, w')"
  "m w = Some (Panicked i, w') \<Longrightarrow> catch_panic m h w = h i w'"
  "m w = Some (Gone, w') \<Longrightarrow> catch_panic m h w = Some (Gone, w')"
  "m w = None \<Longrightarrow> catch_panic m h w = None"
  by (simp_all add: catch_panic_def)

lemma ret_simp [rust_simps]: "ret x w = Some (Value x, w)"
  by (simp add: ret_def)

lemma panic_at_simp [rust_simps]:
  "panic_at f l msg w = Some (Panicked \<lparr>pi_message = msg, pi_file = f, pi_line = l\<rparr>, w)"
  by (simp add: panic_at_def)

lemma unwrap_simps [rust_simps]:
  "unwrap_result dbg f l (Inr x) w = Some (Value x, w)"
  "unwrap_result dbg f l (Inl e) w = Some (Panicked \<lparr>pi_message =
     [str ''called `Result::unwrap()` on an `Err` value'', str '': ''] @ dbg e, pi_file = f, pi_line = l\<rparr>, w)"
  "unwrap_option f l (Some x) w = Some (Value x, w)"
  "unwrap_option f l None w = Some (Panicked \<lparr>pi_message =
     [str ''called `Option::unwrap()` on a `None` value''], pi_file = f, pi_line = l\<rparr>, w)"
  by (simp_all add: unwrap_result_def unwrap_option_def ret_def panic_at_def)

lemma map_ok_simps [rust_simps]:
  "m w = Some (Value (Inr x), w') \<Longrightarrow> map_ok f m w = Some (Value (Inr (f x)), w')"
  "m w = Some (Value (Inl e), w') \<Longrightarrow> map_ok f m w = Some (Value (Inl e), w')"
  "m w = Some (Panicked i, w') \<Longrightarrow> map_ok f m w = Some (Panicked i, w')"
  "m w = Some (Gone, w') \<Longrightarrow> map_ok f m w = Some (Gone, w')"
  by (simp_all add: map_ok_def andthen_def ret_def)

lemma andthen_Some_iff:
  "andthen m f w = Some (oc, w') \<longleftrightarrow>
     (\<exists>y u. m w = Some (Value y, u) \<and> f y u = Some (oc, w')) \<or>
     (\<exists>i. m w = Some (Panicked i, w') \<and> oc = Panicked i) \<or> (m w = Some (Gone, w') \<and> oc = Gone)"
proof (cases "m w")
  case None
  then show ?thesis by (simp add: andthen_def)
next
  case (Some r)
  then show ?thesis by (cases r; cases "fst r") (auto simp: andthen_def)
qed

lemma catch_panic_Some_iff:
  "catch_panic m h w = Some (oc, w') \<longleftrightarrow>
     (\<exists>i u. m w = Some (Panicked i, u) \<and> h i u = Some (oc, w')) \<or>
     (m w = Some (oc, w') \<and> (\<forall>i. oc \<noteq> Panicked i))"
proof (cases "m w")
  case None
  then show ?thesis by (simp add: catch_panic_def)
next
  case (Some r)
  then show ?thesis by (cases r; cases "fst r") (auto simp: catch_panic_def)
qed

lemma try_then_Some_iff:
  "try_then m f w = Some (oc, w') \<longleftrightarrow>
     (\<exists>y u. m w = Some (Value (Inr y), u) \<and> f y u = Some (oc, w')) \<or>
     (\<exists>e. m w = Some (Value (Inl e), w') \<and> oc = Value (Inl e)) \<or>
     (\<exists>i. m w = Some (Panicked i, w') \<and> oc = Panicked i) \<or> (m w = Some (Gone, w') \<and> oc = Gone)"
proof (cases "m w")
  case (Some r)
  obtain o' u where r: "r = (o', u)" by (cases r)
  show ?thesis
  proof (cases o')
    case (Value y)
    with Some r show ?thesis by (cases y) (auto simp: rust_simps)
  qed (use Some r in \<open>auto simp: rust_simps\<close>)
qed (simp add: rust_simps)

lemma andthen_ret [simp]: "andthen (ret x) f = f x" "andthen m ret = m"
  by (auto simp: andthen_def ret_def fun_eq_iff split: outcome.splits Option.bind_splits)

lemma andthen_assoc: "andthen (andthen m f) g = andthen m (\<lambda>x. andthen (f x) g)"
  by (auto simp: andthen_def fun_eq_iff split: outcome.splits Option.bind_splits)

text \<open>Recursive calls may stand in these positions of a loop body.\<close>

lemma andthen_mono [partial_function_mono]:
  assumes "\<And>w. mono_option (\<lambda>f. B f w)" and "\<And>y w. mono_option (\<lambda>f. C y f w)"
  shows "mono_option (\<lambda>f. andthen (B f) (\<lambda>y. C y f) w)"
  unfolding andthen_def
proof (intro bind_mono assms(1))
  fix r
  show "mono_option (\<lambda>f. case r of (oc, w') \<Rightarrow> (case oc of Value x \<Rightarrow> C x f w'
      | Panicked i \<Rightarrow> Some (Panicked i, w') | Gone \<Rightarrow> Some (Gone, w')))"
    by (cases r; cases "fst r") (auto intro: assms(2) option.const_mono)
qed

lemma try_then_mono [partial_function_mono]:
  assumes "\<And>w. mono_option (\<lambda>f. B f w)" and "\<And>y w. mono_option (\<lambda>f. C y f w)"
  shows "mono_option (\<lambda>f. try_then (B f) (\<lambda>y. C y f) w)"
  unfolding try_then_def
proof (intro andthen_mono assms(1))
  fix r w
  show "mono_option (\<lambda>f. (case r of Inl e \<Rightarrow> ret (Inl e) | Inr y \<Rightarrow> C y f) w)"
    by (cases r) (auto intro: assms(2) option.const_mono)
qed

lemma catch_panic_mono [partial_function_mono]:
  assumes "\<And>w. mono_option (\<lambda>f. B f w)" and "\<And>y w. mono_option (\<lambda>f. C y f w)"
  shows "mono_option (\<lambda>f. catch_panic (B f) (\<lambda>y. C y f) w)"
  unfolding catch_panic_def
proof (intro bind_mono assms(1))
  fix r
  show "mono_option (\<lambda>f. case r of (oc, w') \<Rightarrow> (case oc of Value x \<Rightarrow> Some (Value x, w')
      | Panicked i \<Rightarrow> C i f w' | Gone \<Rightarrow> Some (Gone, w')))"
    by (cases r; cases "fst r") (auto intro: assms(2) option.const_mono)
qed

lemma branch_mono [partial_function_mono]:
  assumes "mono_option (\<lambda>f. B f w)" and "mono_option (\<lambda>f. C f w)"
  shows "mono_option (\<lambda>f. (if c then B f else C f) w)"
  using assms by (cases c) simp_all

lemma match_sum_mono [partial_function_mono]:
  assumes "\<And>e. mono_option (\<lambda>f. B e f w)" and "\<And>x. mono_option (\<lambda>f. C x f w)"
  shows "mono_option (\<lambda>f. (case r of Inl e \<Rightarrow> B e f | Inr x \<Rightarrow> C x f) w)"
  using assms by (cases r) simp_all

section \<open>Buffers\<close>

text \<open>
  A heap buffer exists from its allocation to the end of its scope; a failed allocation goes to the
  allocation error handler (\<open>on_alloc_error\<close> of the allocator theory, passed as \<open>oom\<close>). Data of
  statics and stack frames sits where the linker and the compiler put it.
\<close>

definition with_block ::
    "('k platform \<Rightarrow> nat \<Rightarrow> nat \<Rightarrow> ('k, 'a) rust) \<Rightarrow> 'k platform \<Rightarrow> nat \<Rightarrow> u8 list
      \<Rightarrow> (addr \<Rightarrow> ('k, 'a) rust) \<Rightarrow> ('k, 'a) rust" where
  "with_block oom P align bs f w =
     (case heap_place P (heap w) (live w) (length bs) of
        None \<Rightarrow> oom P (length bs) align w
      | Some p \<Rightarrow>
          andthen (f p) (\<lambda>x w'. ret x (w'\<lparr>live := remove1 (p, length bs) (live w')\<rparr>))
            (w\<lparr>mem := store_bytes (mem w) p bs, live := (p, length bs) # live w\<rparr>))"

definition with_data :: "'k platform \<Rightarrow> u8 list \<Rightarrow> (addr \<Rightarrow> ('k, 'a) rust) \<Rightarrow> ('k, 'a) rust" where
  "with_data P bs f w =
     (let p = place P (length (trace w)) (length bs)
      in f p (w\<lparr>mem := store_bytes (mem w) p bs\<rparr>))"

definition read_buffer :: "addr \<Rightarrow> nat \<Rightarrow> ('k, u8 list) rust" where
  "read_buffer p n w = Some (Value (load_bytes (mem w) p n), w)"

text \<open>
  What the code relies on in the allocator: a block is not null, lies inside the region the allocator
  was given and shares no byte with a block that is still held.
\<close>

definition allocator_sound :: "'k platform \<Rightarrow> bool" where
  "allocator_sound P \<longleftrightarrow>
     (\<forall>r bl n p. heap_place P r bl n = Some p \<longrightarrow>
        p \<noteq> 0 \<and> fits p n \<and> list_all (disjoint (p, n)) bl \<and>
        (\<exists>s k. r = Some (s, k) \<and> unat s \<le> unat p \<and> unat p + n \<le> unat s + k))"

section \<open>Frames\<close>

text \<open>
  \<open>keeps R m\<close>: a run of \<open>m\<close> that returns relates the world before to the world after by \<open>R\<close>;
  \<open>always R m\<close>: so does a run that panics or leaves the program. A reflexive and transitive \<open>R\<close>
  passes through every way the code composes its calls.
\<close>

definition keeps :: "('k world \<Rightarrow> 'k world \<Rightarrow> bool) \<Rightarrow> ('k, 'a) rust \<Rightarrow> bool" where
  "keeps R m \<longleftrightarrow> (\<forall>w x w'. m w = Some (Value x, w') \<longrightarrow> R w w')"

definition always :: "('k world \<Rightarrow> 'k world \<Rightarrow> bool) \<Rightarrow> ('k, 'a) rust \<Rightarrow> bool" where
  "always R m \<longleftrightarrow> (\<forall>w oc w'. m w = Some (oc, w') \<longrightarrow> R w w')"

lemma keepsI: "(\<And>w x w'. m w = Some (Value x, w') \<Longrightarrow> R w w') \<Longrightarrow> keeps R m"
  by (simp add: keeps_def)

lemma alwaysI: "(\<And>w oc w'. m w = Some (oc, w') \<Longrightarrow> R w w') \<Longrightarrow> always R m"
  by (simp add: always_def)

locale world_frame =
  fixes R :: "'k world \<Rightarrow> 'k world \<Rightarrow> bool"
  assumes refl: "R w w"
    and trans: "R u v \<Longrightarrow> R v w \<Longrightarrow> R u w"
begin

lemma always_keeps: "always R m \<Longrightarrow> keeps R m"
  by (auto simp: always_def keeps_def)

lemma always_ret: "always R (ret x)"
  by (auto simp: always_def ret_def refl)

lemma keeps_panic_at: "keeps R (panic_at f l msg)"
  by (simp add: keeps_def panic_at_def)

lemma always_panic_at: "always R (panic_at f l msg)"
  by (auto simp: always_def panic_at_def refl)

lemma keeps_andthen:
  assumes "keeps R m" and "\<And>x. keeps R (f x)"
  shows "keeps R (andthen m f)"
proof (rule keepsI)
  fix w x w'
  assume "andthen m f w = Some (Value x, w')"
  then obtain y u where "m w = Some (Value y, u)" "f y u = Some (Value x, w')"
    by (auto simp: andthen_Some_iff)
  with assms show "R w w'" unfolding keeps_def by (blast intro: trans)
qed

lemma always_andthen:
  assumes "always R m" and "\<And>x. always R (f x)"
  shows "always R (andthen m f)"
proof (rule alwaysI)
  fix w oc w'
  assume "andthen m f w = Some (oc, w')"
  then obtain o' u where m: "m w = Some (o', u)"
    and r: "u = w' \<or> (\<exists>y. f y u = Some (oc, w'))"
    by (auto simp: andthen_Some_iff)
  from m assms(1) have "R w u" by (auto simp: always_def)
  with r assms(2) show "R w w'" unfolding always_def by (blast intro: trans)
qed

lemma always_catch_panic:
  assumes "always R m" and "\<And>i. always R (h i)"
  shows "always R (catch_panic m h)"
proof (rule alwaysI)
  fix w oc w'
  assume "catch_panic m h w = Some (oc, w')"
  then obtain o' u where m: "m w = Some (o', u)"
    and r: "u = w' \<or> (\<exists>i. h i u = Some (oc, w'))"
    by (auto simp: catch_panic_Some_iff)
  from m assms(1) have "R w u" by (auto simp: always_def)
  with r assms(2) show "R w w'" unfolding always_def by (blast intro: trans)
qed

lemma keeps_try_then: "keeps R m \<Longrightarrow> (\<And>x. keeps R (f x)) \<Longrightarrow> keeps R (try_then m f)"
  unfolding try_then_def
  by (rule keeps_andthen) (auto split: sum.splits intro: always_keeps always_ret)

lemma always_try_then: "always R m \<Longrightarrow> (\<And>x. always R (f x)) \<Longrightarrow> always R (try_then m f)"
  unfolding try_then_def by (rule always_andthen) (auto split: sum.splits intro: always_ret)

lemma keeps_map_ok: "keeps R m \<Longrightarrow> keeps R (map_ok f m)"
  unfolding map_ok_def by (rule keeps_andthen) (auto intro: always_keeps always_ret)

lemma always_map_ok: "always R m \<Longrightarrow> always R (map_ok f m)"
  unfolding map_ok_def by (rule always_andthen) (auto intro: always_ret)

lemma keeps_map_err: "keeps R m \<Longrightarrow> keeps R (map_err f m)"
  unfolding map_err_def by (rule keeps_andthen) (auto intro: always_keeps always_ret)

lemma always_map_err: "always R m \<Longrightarrow> always R (map_err f m)"
  unfolding map_err_def by (rule always_andthen) (auto intro: always_ret)

lemma keeps_unwrap_result: "keeps R (unwrap_result dbg f l r)"
  by (auto simp: unwrap_result_def split: sum.splits
      intro: keeps_panic_at always_keeps always_ret)

lemma always_unwrap_result: "always R (unwrap_result dbg f l r)"
  by (auto simp: unwrap_result_def split: sum.splits intro: always_panic_at always_ret)

lemmas keeps_intros = keeps_panic_at keeps_andthen keeps_try_then keeps_map_ok keeps_map_err
  keeps_unwrap_result always_ret [THEN always_keeps]

lemmas always_intros = always_ret always_panic_at always_andthen always_try_then always_map_ok
  always_map_err always_unwrap_result always_catch_panic

end

text \<open>Three frames: the blocks held, the heap region, the growing record of system calls.\<close>

abbreviation same_live :: "'k world \<Rightarrow> 'k world \<Rightarrow> bool" where
  "same_live w w' \<equiv> live w' = live w"

abbreviation same_heap :: "'k world \<Rightarrow> 'k world \<Rightarrow> bool" where
  "same_heap w w' \<equiv> heap w' = heap w"

definition more_calls :: "'k world \<Rightarrow> 'k world \<Rightarrow> bool" where
  "more_calls w w' \<longleftrightarrow> (\<exists>es. trace w' = trace w @ es)"

interpretation held: world_frame same_live
  by unfold_locales simp_all

interpretation region: world_frame same_heap
  by unfold_locales simp_all

interpretation calls: world_frame more_calls
  by unfold_locales (auto simp: more_calls_def)

end
