(* ===== verification/Command.thy ===== *)
theory Command
  imports Str_Ops Machine
begin

text \<open>
  The command type of \<^verbatim>\<open>parch_utils/shell/src/main.rs\<close> and its parser. \<open>Command::parse\<close> recurses
  on both sides of a \<open>|\<close>; it returns a command, a \<open>ParseErr\<close>, or panics where the source unwraps.
\<close>

abbreviation shell_rs :: string where
  "shell_rs \<equiv> ''parch_utils/shell/src/main.rs''"

section \<open>Commands\<close>

text \<open>
  The two types of the source refer to each other. The side of a command takes the type of a piped command
  as a parameter, and a command closes the recursion by being that type itself.
\<close>

datatype 'c io_type = Default | File rstr | Cmd 'c

datatype command = Command (exec_path: rstr) (cmd_args: "rstr list") (cmd_input: "command io_type")
    (cmd_output: "command io_type")

datatype parse_err = ParseErr

lemma parse_err_only [simp]: "(e = ParseErr) = True"
  by (cases e) simp

section \<open>Values that may be a panic\<close>

type_synonym 'a checked = "panic_info + 'a"

definition checked_then :: "'a checked \<Rightarrow> ('a \<Rightarrow> 'b checked) \<Rightarrow> 'b checked" where
  "checked_then x f = (case x of Inl i \<Rightarrow> Inl i | Inr y \<Rightarrow> f y)"

definition checked_try :: "('e + 'a) checked \<Rightarrow> ('a \<Rightarrow> ('e + 'b) checked) \<Rightarrow> ('e + 'b) checked" where
  "checked_try x f = checked_then x (\<lambda>r. case r of Inl e \<Rightarrow> Inr (Inl e) | Inr y \<Rightarrow> f y)"

definition shell_panic :: "nat \<Rightarrow> rstr list \<Rightarrow> panic_info" where
  "shell_panic l msg = \<lparr>pi_message = msg, pi_file = shell_rs, pi_line = l\<rparr>"

definition unwrap_at :: "nat \<Rightarrow> 'a option \<Rightarrow> 'a checked" where
  "unwrap_at l x = (case x of
       None \<Rightarrow> Inl (shell_panic l [str ''called `Option::unwrap()` on a `None` value''])
     | Some y \<Rightarrow> Inr y)"

definition split_str :: "'k platform \<Rightarrow> nat \<Rightarrow> rstr \<Rightarrow> nat \<Rightarrow> (rstr \<times> rstr) checked" where
  "split_str P l s n = (case split_at s n of
       None \<Rightarrow> Inl (shell_panic l (slice_error P s n))
     | Some lr \<Rightarrow> Inr lr)"

lemma checked_simps [simp]:
  "checked_then (Inl i) f = Inl i" "checked_then (Inr x) f = f x"
  "checked_try (Inl i) g = Inl i" "checked_try (Inr (Inl e)) g = Inr (Inl e)"
  "checked_try (Inr (Inr y)) g = g y"
  by (simp_all add: checked_then_def checked_try_def)

lemma unwrap_at_simps [simp]:
  "unwrap_at l (Some x) = Inr x"
  "unwrap_at l None = Inl (shell_panic l [str ''called `Option::unwrap()` on a `None` value''])"
  by (simp_all add: unwrap_at_def)

lemma split_str_append [simp]: "split_str P l (s @ t) (str_len s) = Inr (s, t)"
  by (simp add: split_str_def)

lemma checked_then_cong [fundef_cong]:
  "x = y \<Longrightarrow> (\<And>a. y = Inr a \<Longrightarrow> f a = g a) \<Longrightarrow> checked_then x f = checked_then y g"
  by (cases y) simp_all

lemma checked_try_cong [fundef_cong]:
  "x = y \<Longrightarrow> (\<And>a. y = Inr (Inr a) \<Longrightarrow> f a = g a) \<Longrightarrow> checked_try x f = checked_try y g"
  by (cases y; cases "projr y") (auto simp: checked_try_def checked_then_def split: sum.splits)

section \<open>The parser\<close>

text \<open>
  The two redirections: the executable part, the input path, the output path. When both symbols
  occur the second split position is counted from the first symbol although that symbol is already
  stripped, as in the source.
\<close>

definition redirections ::
    "'k platform \<Rightarrow> rstr \<Rightarrow> (rstr \<times> rstr option \<times> rstr option) checked" where
  "redirections P cmd =
     (case (find_char 60 cmd, find_char 62 cmd) of
        (Some input_pos, Some output_pos) \<Rightarrow>
          if input_pos < output_pos then
            checked_then (split_str P 155 cmd input_pos) (\<lambda>(e, i_o).
            checked_then (unwrap_at 156 (strip_prefix [60] i_o)) (\<lambda>i_o.
            checked_then (split_str P 157 i_o (output_pos - input_pos)) (\<lambda>(i, out).
            checked_then (unwrap_at 158 (strip_prefix [62] out)) (\<lambda>out.
            Inr (trim e, Some (trim i), Some (trim out))))))
          else
            checked_then (split_str P 161 cmd output_pos) (\<lambda>(e, o_i).
            checked_then (unwrap_at 162 (strip_prefix [62] o_i)) (\<lambda>o_i.
            checked_then (split_str P 163 o_i (input_pos - output_pos)) (\<lambda>(out, i).
            checked_then (unwrap_at 164 (strip_prefix [60] i)) (\<lambda>i.
            Inr (trim e, Some (trim i), Some (trim out))))))
      | (Some input_pos, None) \<Rightarrow>
          checked_then (split_str P 168 cmd input_pos) (\<lambda>(e, i).
          checked_then (unwrap_at 169 (strip_prefix [60] i)) (\<lambda>i.
          Inr (trim e, Some (trim i), None)))
      | (None, Some output_pos) \<Rightarrow>
          checked_then (split_str P 172 cmd output_pos) (\<lambda>(e, out).
          checked_then (unwrap_at 173 (strip_prefix [62] out)) (\<lambda>out.
          Inr (trim e, None, Some (trim out))))
      | (None, None) \<Rightarrow> Inr (trim cmd, None, None))"

definition io_of :: "rstr option \<Rightarrow> command io_type" where
  "io_of x = (case x of Some path \<Rightarrow> File path | None \<Rightarrow> Default)"

definition tokens :: "rstr \<Rightarrow> rstr list" where
  "tokens exec = filter (\<lambda>s. s \<noteq> []) (split_on 32 exec)"

definition build_command :: "rstr \<times> rstr option \<times> rstr option \<Rightarrow> (parse_err + command) checked" where
  "build_command = (\<lambda>(exec, inp, out). case tokens exec of
       [] \<Rightarrow> Inr (Inl ParseErr)
     | path # rest \<Rightarrow> Inr (Inr (Command path rest (io_of inp) (io_of out))))"

function (domintros) parse :: "'k platform \<Rightarrow> rstr \<Rightarrow> (parse_err + command) checked" where
  "parse P cmd =
     (case find_char 124 cmd of
        Some split_pos \<Rightarrow>
          checked_then (split_str P 136 cmd split_pos) (\<lambda>(l, r).
          checked_try (parse P (trim l)) (\<lambda>l.
          checked_try (parse P (trim r)) (\<lambda>r.
          if cmd_output l \<noteq> Default \<or> cmd_input r \<noteq> Default then Inr (Inl ParseErr)
          else Inr (Inr (Command (exec_path l) (cmd_args l) (cmd_input l) (Cmd r))))))
      | None \<Rightarrow> checked_then (redirections P cmd) build_command)"
  by pat_completeness auto

lemma tokens_Nil [simp]: "tokens [] = []"
  by (simp add: tokens_def)

lemma redirections_Nil [simp]: "redirections P [] = Inr ([], None, None)"
  by (simp add: redirections_def)

lemma parse_Nil_dom: "parse_dom (P, [])"
  by (rule parse.domintros) simp_all

lemma parse_Nil_partial: "parse P [] = Inr (Inl ParseErr)"
  by (simp add: parse.psimps [OF parse_Nil_dom] build_command_def)

lemma split_str_pipe:
  assumes "find_char p cmd = Some n" "split_str P k cmd n = Inr (l, r)"
  shows "cmd = l @ r \<and> (\<exists>t. r = p # t) \<and> p \<notin> set l"
proof -
  from assms(1) have "p \<in> set cmd" by (metis find_char_None option.distinct(1))
  then obtain a b where s: "cmd = a @ p # b" "p \<notin> set a" "find_char p cmd = Some (str_len a)"
    by (rule find_char_split)
  with assms have "split_str P k (a @ p # b) (str_len a) = Inr (l, r)" by simp
  with s show ?thesis by auto
qed

termination parse
proof (relation "measure (\<lambda>(P, cmd). length cmd)")
  show "wf (measure (\<lambda>(P :: 'k platform, cmd :: rstr). length cmd))" by simp
next
  fix P :: "'k platform" and cmd n lr l r
  assume "find_char 124 cmd = Some n" "split_str P 136 cmd n = Inr lr" "(l, r) = lr"
  then have "length l < length cmd" using split_str_pipe by fastforce
  then show "((P, trim l), P, cmd) \<in> measure (\<lambda>(P, cmd). length cmd)"
    using length_trim [of l] by simp
next
  fix P :: "'k platform" and cmd n lr l r c
  assume h: "find_char 124 cmd = Some n" "split_str P 136 cmd n = Inr lr" "(l, r) = lr"
    and c: "parse P (trim l) = Inr (Inr c)"
  from c have "l \<noteq> []" by (auto simp: parse_Nil_partial)
  with h have "length r < length cmd" using split_str_pipe by fastforce
  then show "((P, trim r), P, cmd) \<in> measure (\<lambda>(P, cmd). length cmd)"
    using length_trim [of r] by simp
qed

declare parse.simps [simp del]

section \<open>Trimming and splitting\<close>

lemma trim_Cons_solid:
  assumes "\<not> is_whitespace c"
  shows "\<exists>t. trim (c # r) = c # t"
proof -
  have "\<exists>u. dropWhile is_whitespace (rev r @ [c]) = u @ [c]"
    using assms by (induction r rule: rev_induct) auto
  then obtain u where "dropWhile is_whitespace (rev r @ [c]) = u @ [c]" by blast
  with assms have "trim (c # r) = c # rev u" by (simp add: trim_def)
  then show ?thesis by blast
qed

lemma trim_pads:
  "list_all is_whitespace a \<Longrightarrow> list_all is_whitespace b \<Longrightarrow> trim s = s \<Longrightarrow> trim (a @ s @ b) = s"
proof -
  assume ws: "list_all is_whitespace a" "list_all is_whitespace b" and s: "trim s = s"
  have drop: "list_all is_whitespace u \<Longrightarrow> dropWhile is_whitespace (u @ v) = dropWhile is_whitespace v" for u v
    by (induction u) auto
  have solid: "\<not> is_whitespace (hd s)" if "s \<noteq> []"
  proof (cases s)
    case (Cons c t)
    have "\<not> is_whitespace c"
    proof
      assume "is_whitespace c"
      then have "length (trim s) \<le> length t"
        using Cons length_dropWhile_le [of is_whitespace t]
          length_dropWhile_le [of is_whitespace "rev (dropWhile is_whitespace t)"]
        by (simp add: trim_def)
      with s Cons show False by simp
    qed
    then show ?thesis using Cons by simp
  qed (use that in simp)
  show ?thesis
  proof (cases "s = []")
    case True
    have e: "dropWhile is_whitespace b = []" using drop [OF ws(2), of "[]"] by simp
    show ?thesis unfolding True trim_def append_Nil drop [OF ws(1)] e by simp
  next
    case False
    have "dropWhile is_whitespace (s @ b) = s @ b" "dropWhile is_whitespace s = s"
      using solid [OF False] False by (cases s; simp)+
    moreover have "list_all is_whitespace (rev b)" using ws by simp
    ultimately show ?thesis using ws s by (simp add: trim_def drop)
  qed
qed

text \<open>Words joined by single spaces, as a user types them.\<close>

definition is_word :: "rstr \<Rightarrow> bool" where
  "is_word w \<longleftrightarrow> w \<noteq> [] \<and> (\<forall>c\<in>set w. \<not> is_whitespace c \<and> c \<noteq> 60 \<and> c \<noteq> 62 \<and> c \<noteq> 124)"

fun unwords :: "rstr list \<Rightarrow> rstr" where
  "unwords [] = []"
| "unwords [w] = w"
| "unwords (w # ws) = w @ 32 # unwords ws"

lemma is_whitespace_space [simp]: "is_whitespace 32"
  by (simp add: is_whitespace_def)

lemma word_no_space: "is_word w \<Longrightarrow> 32 \<notin> set w"
  unfolding is_word_def by (metis is_whitespace_space)

lemma split_on_unwords: "ws \<noteq> [] \<Longrightarrow> list_all is_word ws \<Longrightarrow> split_on 32 (unwords ws) = ws"
  by (induction ws rule: unwords.induct) (simp_all add: split_on_append split_on_single word_no_space)

lemma tokens_unwords: "ws \<noteq> [] \<Longrightarrow> list_all is_word ws \<Longrightarrow> tokens (unwords ws) = ws"
  by (simp add: tokens_def split_on_unwords) (metis (mono_tags) filter_True is_word_def list_all_iff)

lemma unwords_ends:
  "ws \<noteq> [] \<Longrightarrow> list_all is_word ws \<Longrightarrow>
     unwords ws \<noteq> [] \<and> \<not> is_whitespace (hd (unwords ws)) \<and> \<not> is_whitespace (last (unwords ws))"
  by (induction ws rule: unwords.induct) (auto simp: is_word_def)

lemma trim_unwords: "list_all is_word ws \<Longrightarrow> trim (unwords ws) = unwords ws"
  using unwords_ends [of ws] by (cases "ws = []") (auto intro: trim_id)

lemma set_unwords: "set (unwords ws) \<subseteq> insert 32 (\<Union> (set ` set ws))"
  by (induction ws rule: unwords.induct) auto

lemma unwords_chars:
  assumes "list_all is_word ws"
  shows "60 \<notin> set (unwords ws)" "62 \<notin> set (unwords ws)" "124 \<notin> set (unwords ws)"
proof -
  have *: "c \<notin> set (unwords ws)" if "c \<noteq> 32" "\<forall>w. is_word w \<longrightarrow> c \<notin> set w" for c
    using set_unwords [of ws] assms that by (fastforce simp: list_all_iff)
  have "\<forall>w. is_word w \<longrightarrow> 60 \<notin> set w" "\<forall>w. is_word w \<longrightarrow> 62 \<notin> set w"
    "\<forall>w. is_word w \<longrightarrow> 124 \<notin> set w" unfolding is_word_def by blast+
  then show "60 \<notin> set (unwords ws)" "62 \<notin> set (unwords ws)" "124 \<notin> set (unwords ws)"
    by (simp_all add: *)
qed

lemma tokens_words: "w \<in> set (tokens s) \<Longrightarrow> w \<noteq> [] \<and> 32 \<notin> set w \<and> set w \<subseteq> set s"
  using split_on_pieces [of w 32 s] by (auto simp: tokens_def)

section \<open>What the parser does\<close>

lemma len_ascii [simp]: "len_utf8 60 = 1" "len_utf8 62 = 1" "len_utf8 124 = 1"
  by (simp_all add: len_utf8_def utf8_encode_ascii)

lemma redirections_none: "60 \<notin> set cmd \<Longrightarrow> 62 \<notin> set cmd \<Longrightarrow> redirections P cmd = Inr (trim cmd, None, None)"
  by (simp add: redirections_def find_char_eq)

lemma redirections_in:
  assumes "60 \<notin> set e" "62 \<notin> set e" "62 \<notin> set i"
  shows "redirections P (e @ 60 # i) = Inr (trim e, Some (trim i), None)"
  using assms by (simp add: redirections_def find_char_eq)

lemma redirections_out:
  assumes "60 \<notin> set e" "62 \<notin> set e" "60 \<notin> set out"
  shows "redirections P (e @ 62 # out) = Inr (trim e, None, Some (trim out))"
  using assms by (simp add: redirections_def find_char_eq)

lemma redirections_in_out:
  assumes "60 \<notin> set e" "62 \<notin> set e" "62 \<notin> set i"
  shows "redirections P (e @ 60 # i @ 62 # out) =
    (case out of
       c # out' \<Rightarrow> if c = 62 then Inr (trim e, Some (trim (i @ [62])), Some (trim out'))
                  else Inl (shell_panic 158 [str ''called `Option::unwrap()` on a `None` value''])
     | [] \<Rightarrow> Inl (shell_panic 158 [str ''called `Option::unwrap()` on a `None` value'']))"
proof -
  have pos: "find_char 60 (e @ 60 # i @ 62 # out) = Some (str_len e)"
    "find_char 62 (e @ 60 # i @ 62 # out) = Some (str_len e + 1 + str_len i)"
    using assms find_char_append [of 62 "e @ 60 # i" out] by simp_all
  have "split_str P 157 (i @ 62 # out) (Suc (str_len i)) = Inr (i @ [62], out)"
    using split_str_append [of P 157 "i @ [62]" out] by simp
  with pos show ?thesis by (auto simp: redirections_def split: list.splits)
qed

lemma redirections_out_in:
  assumes "60 \<notin> set e" "62 \<notin> set e" "60 \<notin> set out"
  shows "redirections P (e @ 62 # out @ 60 # i) =
    (case i of
       c # i' \<Rightarrow> if c = 60 then Inr (trim e, Some (trim i'), Some (trim (out @ [60])))
                else Inl (shell_panic 164 [str ''called `Option::unwrap()` on a `None` value''])
     | [] \<Rightarrow> Inl (shell_panic 164 [str ''called `Option::unwrap()` on a `None` value'']))"
proof -
  have pos: "find_char 62 (e @ 62 # out @ 60 # i) = Some (str_len e)"
    "find_char 60 (e @ 62 # out @ 60 # i) = Some (str_len e + 1 + str_len out)"
    using assms find_char_append [of 60 "e @ 62 # out" i] by simp_all
  have "split_str P 163 (out @ 60 # i) (Suc (str_len out)) = Inr (out @ [60], i)"
    using split_str_append [of P 163 "out @ [60]" i] by simp
  with pos show ?thesis by (auto simp: redirections_def split: list.splits)
qed

text \<open>Every command line without a pipe has one of five shapes.\<close>

lemma redirections_cases:
  obtains (plain) "60 \<notin> set cmd" "62 \<notin> set cmd"
  | (inp) e i where "cmd = e @ 60 # i" "60 \<notin> set e" "62 \<notin> set e" "62 \<notin> set i"
  | (outp) e out where "cmd = e @ 62 # out" "60 \<notin> set e" "62 \<notin> set e" "60 \<notin> set out"
  | (inp_outp) e i out where "cmd = e @ 60 # i @ 62 # out" "60 \<notin> set e" "62 \<notin> set e" "62 \<notin> set i"
  | (outp_inp) e out i where "cmd = e @ 62 # out @ 60 # i" "60 \<notin> set e" "62 \<notin> set e" "60 \<notin> set out"
proof (cases "\<exists>x\<in>set cmd. x = 60 \<or> x = 62")
  case False
  then show thesis using plain by blast
next
  case True
  from split_list_first_prop [OF True] obtain e x r where
    s: "cmd = e @ x # r" "x = 60 \<or> x = 62" "\<forall>y\<in>set e. \<not> (y = 60 \<or> y = 62)" by blast
  then have e: "60 \<notin> set e" "62 \<notin> set e" by blast+
  consider "x = 60" "62 \<in> set r" | "x = 60" "62 \<notin> set r" | "x = 62" "60 \<in> set r" | "x = 62" "60 \<notin> set r"
    using s(2) by blast
  then show thesis
  proof cases
    case 1
    from split_list_first [OF 1(2)] s(1) e 1(1) show thesis using inp_outp by blast
  next
    case 2
    with s(1) e show thesis using inp by blast
  next
    case 3
    from split_list_first [OF 3(2)] s(1) e 3(1) show thesis using outp_inp by blast
  next
    case 4
    with s(1) e show thesis using outp by blast
  qed
qed

lemma redirections_panic:
  assumes "redirections P cmd = Inl i"
  shows "60 \<in> set cmd \<and> 62 \<in> set cmd \<and> (pi_line i = 158 \<or> pi_line i = 164)"
  by (cases rule: redirections_cases [of cmd])
    (use assms in \<open>auto simp: redirections_none redirections_in redirections_out redirections_in_out
       redirections_out_in shell_panic_def split: list.splits if_splits\<close>)

lemma redirections_exec:
  assumes "redirections P cmd = Inr (e, i, out)"
  shows "set e \<subseteq> set cmd - {60, 62}"
  by (cases rule: redirections_cases [of cmd])
    (use assms in \<open>auto simp: redirections_none redirections_in redirections_out redirections_in_out
       redirections_out_in split: list.splits if_splits dest!: set_mp [OF set_trim]\<close>)

lemma parse_no_pipe: "124 \<notin> set cmd \<Longrightarrow> parse P cmd = checked_then (redirections P cmd) build_command"
  by (simp add: parse.simps find_char_eq)

lemma parse_Nil [simp]: "parse P [] = Inr (Inl ParseErr)"
  by (simp add: parse_no_pipe build_command_def)

lemma parse_leading_pipe: "parse P (124 # r) = Inr (Inl ParseErr)"
  using split_str_append [of P 136 "[]" "124 # r"] by (simp add: parse.simps [of P "124 # r"])

lemma is_whitespace_pipe [simp]: "\<not> is_whitespace 124"
  by (simp add: is_whitespace_def)

lemma parse_with_pipe:
  assumes "124 \<notin> set l"
  shows "parse P (l @ 124 # r)
    = (case parse P (trim l) of Inl i \<Rightarrow> Inl i | Inr _ \<Rightarrow> Inr (Inl ParseErr))"
proof -
  from trim_Cons_solid [of 124 r] obtain t where t: "trim (124 # r) = 124 # t" by auto
  show ?thesis
    using assms by (subst parse.simps)
      (auto simp: t parse_leading_pipe checked_try_def checked_then_def split: sum.splits)
qed

lemma pipe_split:
  assumes "124 \<in> set cmd"
  obtains l r where "cmd = l @ 124 # r" "124 \<notin> set l"
  using split_list_first [OF assms] by blast

lemma parse_Ok_no_pipe: "parse P cmd = Inr (Inr c) \<Longrightarrow> 124 \<notin> set cmd"
  by (rule ccontr) (auto elim!: pipe_split simp: parse_with_pipe split: sum.splits)

lemma no_pipe_trim: "124 \<notin> set l \<Longrightarrow> 124 \<notin> set (trim l)"
  using set_trim [of l] by blast

lemma parse_panic:
  assumes "parse P cmd = Inl i"
  shows "60 \<in> set cmd \<and> 62 \<in> set cmd \<and> (pi_line i = 158 \<or> pi_line i = 164)"
proof -
  have base: "60 \<in> set s \<and> 62 \<in> set s \<and> (pi_line i = 158 \<or> pi_line i = 164)"
    if "124 \<notin> set s" "parse P s = Inl i" for s
    using that redirections_panic [of P s i]
    by (auto simp: parse_no_pipe checked_then_def build_command_def split: sum.splits list.splits)
  show ?thesis
  proof (cases "124 \<in> set cmd")
    case False
    with base assms show ?thesis by blast
  next
    case True
    then obtain l r where cmd: "cmd = l @ 124 # r" "124 \<notin> set l" by (rule pipe_split)
    with assms have "parse P (trim l) = Inl i" by (auto simp: parse_with_pipe split: sum.splits)
    from base [OF no_pipe_trim [OF cmd(2)] this] set_trim [of l] cmd(1) show ?thesis by auto
  qed
qed

text \<open>The commands the parser produces.\<close>

definition wf_command :: "command \<Rightarrow> bool" where
  "wf_command c \<longleftrightarrow>
     (\<forall>w\<in>set (exec_path c # cmd_args c). w \<noteq> [] \<and> set w \<inter> {32, 60, 62, 124} = {}) \<and>
     (\<forall>d. cmd_input c \<noteq> Cmd d) \<and> (\<forall>d. cmd_output c \<noteq> Cmd d)"

lemma parse_Ok_wf:
  assumes "parse P cmd = Inr (Inr c)"
  shows "wf_command c"
proof -
  have np: "124 \<notin> set cmd" by (rule parse_Ok_no_pipe [OF assms])
  with assms obtain e i out where red: "redirections P cmd = Inr (e, i, out)"
    and b: "build_command (e, i, out) = Inr (Inr c)"
    by (auto simp: parse_no_pipe checked_then_def split: sum.splits)
  from b obtain path rest where t: "tokens e = path # rest"
    and c: "c = Command path rest (io_of i) (io_of out)"
    by (auto simp: build_command_def split: list.splits)
  have "w \<noteq> [] \<and> set w \<inter> {32, 60, 62, 124} = {}" if "w \<in> set (path # rest)" for w
    using that tokens_words [of w e] redirections_exec [OF red] np unfolding t by auto
  then show ?thesis by (auto simp: wf_command_def c io_of_def split: option.splits)
qed

text \<open>Writing a command down and reading it back.\<close>

definition is_path :: "rstr \<Rightarrow> bool" where
  "is_path p \<longleftrightarrow> trim p = p \<and> set p \<inter> {60, 62, 124} = {}"

fun show_command :: "command \<Rightarrow> rstr" where
  "show_command (Command path rest inp out) = unwords (path # rest)
     @ (case inp of File f \<Rightarrow> [32, 60, 32] @ f | _ \<Rightarrow> []) @ (case out of File f \<Rightarrow> [32, 62, 32] @ f | _ \<Rightarrow> [])"

fun plain_io :: "command io_type \<Rightarrow> bool" where
  "plain_io Default \<longleftrightarrow> True"
| "plain_io (File p) \<longleftrightarrow> is_path p"
| "plain_io (Cmd c) \<longleftrightarrow> False"

definition showable :: "command \<Rightarrow> bool" where
  "showable c \<longleftrightarrow> list_all is_word (exec_path c # cmd_args c) \<and>
     plain_io (cmd_input c) \<and> plain_io (cmd_output c) \<and> (cmd_input c = Default \<or> cmd_output c = Default)"

lemma parse_show_command:
  assumes "showable c"
  shows "parse P (show_command c) = Inr (Inr c)"
proof -
  obtain path rest inp out where c: "c = Command path rest inp out" by (cases c)
  let ?ws = "path # rest"
  from assms c have ws: "list_all is_word ?ws" by (simp add: showable_def)
  note u = unwords_chars [OF ws] tokens_unwords [OF list.distinct(2) ws]
  have t: "trim (unwords ?ws @ [32]) = unwords ?ws"
    using trim_pads [of "[]" "[32]"] trim_unwords [OF ws] by simp
  have pad: "trim (32 # f) = f" if "is_path f" for f
    using trim_pads [of "[32]" "[]" f] that by (simp add: is_path_def)
  consider "inp = Default" "out = Default" | f where "inp = File f" "out = Default" "is_path f"
    | f where "inp = Default" "out = File f" "is_path f"
    using assms c by (cases inp; cases out) (auto simp: showable_def)
  then show ?thesis
  proof cases
    case 1
    then show ?thesis
      using u trim_unwords [OF ws]
      by (simp add: c parse_no_pipe redirections_none build_command_def io_of_def del: unwords.simps)
  next
    case 2
    then have "redirections P ((unwords ?ws @ [32]) @ 60 # 32 # f) = Inr (unwords ?ws, Some f, None)"
      using u pad [OF 2(3)] t by (subst redirections_in) (auto simp: is_path_def simp del: unwords.simps)
    with 2 show ?thesis
      using u by (simp add: c parse_no_pipe is_path_def build_command_def io_of_def del: unwords.simps)
  next
    case 3
    then have "redirections P ((unwords ?ws @ [32]) @ 62 # 32 # f) = Inr (unwords ?ws, None, Some f)"
      using u pad [OF 3(3)] t by (subst redirections_out) (auto simp: is_path_def simp del: unwords.simps)
    with 3 show ?thesis
      using u by (simp add: c parse_no_pipe is_path_def build_command_def io_of_def del: unwords.simps)
  qed
qed

end
