(* ===== verification/Types.thy ===== *)
theory Types
  imports Machine
begin

text \<open>
  \<^verbatim>\<open>usrlib_rust/src/utils/types.rs\<close>: file descriptors, directory entries, open modes and
  permissions. The flag types come from the crate \<open>bitflags\<close>: a flag value is its \<open>bits\<close>, and the
  operator \<open>|\<close> on it is the \<open>usize_or\<close> or \<open>u16_or\<close> of the platform.
\<close>

section \<open>File descriptors and directory entries\<close>

datatype file_descriptor = FileDecstiptor (fd_num: u64)

definition fd_from :: "u64 \<Rightarrow> file_descriptor" where
  "fd_from inner = FileDecstiptor inner"

record dirent =
  de_inode :: u32
  de_type :: u16
  de_name :: "u8 list"

section \<open>Open modes\<close>

type_synonym open_mode = u64

definition om_READ :: open_mode where "om_READ = push_bit 0 1"
definition om_WRITE :: open_mode where "om_WRITE = push_bit 1 1"
definition om_CREATE :: open_mode where "om_CREATE = push_bit 2 1"
definition om_EXEC :: open_mode where "om_EXEC = push_bit 3 1"
definition om_SYS :: open_mode where "om_SYS = push_bit 4 1"
definition om_NO_FOLLOW :: open_mode where "om_NO_FOLLOW = push_bit 5 1"

lemmas open_mode_defs = om_READ_def om_WRITE_def om_CREATE_def om_EXEC_def om_SYS_def
  om_NO_FOLLOW_def

section \<open>Permissions\<close>

type_synonym permission = u16

definition perm_OWNER_R :: permission where "perm_OWNER_R = 0x100"
definition perm_OWNER_W :: permission where "perm_OWNER_W = 0x80"
definition perm_OWNER_X :: permission where "perm_OWNER_X = 0x40"
definition perm_GROUP_R :: permission where "perm_GROUP_R = 0x20"
definition perm_GROUP_W :: permission where "perm_GROUP_W = 0x10"
definition perm_GROUP_X :: permission where "perm_GROUP_X = 0x8"
definition perm_OTHER_R :: permission where "perm_OTHER_R = 0x4"
definition perm_OTHER_W :: permission where "perm_OTHER_W = 0x2"
definition perm_OTHER_X :: permission where "perm_OTHER_X = 0x1"

lemmas permission_defs = perm_OWNER_R_def perm_OWNER_W_def perm_OWNER_X_def perm_GROUP_R_def
  perm_GROUP_W_def perm_GROUP_X_def perm_OTHER_R_def perm_OTHER_W_def perm_OTHER_X_def

definition permission_default :: "'k platform \<Rightarrow> permission" where
  "permission_default P =
     u16_or P (u16_or P (u16_or P perm_OWNER_R perm_OWNER_W) perm_GROUP_R) perm_OTHER_R"

definition permission_ro :: "'k platform \<Rightarrow> permission" where
  "permission_ro P = u16_or P (u16_or P perm_OWNER_R perm_GROUP_R) perm_OTHER_R"

text \<open>The documented meaning of \<open>|\<close> on the flags of \<open>bitflags\<close>: the union of the bits.\<close>

definition flags_union :: "'k platform \<Rightarrow> bool" where
  "flags_union P \<longleftrightarrow> usize_or P = (OR) \<and> u16_or P = (OR)"

end
