(* ===== verification/Allocator.thy ===== *)
theory Allocator
  imports Types
begin

text \<open>
  \<^verbatim>\<open>usrlib_rust/src/allocator.rs\<close>: the heap of a program is one static array that \<open>init_heap\<close> hands
  to the buddy allocator of the crate \<open>buddy_system_allocator\<close> (the platform's \<open>heap_place\<close>); a
  failed allocation ends in \<open>on_alloc_error\<close>.
\<close>

definition HEAP_SIZE :: nat where
  "HEAP_SIZE = 4096 * 8"

definition init_heap :: "'k platform \<Rightarrow> ('k, unit) rust" where
  "init_heap P w = Some (Value (), w\<lparr>heap := Some (heap_space P, HEAP_SIZE)\<rparr>)"

definition on_alloc_error :: "'k platform \<Rightarrow> nat \<Rightarrow> nat \<Rightarrow> ('k, 'a) rust" where
  "on_alloc_error P sz align =
     panic_at ''usrlib_rust/src/allocator.rs'' 25
       (str ''Heap allocation error on allocating layout '' # layout_debug P sz align
          @ [str ''. OOM?''])"

text \<open>
  Byte vectors and vectors of pointers, for as long as the code keeps them. A vector without elements
  takes no block, its pointer is the alignment; any other takes a block of the size of its contents
  (the spare capacity a growing \<open>Vec\<close> reserves, and the smaller block it leaves, are not modelled).
\<close>

definition with_vec :: "'k platform \<Rightarrow> u8 list \<Rightarrow> (addr \<Rightarrow> ('k, 'a) rust) \<Rightarrow> ('k, 'a) rust" where
  "with_vec P bs f = (if bs = [] then f 1 else with_block on_alloc_error P 1 bs f)"

fun with_vecs ::
    "'k platform \<Rightarrow> u8 list list \<Rightarrow> (addr list \<Rightarrow> ('k, 'a) rust) \<Rightarrow> ('k, 'a) rust" where
  "with_vecs P [] f = f []"
| "with_vecs P (bs # bss) f = with_vec P bs (\<lambda>p. with_vecs P bss (\<lambda>ps. f (p # ps)))"

definition with_ptr_vec :: "'k platform \<Rightarrow> addr list \<Rightarrow> (addr \<Rightarrow> ('k, 'a) rust) \<Rightarrow> ('k, 'a) rust" where
  "with_ptr_vec P ps f =
     (if ps = [] then f 8
      else with_block on_alloc_error P 8 (concat (map (\<lambda>p. to_le 8 (unat p)) ps)) f)"

lemma held_on_alloc_error: "keeps same_live (on_alloc_error P n a)"
  unfolding on_alloc_error_def by (rule held.keeps_panic_at)

lemma with_block_Value:
  assumes "with_block on_alloc_error P a bs f w = Some (Value x, w')"
  obtains p u where "heap_place P (heap w) (live w) (length bs) = Some p"
    and "f p (w\<lparr>mem := store_bytes (mem w) p bs, live := (p, length bs) # live w\<rparr>) = Some (Value x, u)"
    and "w' = u\<lparr>live := remove1 (p, length bs) (live u)\<rparr>"
  using assms
  by (auto simp: with_block_def on_alloc_error_def panic_at_def andthen_Some_iff ret_def
      split: option.splits)

lemma held_with_block:
  assumes "\<And>p. keeps same_live (f p)"
  shows "keeps same_live (with_block on_alloc_error P a bs f)"
proof (rule keepsI)
  fix w x w'
  assume "with_block on_alloc_error P a bs f w = Some (Value x, w')"
  then show "live w' = live w"
    by (rule with_block_Value) (use assms in \<open>auto simp: keeps_def\<close>)
qed

lemma held_with_vec: "(\<And>p. keeps same_live (f p)) \<Longrightarrow> keeps same_live (with_vec P bs f)"
  by (simp add: with_vec_def held_with_block)

lemma held_with_ptr_vec: "(\<And>p. keeps same_live (f p)) \<Longrightarrow> keeps same_live (with_ptr_vec P ps f)"
  by (simp add: with_ptr_vec_def held_with_block)

lemma held_with_vecs: "(\<And>ps. keeps same_live (f ps)) \<Longrightarrow> keeps same_live (with_vecs P bss f)"
  by (induction bss arbitrary: f) (auto intro: held_with_vec)

lemma held_with_data: "(\<And>p. keeps same_live (f p)) \<Longrightarrow> keeps same_live (with_data P bs f)"
  by (fastforce simp: keeps_def with_data_def Let_def)

lemma held_read_buffer: "keeps same_live (read_buffer p n)"
  by (simp add: keeps_def read_buffer_def)

lemmas held_intros = held.keeps_intros held_on_alloc_error held_with_vec held_with_ptr_vec
  held_with_vecs held_with_data held_read_buffer

lemma calls_with_block:
  assumes "\<And>p. always more_calls (f p)"
  shows "always more_calls (with_block on_alloc_error P a bs f)"
proof (rule alwaysI)
  fix w oc w'
  assume run: "with_block on_alloc_error P a bs f w = Some (oc, w')"
  show "more_calls w w'"
  proof (cases "heap_place P (heap w) (live w) (length bs)")
    case None
    with run show ?thesis
      by (simp add: with_block_def on_alloc_error_def panic_at_def calls.refl)
  next
    case (Some p)
    with run obtain oc' u where
      "f p (w\<lparr>mem := store_bytes (mem w) p bs, live := (p, length bs) # live w\<rparr>) = Some (oc', u)"
      and "trace w' = trace u"
      by (auto simp: with_block_def andthen_Some_iff ret_def)
    with assms show ?thesis by (fastforce simp: always_def more_calls_def)
  qed
qed

lemma calls_with_vec: "(\<And>p. always more_calls (f p)) \<Longrightarrow> always more_calls (with_vec P bs f)"
  by (simp add: with_vec_def calls_with_block)

lemma calls_with_ptr_vec:
  "(\<And>p. always more_calls (f p)) \<Longrightarrow> always more_calls (with_ptr_vec P ps f)"
  by (simp add: with_ptr_vec_def calls_with_block)

lemma calls_with_vecs:
  "(\<And>ps. always more_calls (f ps)) \<Longrightarrow> always more_calls (with_vecs P bss f)"
  by (induction bss arbitrary: f) (auto intro: calls_with_vec)

lemma calls_with_data: "(\<And>p. always more_calls (f p)) \<Longrightarrow> always more_calls (with_data P bs f)"
  by (fastforce simp: always_def with_data_def Let_def more_calls_def)

lemma calls_read_buffer: "always more_calls (read_buffer p n)"
  by (auto simp: always_def read_buffer_def calls.refl)

lemma calls_on_alloc_error: "always more_calls (on_alloc_error P n a)"
  unfolding on_alloc_error_def by (rule calls.always_panic_at)

lemmas calls_intros = calls.always_intros calls_on_alloc_error calls_with_vec calls_with_ptr_vec
  calls_with_vecs calls_with_data calls_read_buffer

end
