(* ===== verification/Syscall_Num.thy ===== *)
theory Syscall_Num
  imports Prelude
begin

text \<open>
  \<^verbatim>\<open>usrlib_rust/src/utils/syscall_num.rs\<close>: the system call numbers, one constant per line of the
  file, and the table of them all.
\<close>

definition SYSCALL_WRITE :: u64 where "SYSCALL_WRITE = 0"
definition SYSCALL_READ :: u64 where "SYSCALL_READ = 1"
definition SYSCALL_OPEN :: u64 where "SYSCALL_OPEN = 2"
definition SYSCALL_OPENAT :: u64 where "SYSCALL_OPENAT = 3"
definition SYSCALL_CLOSE :: u64 where "SYSCALL_CLOSE = 4"
definition SYSCALL_DUP :: u64 where "SYSCALL_DUP = 5"
definition SYSCALL_FORK :: u64 where "SYSCALL_FORK = 6"
definition SYSCALL_EXEC :: u64 where "SYSCALL_EXEC = 7"
definition SYSCALL_EXIT :: u64 where "SYSCALL_EXIT = 8"
definition SYSCALL_MMAP :: u64 where "SYSCALL_MMAP = 9"
definition SYSCALL_SIGNAL :: u64 where "SYSCALL_SIGNAL = 10"
definition SYSCALL_WAITPID :: u64 where "SYSCALL_WAITPID = 11"
definition SYSCALL_SIGACTION :: u64 where "SYSCALL_SIGACTION = 12"
definition SYSCALL_SIGRETURN :: u64 where "SYSCALL_SIGRETURN = 13"
definition SYSCALL_GETCWD :: u64 where "SYSCALL_GETCWD = 14"
definition SYSCALL_CHDIR :: u64 where "SYSCALL_CHDIR = 15"
definition SYSCALL_SBRK :: u64 where "SYSCALL_SBRK = 16"
definition SYSCALL_GETDENTS :: u64 where "SYSCALL_GETDENTS = 17"
definition SYSCALL_PIPE :: u64 where "SYSCALL_PIPE = 18"
definition SYSCALL_SYSSTAT :: u64 where "SYSCALL_SYSSTAT = 19"
definition SYSCALL_MUNMAP :: u64 where "SYSCALL_MUNMAP = 20"
definition SYSCALL_MKDIR :: u64 where "SYSCALL_MKDIR = 21"
definition SYSCALL_IOCTL :: u64 where "SYSCALL_IOCTL = 22"
definition SYSCALL_DELETE :: u64 where "SYSCALL_DELETE = 23"
definition SYSCALL_SEEK :: u64 where "SYSCALL_SEEK = 24"
definition SYSCALL_TIME :: u64 where "SYSCALL_TIME = 25"

lemmas syscall_num_defs =
  SYSCALL_WRITE_def SYSCALL_READ_def SYSCALL_OPEN_def SYSCALL_OPENAT_def SYSCALL_CLOSE_def
  SYSCALL_DUP_def SYSCALL_FORK_def SYSCALL_EXEC_def SYSCALL_EXIT_def SYSCALL_MMAP_def
  SYSCALL_SIGNAL_def SYSCALL_WAITPID_def SYSCALL_SIGACTION_def SYSCALL_SIGRETURN_def
  SYSCALL_GETCWD_def SYSCALL_CHDIR_def SYSCALL_SBRK_def SYSCALL_GETDENTS_def SYSCALL_PIPE_def
  SYSCALL_SYSSTAT_def SYSCALL_MUNMAP_def SYSCALL_MKDIR_def SYSCALL_IOCTL_def SYSCALL_DELETE_def
  SYSCALL_SEEK_def SYSCALL_TIME_def

text \<open>The constants in the order of the file.\<close>

definition syscall_numbers :: "u64 list" where
  "syscall_numbers =
    [SYSCALL_WRITE, SYSCALL_READ, SYSCALL_OPEN, SYSCALL_OPENAT, SYSCALL_CLOSE, SYSCALL_DUP,
     SYSCALL_FORK, SYSCALL_EXEC, SYSCALL_EXIT, SYSCALL_MMAP, SYSCALL_SIGNAL, SYSCALL_WAITPID,
     SYSCALL_SIGACTION, SYSCALL_SIGRETURN, SYSCALL_GETCWD, SYSCALL_CHDIR, SYSCALL_SBRK,
     SYSCALL_GETDENTS, SYSCALL_PIPE, SYSCALL_SYSSTAT, SYSCALL_MUNMAP, SYSCALL_MKDIR,
     SYSCALL_IOCTL, SYSCALL_DELETE, SYSCALL_SEEK, SYSCALL_TIME]"

text \<open>The numbers are the positions: the table has no gap and no two calls share a number.\<close>

lemma syscall_numbers_eq: "syscall_numbers = map of_nat [0..<26]"
  by (simp add: syscall_numbers_def syscall_num_defs upt_rec)

end
