(* ===== verification/Error_Num.thy ===== *)
theory Error_Num
  imports Prelude
begin

text \<open>
  \<^verbatim>\<open>usrlib_rust/src/utils/error_num.rs\<close>: the error numbers of the system call interface, their
  numeric values (\<open>#[repr(usize)]\<close>), the conversion from a number that the macro
  \<open>enum_with_tryfrom_usize\<close> generates, and the names the derived \<open>Debug\<close> prints.
\<close>

section \<open>The enumeration\<close>

datatype (plugins only: size) errornum =
    NOERR | EPERM | ENOENT | ESRCH | EINTR | EIO | ENXIO | E2BIG | ENOEXEC | EBADF | ECHILD |
    EAGAIN | ENOMEM | EACCES | EFAULT | ENOTBLK | EBUSY | EEXIST | EXDEV | ENODEV | ENOTDIR |
    EISDIR | EINVAL | ENFILE | EMFILE | ENOTTY | ETXTBSY | EFBIG | ENOSPC | ESPIPE | EROFS |
    EMLINK | EPIPE | EDOM | ERANGE | EDEADLK | ENAMETOOLONG | ENOLCK | ENOSYS | ENOTEMPTY |
    ELOOP | ENOMSG | EIDRM | ECHRNG | EL2NSYNC | EL3HLT | EL3RST | ELNRNG | EUNATCH | ENOCSI |
    EL2HLT | EBADE | EBADR | EXFULL | ENOANO | EBADRQC | EBADSLT | EBFONT | ENOSTR | ENODATA |
    ETIME | ENOSR | ENONET | ENOPKG | EREMOTE | ENOLINK | EADV | ESRMNT | ECOMM | EPROTO |
    EMULTIHOP | EDOTDOT | EBADMSG | EOVERFLOW | ENOTUNIQ | EBADFD | EREMCHG | ELIBACC |
    ELIBBAD | ELIBSCN | ELIBMAX | ELIBEXEC | EILSEQ | ERESTART | ESTRPIPE | EUSERS | ENOTSOCK |
    EDESTADDRREQ | EMSGSIZE | EPROTOTYPE | ENOPROTOOPT | EPROTONOSUPPORT | ESOCKTNOSUPPORT |
    EOPNOTSUPP | EPFNOSUPPORT | EAFNOSUPPORT | EADDRINUSE | EADDRNOTAVAIL | ENETDOWN |
    ENETUNREACH | ENETRESET | ECONNABORTED | ECONNRESET | ENOBUFS | EISCONN | ENOTCONN |
    ESHUTDOWN | ETOOMANYREFS | ETIMEDOUT | ECONNREFUSED | EHOSTDOWN | EHOSTUNREACH | EALREADY |
    EINPROGRESS | ESTALE | EUCLEAN | ENOTNAM | ENAVAIL | EISNAM | EREMOTEIO | EDQUOT |
    ENOMEDIUM | EMEDIUMTYPE | ECANCELED | ENOKEY | EKEYEXPIRED | EKEYREVOKED | EKEYREJECTED |
    EOWNERDEAD | ENOTRECOVERABLE | EWRONGSEG | EEMPTY | EOOR | ENOTALIGNED | EBADTYPE |
    ENOTMAPPED | ENOSEG | EMMAPED | ENOSIG | ESIGDISABLED | EBADCODEX | EEOF

text \<open>\<open>self as usize\<close>.\<close>

primrec errornum_code :: "errornum \<Rightarrow> u64" where
  "errornum_code NOERR = 0"
| "errornum_code EPERM = 1"
| "errornum_code ENOENT = 2"
| "errornum_code ESRCH = 3"
| "errornum_code EINTR = 4"
| "errornum_code EIO = 5"
| "errornum_code ENXIO = 6"
| "errornum_code E2BIG = 7"
| "errornum_code ENOEXEC = 8"
| "errornum_code EBADF = 9"
| "errornum_code ECHILD = 10"
| "errornum_code EAGAIN = 11"
| "errornum_code ENOMEM = 12"
| "errornum_code EACCES = 13"
| "errornum_code EFAULT = 14"
| "errornum_code ENOTBLK = 15"
| "errornum_code EBUSY = 16"
| "errornum_code EEXIST = 17"
| "errornum_code EXDEV = 18"
| "errornum_code ENODEV = 19"
| "errornum_code ENOTDIR = 20"
| "errornum_code EISDIR = 21"
| "errornum_code EINVAL = 22"
| "errornum_code ENFILE = 23"
| "errornum_code EMFILE = 24"
| "errornum_code ENOTTY = 25"
| "errornum_code ETXTBSY = 26"
| "errornum_code EFBIG = 27"
| "errornum_code ENOSPC = 28"
| "errornum_code ESPIPE = 29"
| "errornum_code EROFS = 30"
| "errornum_code EMLINK = 31"
| "errornum_code EPIPE = 32"
| "errornum_code EDOM = 33"
| "errornum_code ERANGE = 34"
| "errornum_code EDEADLK = 35"
| "errornum_code ENAMETOOLONG = 36"
| "errornum_code ENOLCK = 37"
| "errornum_code ENOSYS = 38"
| "errornum_code ENOTEMPTY = 39"
| "errornum_code ELOOP = 40"
| "errornum_code ENOMSG = 42"
| "errornum_code EIDRM = 43"
| "errornum_code ECHRNG = 44"
| "errornum_code EL2NSYNC = 45"
| "errornum_code EL3HLT = 46"
| "errornum_code EL3RST = 47"
| "errornum_code ELNRNG = 48"
| "errornum_code EUNATCH = 49"
| "errornum_code ENOCSI = 50"
| "errornum_code EL2HLT = 51"
| "errornum_code EBADE = 52"
| "errornum_code EBADR = 53"
| "errornum_code EXFULL = 54"
| "errornum_code ENOANO = 55"
| "errornum_code EBADRQC = 56"
| "errornum_code EBADSLT = 57"
| "errornum_code EBFONT = 59"
| "errornum_code ENOSTR = 60"
| "errornum_code ENODATA = 61"
| "errornum_code ETIME = 62"
| "errornum_code ENOSR = 63"
| "errornum_code ENONET = 64"
| "errornum_code ENOPKG = 65"
| "errornum_code EREMOTE = 66"
| "errornum_code ENOLINK = 67"
| "errornum_code EADV = 68"
| "errornum_code ESRMNT = 69"
| "errornum_code ECOMM = 70"
| "errornum_code EPROTO = 71"
| "errornum_code EMULTIHOP = 72"
| "errornum_code EDOTDOT = 73"
| "errornum_code EBADMSG = 74"
| "errornum_code EOVERFLOW = 75"
| "errornum_code ENOTUNIQ = 76"
| "errornum_code EBADFD = 77"
| "errornum_code EREMCHG = 78"
| "errornum_code ELIBACC = 79"
| "errornum_code ELIBBAD = 80"
| "errornum_code ELIBSCN = 81"
| "errornum_code ELIBMAX = 82"
| "errornum_code ELIBEXEC = 83"
| "errornum_code EILSEQ = 84"
| "errornum_code ERESTART = 85"
| "errornum_code ESTRPIPE = 86"
| "errornum_code EUSERS = 87"
| "errornum_code ENOTSOCK = 88"
| "errornum_code EDESTADDRREQ = 89"
| "errornum_code EMSGSIZE = 90"
| "errornum_code EPROTOTYPE = 91"
| "errornum_code ENOPROTOOPT = 92"
| "errornum_code EPROTONOSUPPORT = 93"
| "errornum_code ESOCKTNOSUPPORT = 94"
| "errornum_code EOPNOTSUPP = 95"
| "errornum_code EPFNOSUPPORT = 96"
| "errornum_code EAFNOSUPPORT = 97"
| "errornum_code EADDRINUSE = 98"
| "errornum_code EADDRNOTAVAIL = 99"
| "errornum_code ENETDOWN = 100"
| "errornum_code ENETUNREACH = 101"
| "errornum_code ENETRESET = 102"
| "errornum_code ECONNABORTED = 103"
| "errornum_code ECONNRESET = 104"
| "errornum_code ENOBUFS = 105"
| "errornum_code EISCONN = 106"
| "errornum_code ENOTCONN = 107"
| "errornum_code ESHUTDOWN = 108"
| "errornum_code ETOOMANYREFS = 109"
| "errornum_code ETIMEDOUT = 110"
| "errornum_code ECONNREFUSED = 111"
| "errornum_code EHOSTDOWN = 112"
| "errornum_code EHOSTUNREACH = 113"
| "errornum_code EALREADY = 114"
| "errornum_code EINPROGRESS = 115"
| "errornum_code ESTALE = 116"
| "errornum_code EUCLEAN = 117"
| "errornum_code ENOTNAM = 118"
| "errornum_code ENAVAIL = 119"
| "errornum_code EISNAM = 120"
| "errornum_code EREMOTEIO = 121"
| "errornum_code EDQUOT = 122"
| "errornum_code ENOMEDIUM = 123"
| "errornum_code EMEDIUMTYPE = 124"
| "errornum_code ECANCELED = 125"
| "errornum_code ENOKEY = 126"
| "errornum_code EKEYEXPIRED = 127"
| "errornum_code EKEYREVOKED = 128"
| "errornum_code EKEYREJECTED = 129"
| "errornum_code EOWNERDEAD = 130"
| "errornum_code ENOTRECOVERABLE = 131"
| "errornum_code EWRONGSEG = 1000"
| "errornum_code EEMPTY = 1001"
| "errornum_code EOOR = 1002"
| "errornum_code ENOTALIGNED = 1003"
| "errornum_code EBADTYPE = 1004"
| "errornum_code ENOTMAPPED = 1005"
| "errornum_code ENOSEG = 1006"
| "errornum_code EMMAPED = 1007"
| "errornum_code ENOSIG = 1008"
| "errornum_code ESIGDISABLED = 1009"
| "errornum_code EBADCODEX = 1010"
| "errornum_code EEOF = 2000"

text \<open>
  The variants in the order of the declaration, which is the order of the arms of the match: the Linux
  numbers up to 76, the Linux numbers from 77 on, and the numbers ParchOS adds.
\<close>

definition linux_errors_to_76 :: "errornum list" where
  "linux_errors_to_76 =
    [NOERR, EPERM, ENOENT, ESRCH, EINTR, EIO, ENXIO, E2BIG, ENOEXEC, EBADF, ECHILD, EAGAIN,
     ENOMEM, EACCES, EFAULT, ENOTBLK, EBUSY, EEXIST, EXDEV, ENODEV, ENOTDIR, EISDIR, EINVAL,
     ENFILE, EMFILE, ENOTTY, ETXTBSY, EFBIG, ENOSPC, ESPIPE, EROFS, EMLINK, EPIPE, EDOM,
     ERANGE, EDEADLK, ENAMETOOLONG, ENOLCK, ENOSYS, ENOTEMPTY, ELOOP, ENOMSG, EIDRM, ECHRNG,
     EL2NSYNC, EL3HLT, EL3RST, ELNRNG, EUNATCH, ENOCSI, EL2HLT, EBADE, EBADR, EXFULL, ENOANO,
     EBADRQC, EBADSLT, EBFONT, ENOSTR, ENODATA, ETIME, ENOSR, ENONET, ENOPKG, EREMOTE, ENOLINK,
     EADV, ESRMNT, ECOMM, EPROTO, EMULTIHOP, EDOTDOT, EBADMSG, EOVERFLOW, ENOTUNIQ]"

definition linux_errors_from_77 :: "errornum list" where
  "linux_errors_from_77 =
    [EBADFD, EREMCHG, ELIBACC, ELIBBAD, ELIBSCN, ELIBMAX, ELIBEXEC, EILSEQ, ERESTART, ESTRPIPE,
     EUSERS, ENOTSOCK, EDESTADDRREQ, EMSGSIZE, EPROTOTYPE, ENOPROTOOPT, EPROTONOSUPPORT,
     ESOCKTNOSUPPORT, EOPNOTSUPP, EPFNOSUPPORT, EAFNOSUPPORT, EADDRINUSE, EADDRNOTAVAIL,
     ENETDOWN, ENETUNREACH, ENETRESET, ECONNABORTED, ECONNRESET, ENOBUFS, EISCONN, ENOTCONN,
     ESHUTDOWN, ETOOMANYREFS, ETIMEDOUT, ECONNREFUSED, EHOSTDOWN, EHOSTUNREACH, EALREADY,
     EINPROGRESS, ESTALE, EUCLEAN, ENOTNAM, ENAVAIL, EISNAM, EREMOTEIO, EDQUOT, ENOMEDIUM,
     EMEDIUMTYPE, ECANCELED, ENOKEY, EKEYEXPIRED, EKEYREVOKED, EKEYREJECTED, EOWNERDEAD,
     ENOTRECOVERABLE]"

definition parch_errors :: "errornum list" where
  "parch_errors =
    [EWRONGSEG, EEMPTY, EOOR, ENOTALIGNED, EBADTYPE, ENOTMAPPED, ENOSEG, EMMAPED, ENOSIG,
     ESIGDISABLED, EBADCODEX, EEOF]"

definition errornum_variants :: "errornum list" where
  "errornum_variants = linux_errors_to_76 @ linux_errors_from_77 @ parch_errors"

lemmas errornum_variants_list =
  errornum_variants_def [unfolded linux_errors_to_76_def linux_errors_from_77_def parch_errors_def append.simps]

text \<open>
  \<open>TryFrom<usize>\<close>: the macro writes one arm \<open>x if x == Self::V as usize => Ok(Self::V)\<close> per variant,
  tried in order, and \<open>_ => Err(ENOSYS)\<close> after them.
\<close>

definition errornum_try_from :: "u64 \<Rightarrow> errornum + errornum" where
  "errornum_try_from v =
     (case find (\<lambda>e. v = errornum_code e) errornum_variants of
        Some e \<Rightarrow> Inr e
      | None \<Rightarrow> Inl ENOSYS)"

text \<open>The derived \<open>Debug\<close>.\<close>

primrec errornum_name :: "errornum \<Rightarrow> string" where
  "errornum_name NOERR = ''NOERR''"
| "errornum_name EPERM = ''EPERM''"
| "errornum_name ENOENT = ''ENOENT''"
| "errornum_name ESRCH = ''ESRCH''"
| "errornum_name EINTR = ''EINTR''"
| "errornum_name EIO = ''EIO''"
| "errornum_name ENXIO = ''ENXIO''"
| "errornum_name E2BIG = ''E2BIG''"
| "errornum_name ENOEXEC = ''ENOEXEC''"
| "errornum_name EBADF = ''EBADF''"
| "errornum_name ECHILD = ''ECHILD''"
| "errornum_name EAGAIN = ''EAGAIN''"
| "errornum_name ENOMEM = ''ENOMEM''"
| "errornum_name EACCES = ''EACCES''"
| "errornum_name EFAULT = ''EFAULT''"
| "errornum_name ENOTBLK = ''ENOTBLK''"
| "errornum_name EBUSY = ''EBUSY''"
| "errornum_name EEXIST = ''EEXIST''"
| "errornum_name EXDEV = ''EXDEV''"
| "errornum_name ENODEV = ''ENODEV''"
| "errornum_name ENOTDIR = ''ENOTDIR''"
| "errornum_name EISDIR = ''EISDIR''"
| "errornum_name EINVAL = ''EINVAL''"
| "errornum_name ENFILE = ''ENFILE''"
| "errornum_name EMFILE = ''EMFILE''"
| "errornum_name ENOTTY = ''ENOTTY''"
| "errornum_name ETXTBSY = ''ETXTBSY''"
| "errornum_name EFBIG = ''EFBIG''"
| "errornum_name ENOSPC = ''ENOSPC''"
| "errornum_name ESPIPE = ''ESPIPE''"
| "errornum_name EROFS = ''EROFS''"
| "errornum_name EMLINK = ''EMLINK''"
| "errornum_name EPIPE = ''EPIPE''"
| "errornum_name EDOM = ''EDOM''"
| "errornum_name ERANGE = ''ERANGE''"
| "errornum_name EDEADLK = ''EDEADLK''"
| "errornum_name ENAMETOOLONG = ''ENAMETOOLONG''"
| "errornum_name ENOLCK = ''ENOLCK''"
| "errornum_name ENOSYS = ''ENOSYS''"
| "errornum_name ENOTEMPTY = ''ENOTEMPTY''"
| "errornum_name ELOOP = ''ELOOP''"
| "errornum_name ENOMSG = ''ENOMSG''"
| "errornum_name EIDRM = ''EIDRM''"
| "errornum_name ECHRNG = ''ECHRNG''"
| "errornum_name EL2NSYNC = ''EL2NSYNC''"
| "errornum_name EL3HLT = ''EL3HLT''"
| "errornum_name EL3RST = ''EL3RST''"
| "errornum_name ELNRNG = ''ELNRNG''"
| "errornum_name EUNATCH = ''EUNATCH''"
| "errornum_name ENOCSI = ''ENOCSI''"
| "errornum_name EL2HLT = ''EL2HLT''"
| "errornum_name EBADE = ''EBADE''"
| "errornum_name EBADR = ''EBADR''"
| "errornum_name EXFULL = ''EXFULL''"
| "errornum_name ENOANO = ''ENOANO''"
| "errornum_name EBADRQC = ''EBADRQC''"
| "errornum_name EBADSLT = ''EBADSLT''"
| "errornum_name EBFONT = ''EBFONT''"
| "errornum_name ENOSTR = ''ENOSTR''"
| "errornum_name ENODATA = ''ENODATA''"
| "errornum_name ETIME = ''ETIME''"
| "errornum_name ENOSR = ''ENOSR''"
| "errornum_name ENONET = ''ENONET''"
| "errornum_name ENOPKG = ''ENOPKG''"
| "errornum_name EREMOTE = ''EREMOTE''"
| "errornum_name ENOLINK = ''ENOLINK''"
| "errornum_name EADV = ''EADV''"
| "errornum_name ESRMNT = ''ESRMNT''"
| "errornum_name ECOMM = ''ECOMM''"
| "errornum_name EPROTO = ''EPROTO''"
| "errornum_name EMULTIHOP = ''EMULTIHOP''"
| "errornum_name EDOTDOT = ''EDOTDOT''"
| "errornum_name EBADMSG = ''EBADMSG''"
| "errornum_name EOVERFLOW = ''EOVERFLOW''"
| "errornum_name ENOTUNIQ = ''ENOTUNIQ''"
| "errornum_name EBADFD = ''EBADFD''"
| "errornum_name EREMCHG = ''EREMCHG''"
| "errornum_name ELIBACC = ''ELIBACC''"
| "errornum_name ELIBBAD = ''ELIBBAD''"
| "errornum_name ELIBSCN = ''ELIBSCN''"
| "errornum_name ELIBMAX = ''ELIBMAX''"
| "errornum_name ELIBEXEC = ''ELIBEXEC''"
| "errornum_name EILSEQ = ''EILSEQ''"
| "errornum_name ERESTART = ''ERESTART''"
| "errornum_name ESTRPIPE = ''ESTRPIPE''"
| "errornum_name EUSERS = ''EUSERS''"
| "errornum_name ENOTSOCK = ''ENOTSOCK''"
| "errornum_name EDESTADDRREQ = ''EDESTADDRREQ''"
| "errornum_name EMSGSIZE = ''EMSGSIZE''"
| "errornum_name EPROTOTYPE = ''EPROTOTYPE''"
| "errornum_name ENOPROTOOPT = ''ENOPROTOOPT''"
| "errornum_name EPROTONOSUPPORT = ''EPROTONOSUPPORT''"
| "errornum_name ESOCKTNOSUPPORT = ''ESOCKTNOSUPPORT''"
| "errornum_name EOPNOTSUPP = ''EOPNOTSUPP''"
| "errornum_name EPFNOSUPPORT = ''EPFNOSUPPORT''"
| "errornum_name EAFNOSUPPORT = ''EAFNOSUPPORT''"
| "errornum_name EADDRINUSE = ''EADDRINUSE''"
| "errornum_name EADDRNOTAVAIL = ''EADDRNOTAVAIL''"
| "errornum_name ENETDOWN = ''ENETDOWN''"
| "errornum_name ENETUNREACH = ''ENETUNREACH''"
| "errornum_name ENETRESET = ''ENETRESET''"
| "errornum_name ECONNABORTED = ''ECONNABORTED''"
| "errornum_name ECONNRESET = ''ECONNRESET''"
| "errornum_name ENOBUFS = ''ENOBUFS''"
| "errornum_name EISCONN = ''EISCONN''"
| "errornum_name ENOTCONN = ''ENOTCONN''"
| "errornum_name ESHUTDOWN = ''ESHUTDOWN''"
| "errornum_name ETOOMANYREFS = ''ETOOMANYREFS''"
| "errornum_name ETIMEDOUT = ''ETIMEDOUT''"
| "errornum_name ECONNREFUSED = ''ECONNREFUSED''"
| "errornum_name EHOSTDOWN = ''EHOSTDOWN''"
| "errornum_name EHOSTUNREACH = ''EHOSTUNREACH''"
| "errornum_name EALREADY = ''EALREADY''"
| "errornum_name EINPROGRESS = ''EINPROGRESS''"
| "errornum_name ESTALE = ''ESTALE''"
| "errornum_name EUCLEAN = ''EUCLEAN''"
| "errornum_name ENOTNAM = ''ENOTNAM''"
| "errornum_name ENAVAIL = ''ENAVAIL''"
| "errornum_name EISNAM = ''EISNAM''"
| "errornum_name EREMOTEIO = ''EREMOTEIO''"
| "errornum_name EDQUOT = ''EDQUOT''"
| "errornum_name ENOMEDIUM = ''ENOMEDIUM''"
| "errornum_name EMEDIUMTYPE = ''EMEDIUMTYPE''"
| "errornum_name ECANCELED = ''ECANCELED''"
| "errornum_name ENOKEY = ''ENOKEY''"
| "errornum_name EKEYEXPIRED = ''EKEYEXPIRED''"
| "errornum_name EKEYREVOKED = ''EKEYREVOKED''"
| "errornum_name EKEYREJECTED = ''EKEYREJECTED''"
| "errornum_name EOWNERDEAD = ''EOWNERDEAD''"
| "errornum_name ENOTRECOVERABLE = ''ENOTRECOVERABLE''"
| "errornum_name EWRONGSEG = ''EWRONGSEG''"
| "errornum_name EEMPTY = ''EEMPTY''"
| "errornum_name EOOR = ''EOOR''"
| "errornum_name ENOTALIGNED = ''ENOTALIGNED''"
| "errornum_name EBADTYPE = ''EBADTYPE''"
| "errornum_name ENOTMAPPED = ''ENOTMAPPED''"
| "errornum_name ENOSEG = ''ENOSEG''"
| "errornum_name EMMAPED = ''EMMAPED''"
| "errornum_name ENOSIG = ''ENOSIG''"
| "errornum_name ESIGDISABLED = ''ESIGDISABLED''"
| "errornum_name EBADCODEX = ''EBADCODEX''"
| "errornum_name EEOF = ''EEOF''"

section \<open>Code tables\<close>

text \<open>
  What a client of a numbered enumeration relies on: the codes of the listed variants rise strictly,
  every variant is listed, and reading a number back is a search of that list.
\<close>

lemma sorted_find_code:
  assumes "sorted_wrt (<) (map code xs)" and "x \<in> set xs"
  shows "find (\<lambda>e. (code x :: 'c::linorder) = code e) xs = Some x"
  using assms by (induction xs) auto

locale code_table =
  fixes code :: "'a \<Rightarrow> 'c::linorder"
    and variants :: "'a list"
    and read :: "'c \<Rightarrow> 'e + 'a"
    and unknown :: 'e
  assumes rising: "sorted_wrt (<) (map code variants)"
    and listed: "x \<in> set variants"
    and read_find: "read v = (case find (\<lambda>e. v = code e) variants of
                       Some e \<Rightarrow> Inr e | None \<Rightarrow> Inl unknown)"
begin

lemma read_code: "read (code x) = Inr x"
  by (simp add: read_find sorted_find_code [OF rising listed])

lemma code_inj: "code x = code y \<longleftrightarrow> x = y"
  by (metis read_code sum.inject(2))

lemma read_Inr_iff: "read v = Inr x \<longleftrightarrow> v = code x"
  by (auto simp: read_code) (auto simp: read_find find_Some_iff split: option.splits)

lemma read_Inl_iff: "read v = Inl e \<longleftrightarrow> v \<notin> range code \<and> e = unknown"
  using listed by (auto simp: read_find find_None_iff find_Some_iff split: option.splits)

end

lemma errornum_listed: "e \<in> set errornum_variants"
  unfolding errornum_variants_list list.set
  by (rule errornum.exhaust [of e]) (simp_all only: insert_iff simp_thms)

lemma errornum_rising: "sorted_wrt (<) (map errornum_code errornum_variants)"
  unfolding errornum_variants_list list.map errornum_code.simps
  by (simp add: sorted_wrt2 sorted_wrt1 del: sorted_wrt.simps(2))

interpretation errno: code_table errornum_code errornum_variants errornum_try_from ENOSYS
  by unfold_locales (rule errornum_rising, rule errornum_listed, simp add: errornum_try_from_def)

instantiation errornum :: equal
begin

definition equal_errornum :: "errornum \<Rightarrow> errornum \<Rightarrow> bool" where
  "equal_errornum a b \<longleftrightarrow> errornum_code a = errornum_code b"

instance
  by intro_classes (simp add: equal_errornum_def errno.code_inj)

end

instantiation errornum :: linorder
begin

definition less_eq_errornum :: "errornum \<Rightarrow> errornum \<Rightarrow> bool" where
  "less_eq_errornum a b \<longleftrightarrow> errornum_code a \<le> errornum_code b"

definition less_errornum :: "errornum \<Rightarrow> errornum \<Rightarrow> bool" where
  "less_errornum a b \<longleftrightarrow> errornum_code a < errornum_code b"

instance
  by intro_classes (auto simp: less_eq_errornum_def less_errornum_def errno.code_inj
      intro: order.trans)

end

end
