(* ===== verification/Syscall.thy ===== *)
theory Syscall
  imports Allocator Syscall_Num Error_Num
begin

text \<open>
  \<^verbatim>\<open>usrlib_rust/src/syscall.rs\<close>: the system call stub \<open>do_syscall\<close> and one wrapper per call. A slice
  is its pointer and its length; a \<open>&str\<close> argument is copied with a NUL after it into a heap buffer,
  as the code does, and its address goes into the register. The profile is the debug profile the
  Makefiles build, where negating \<open>isize::MIN\<close> panics.
\<close>

type_synonym slice = "addr \<times> u64"

abbreviation syscall_rs :: string where
  "syscall_rs \<equiv> ''usrlib_rust/src/syscall.rs''"

definition errornum_debug :: "errornum \<Rightarrow> rstr list" where
  "errornum_debug e = [str (errornum_name e)]"

section \<open>The system call stub\<close>

definition do_syscall :: "'k platform \<Rightarrow> u64 list \<Rightarrow> u64 \<Rightarrow> ('k, errornum + u64) rust" where
  "do_syscall P args syscall_id w =
     (let ev = \<lparr>ev_number = syscall_id, ev_args = args, ev_mem = mem w\<rparr>;
          w1 = w\<lparr>trace := trace w @ [ev]\<rparr>
      in case ecall P syscall_id args (mem w) (kern w) of
           Vanish k \<Rightarrow> Some (Gone, w1\<lparr>kern := k\<rparr>)
         | Resume a0 a1 m k \<Rightarrow>
             (if a1 = 0 then ret (Inr a0)
              else if a0 = 0x8000000000000000 then
                panic_at syscall_rs 28 [str ''attempt to negate with overflow'']
              else andthen (unwrap_result errornum_debug syscall_rs 28 (errornum_try_from (- a0)))
                     (\<lambda>e. ret (Inl e)))
             (w1\<lparr>mem := m, kern := k\<rparr>))"

section \<open>Input and output\<close>

definition write_raw :: "'k platform \<Rightarrow> file_descriptor \<Rightarrow> addr \<Rightarrow> u64 \<Rightarrow> ('k, errornum + u64) rust" where
  "write_raw P fd buf len = do_syscall P [fd_num fd, buf, len, 0, 0, 0] SYSCALL_WRITE"

definition write_fd :: "'k platform \<Rightarrow> file_descriptor \<Rightarrow> slice \<Rightarrow> ('k, errornum + u64) rust" where
  "write_fd P fd buf = write_raw P fd (fst buf) (snd buf)"

definition read_raw :: "'k platform \<Rightarrow> file_descriptor \<Rightarrow> addr \<Rightarrow> u64 \<Rightarrow> ('k, errornum + u64) rust" where
  "read_raw P fd buf len = do_syscall P [fd_num fd, buf, len, 0, 0, 0] SYSCALL_READ"

definition read_fd :: "'k platform \<Rightarrow> file_descriptor \<Rightarrow> slice \<Rightarrow> ('k, errornum + u64) rust" where
  "read_fd P fd buf = read_raw P fd (fst buf) (snd buf)"

definition read_vec :: "'k platform \<Rightarrow> file_descriptor \<Rightarrow> u64 \<Rightarrow> ('k, errornum + u8 list) rust" where
  "read_vec P fd len =
     with_vec P (replicate (unat len) 0) (\<lambda>p.
       try_then (read_fd P fd (p, len)) (\<lambda>_.
       andthen (read_buffer p (unat len)) (\<lambda>buf. ret (Inr buf))))"

section \<open>Files\<close>

definition open_file :: "'k platform \<Rightarrow> rstr \<Rightarrow> open_mode \<Rightarrow> ('k, errornum + file_descriptor) rust" where
  "open_file P path open_mode =
     with_vec P (as_bytes path @ [0]) (\<lambda>arr.
       map_ok fd_from (do_syscall P [arr, open_mode, 0, 0, 0, 0] SYSCALL_OPEN))"

definition openat ::
    "'k platform \<Rightarrow> file_descriptor \<Rightarrow> rstr \<Rightarrow> open_mode \<Rightarrow> ('k, errornum + u64) rust" where
  "openat P fd path open_mode =
     with_vec P (as_bytes path @ [0]) (\<lambda>arr.
       do_syscall P [fd_num fd, arr, of_nat (length (as_bytes path)), open_mode, 0, 0] SYSCALL_OPENAT)"

definition close :: "'k platform \<Rightarrow> file_descriptor \<Rightarrow> ('k, errornum + u64) rust" where
  "close P fd = do_syscall P [fd_num fd, 0, 0, 0, 0, 0] SYSCALL_CLOSE"

definition dup :: "'k platform \<Rightarrow> file_descriptor \<Rightarrow> ('k, errornum + file_descriptor) rust" where
  "dup P fd = map_ok fd_from (do_syscall P [fd_num fd, 0, 0, 0, 0, 0] SYSCALL_DUP)"

definition seek :: "'k platform \<Rightarrow> file_descriptor \<Rightarrow> u64 \<Rightarrow> ('k, errornum + u64) rust" where
  "seek P fd offset = do_syscall P [fd_num fd, offset, 0, 0, 0, 0] SYSCALL_SEEK"

definition getdents :: "'k platform \<Rightarrow> file_descriptor \<Rightarrow> slice \<Rightarrow> ('k, errornum + u64) rust" where
  "getdents P fd buf = do_syscall P [fd_num fd, fst buf, snd buf, 0, 0, 0] SYSCALL_GETDENTS"

definition ioctl ::
    "'k platform \<Rightarrow> file_descriptor \<Rightarrow> u64 \<Rightarrow> u8 list \<Rightarrow> slice \<Rightarrow> ('k, errornum + u64) rust" where
  "ioctl P fd op param res =
     with_data P param (\<lambda>p_ptr.
       do_syscall P [fd_num fd, op, p_ptr, of_nat (length param), fst res, snd res] SYSCALL_IOCTL)"

definition delete :: "'k platform \<Rightarrow> rstr \<Rightarrow> ('k, errornum + u64) rust" where
  "delete P path =
     with_vec P (as_bytes path @ [0]) (\<lambda>arr. do_syscall P [arr, 0, 0, 0, 0, 0] SYSCALL_DELETE)"

definition mkdir :: "'k platform \<Rightarrow> rstr \<Rightarrow> permission \<Rightarrow> ('k, errornum + u64) rust" where
  "mkdir P path perm =
     with_vec P (as_bytes path @ [0]) (\<lambda>arr.
       do_syscall P [arr, ucast perm, 0, 0, 0, 0] SYSCALL_MKDIR)"

section \<open>Processes\<close>

definition fork :: "'k platform \<Rightarrow> ('k, errornum + u64) rust" where
  "fork P = do_syscall P [0, 0, 0, 0, 0, 0] SYSCALL_FORK"

definition exec_raw :: "'k platform \<Rightarrow> rstr \<Rightarrow> addr \<Rightarrow> ('k, errornum + u64) rust" where
  "exec_raw P path argv_arr_ptr =
     with_vec P (as_bytes path @ [0]) (\<lambda>path_ptr.
       do_syscall P [path_ptr, argv_arr_ptr, 0, 0, 0, 0] SYSCALL_EXEC)"

definition exec :: "'k platform \<Rightarrow> rstr \<Rightarrow> rstr list \<Rightarrow> ('k, errornum + u64) rust" where
  "exec P path argv =
     with_vecs P (map (\<lambda>s. as_bytes s @ [0]) argv) (\<lambda>argv_ptr.
       with_ptr_vec P (argv_ptr @ [0]) (\<lambda>argv_arr_ptr. exec_raw P path argv_arr_ptr))"

definition exit :: "'k platform \<Rightarrow> u64 \<Rightarrow> ('k, 'a) rust" where
  "exit P code =
     andthen (do_syscall P [code, 0, 0, 0, 0, 0] SYSCALL_EXIT) (\<lambda>r.
     andthen (unwrap_result errornum_debug syscall_rs 137 r) (\<lambda>_.
     panic_at syscall_rs 138 [str ''internal error: entered unreachable code'']))"

definition waitpid :: "'k platform \<Rightarrow> u64 \<Rightarrow> addr \<Rightarrow> ('k, errornum + u64) rust" where
  "waitpid P pid exit_code = do_syscall P [pid, exit_code, 0, 0, 0, 0] SYSCALL_WAITPID"

definition signal :: "'k platform \<Rightarrow> u64 \<Rightarrow> u64 \<Rightarrow> ('k, errornum + u64) rust" where
  "signal P target_pid signum = do_syscall P [target_pid, signum, 0, 0, 0, 0] SYSCALL_SIGNAL"

definition sigaction :: "'k platform \<Rightarrow> u64 \<Rightarrow> addr \<Rightarrow> ('k, errornum + u64) rust" where
  "sigaction P signum handler = do_syscall P [signum, handler, 0, 0, 0, 0] SYSCALL_SIGACTION"

definition getcwd_raw :: "'k platform \<Rightarrow> slice \<Rightarrow> ('k, errornum + u64) rust" where
  "getcwd_raw P buf = do_syscall P [fst buf, snd buf, 0, 0, 0, 0] SYSCALL_GETCWD"

definition getcwd :: "'k platform \<Rightarrow> ('k, errornum + rstr) rust" where
  "getcwd P =
     with_data P (replicate 1024 0) (\<lambda>buffer.
       try_then (getcwd_raw P (buffer, 1024)) (\<lambda>_.
       andthen (read_buffer buffer 1024) (\<lambda>bytes.
       ret (map_sum (\<lambda>_. EBADCODEX) id (from_utf8 bytes)))))"

definition chdir :: "'k platform \<Rightarrow> rstr \<Rightarrow> ('k, errornum + u64) rust" where
  "chdir P path =
     with_vec P (as_bytes path @ [0]) (\<lambda>arr.
       do_syscall P [arr, of_nat (length (as_bytes path)), 0, 0, 0, 0] SYSCALL_CHDIR)"

section \<open>Memory\<close>

definition mmap ::
    "'k platform \<Rightarrow> u64 \<Rightarrow> u64 \<Rightarrow> u64 \<Rightarrow> u64 \<Rightarrow> file_descriptor \<Rightarrow> u64 \<Rightarrow> ('k, errornum + u64) rust" where
  "mmap P target len prot flag fd offset =
     do_syscall P [target, len, prot, flag, fd_num fd, offset] SYSCALL_MMAP"

definition sbrk :: "'k platform \<Rightarrow> u64 \<Rightarrow> ('k, errornum + u64) rust" where
  "sbrk P increment = do_syscall P [increment, 0, 0, 0, 0, 0] SYSCALL_SBRK"

section \<open>Evaluation of the stub\<close>

definition logged :: "u64 \<Rightarrow> u64 list \<Rightarrow> 'k world \<Rightarrow> ecall_event" where
  "logged n args w = \<lparr>ev_number = n, ev_args = args, ev_mem = mem w\<rparr>"

lemma do_syscall_Vanish [rust_simps]:
  assumes "ecall P n args (mem w) (kern w) = Vanish k"
  shows "do_syscall P args n w = Some (Gone, w\<lparr>kern := k, trace := trace w @ [logged n args w]\<rparr>)"
  using assms by (simp add: do_syscall_def logged_def Let_def)

lemma do_syscall_Ok [rust_simps]:
  assumes "ecall P n args (mem w) (kern w) = Resume a0 0 m k"
  shows "do_syscall P args n w
    = Some (Value (Inr a0), w\<lparr>mem := m, kern := k, trace := trace w @ [logged n args w]\<rparr>)"
  using assms by (simp add: do_syscall_def logged_def ret_def Let_def)

lemma errornum_code_less: "errornum_code e < 0x8000000000000000"
  by (cases e) simp_all

lemma errornum_code_neg: "- errornum_code e \<noteq> 0x8000000000000000"
proof
  assume "- errornum_code e = 0x8000000000000000"
  then have "- (- errornum_code e) = - (0x8000000000000000 :: u64)" by (rule arg_cong)
  then have "errornum_code e = 0x8000000000000000" by simp
  with errornum_code_less [of e] show False by simp
qed

lemma do_syscall_Err [rust_simps]:
  assumes "ecall P n args (mem w) (kern w) = Resume (- errornum_code e) a1 m k" and "a1 \<noteq> 0"
  shows "do_syscall P args n w
    = Some (Value (Inl e), w\<lparr>mem := m, kern := k, trace := trace w @ [logged n args w]\<rparr>)"
  using assms errornum_code_neg [of e]
  by (simp add: do_syscall_def logged_def Let_def errno.read_code rust_simps)

lemma calls_do_syscall: "always more_calls (do_syscall P args n)"
  by (rule alwaysI)
    (auto simp: do_syscall_def Let_def more_calls_def ret_def panic_at_def andthen_Some_iff
      unwrap_result_def split: ecall_result.splits if_splits sum.splits)

lemma held_do_syscall: "keeps same_live (do_syscall P args n)"
  by (rule keepsI)
    (auto simp: do_syscall_def Let_def ret_def panic_at_def andthen_Some_iff unwrap_result_def
      split: ecall_result.splits if_splits sum.splits)

end
