(* ===== verification/Fmt_Io.thy ===== *)
theory Fmt_Io
  imports Syscall
begin

text \<open>
  \<^verbatim>\<open>usrlib_rust/src/fmt_io.rs\<close>: formatted output to file descriptor 1 and character input from file
  descriptor 0. A formatted print is a list of pieces, one \<open>write_str\<close> each, in the order
  \<open>core::fmt::write\<close> makes them: the non-empty literal parts and what each argument writes. What
  these functions compute on a console is proved in the theory \<open>Console\<close>.
\<close>

abbreviation fmt_io_rs :: string where
  "fmt_io_rs \<equiv> ''usrlib_rust/src/fmt_io.rs''"

section \<open>Format strings\<close>

datatype fmt_part = Lit rstr | Arg "rstr list"

fun fmt_pieces :: "fmt_part list \<Rightarrow> rstr list" where
  "fmt_pieces [] = []"
| "fmt_pieces (Lit a # Lit b # ps) = fmt_pieces (Lit (a @ b) # ps)"
| "fmt_pieces (Lit a # ps) = (if a = [] then fmt_pieces ps else a # fmt_pieces ps)"
| "fmt_pieces (Arg as # ps) = as @ fmt_pieces ps"

fun part_text :: "fmt_part \<Rightarrow> rstr" where
  "part_text (Lit s) = s"
| "part_text (Arg as) = concat as"

lemma concat_fmt_pieces [simp]: "concat (fmt_pieces ps) = concat (map part_text ps)"
  by (induction ps rule: fmt_pieces.induct) auto

text \<open>\<open>Display\<close> and \<open>Debug\<close> of the integers: the digits, a minus sign in a piece of its own.\<close>

function dec_digits :: "nat \<Rightarrow> rstr" where
  "dec_digits n =
     (if n < 10 then [of_nat (48 + n)] else dec_digits (n div 10) @ [of_nat (48 + n mod 10)])"
  by pat_completeness auto
termination by (relation "measure id") auto

declare dec_digits.simps [simp del]

definition display_usize :: "u64 \<Rightarrow> rstr list" where
  "display_usize n = [dec_digits (unat n)]"

definition display_isize :: "u64 \<Rightarrow> rstr list" where
  "display_isize n =
     (if sint n < 0 then [str ''-'', dec_digits (nat (- sint n))] else [dec_digits (nat (sint n))])"

definition fd_debug :: "file_descriptor \<Rightarrow> rstr list" where
  "fd_debug fd = [str ''FileDecstiptor'', str ''(''] @ display_usize (fd_num fd) @ [str '')'']"

definition utf8_error_debug :: "utf8_error \<Rightarrow> rstr list" where
  "utf8_error_debug e =
     [str ''Utf8Error'', str '' { '', str ''valid_up_to'', str '': '', dec_digits (valid_up_to e),
      str '', '', str ''error_len'', str '': ''] @
     (case error_len e of None \<Rightarrow> [str ''None'']
      | Some n \<Rightarrow> [str ''Some'', str ''('', dec_digits n, str '')'']) @ [str '' }'']"

section \<open>Output\<close>

definition STDIN :: file_descriptor where
  "STDIN = FileDecstiptor 0"

definition STDOUT :: file_descriptor where
  "STDOUT = FileDecstiptor 1"

definition write_str :: "'k platform \<Rightarrow> rstr \<Rightarrow> ('k, unit + unit) rust" where
  "write_str P s =
     with_data P (as_bytes s) (\<lambda>p.
       try_then (map_err (\<lambda>_. ()) (write_fd P STDOUT (p, of_nat (length (as_bytes s))))) (\<lambda>_.
       ret (Inr ())))"

fun write_fmt :: "'k platform \<Rightarrow> rstr list \<Rightarrow> ('k, unit + unit) rust" where
  "write_fmt P [] = ret (Inr ())"
| "write_fmt P (s # ss) = try_then (write_str P s) (\<lambda>_. write_fmt P ss)"

definition print :: "'k platform \<Rightarrow> rstr list \<Rightarrow> ('k, unit) rust" where
  "print P args =
     andthen (write_fmt P args) (unwrap_result (\<lambda>_. [str ''Error'']) fmt_io_rs 19)"

definition print_macro :: "'k platform \<Rightarrow> fmt_part list \<Rightarrow> ('k, unit) rust" where
  "print_macro P fmt = print P (fmt_pieces fmt)"

definition println_macro :: "'k platform \<Rightarrow> fmt_part list \<Rightarrow> ('k, unit) rust" where
  "println_macro P fmt = print P (fmt_pieces (fmt @ [Lit [13, 10]]))"

text \<open>
  The panic handlers of the programs: print the message with its place, then \<open>finish\<close>. A panic
  while printing enters the handler again.
\<close>

definition panic_report :: "'k platform \<Rightarrow> string \<Rightarrow> panic_info \<Rightarrow> ('k, unit) rust" where
  "panic_report P name i =
     println_macro P [Lit (str name), Lit (str '' panicked at ''), Arg [source_path P (pi_file i)],
       Lit (str '':''), Arg [dec_digits (pi_line i)], Lit (str '', ''), Arg (pi_message i)]"

partial_function (option) handle_panic ::
    "(panic_info \<Rightarrow> ('k, unit) rust) \<Rightarrow> ('k, 'a) rust \<Rightarrow> panic_info \<Rightarrow> ('k, 'a) rust" where
  "handle_panic report finish i w =
     catch_panic (andthen (report i) (\<lambda>_. finish)) (\<lambda>j. handle_panic report finish j) w"

section \<open>Input\<close>

definition getbyte_noecho :: "'k platform \<Rightarrow> ('k, errornum + u8) rust" where
  "getbyte_noecho P =
     with_data P [0] (\<lambda>p.
       try_then (read_fd P STDIN (p, 1)) (\<lambda>count.
       if count = 0 then ret (Inl EEOF)
       else andthen (read_buffer p 1) (\<lambda>buf. ret (Inr (buf ! 0)))))"

text \<open>The number of bytes the first byte announces; 0xFE and 0xFF announce none.\<close>

definition seq_length :: "u8 \<Rightarrow> nat option" where
  "seq_length init =
     (if init < 0xE0 then Some 2 else if init < 0xF0 then Some 3 else if init < 0xF8 then Some 4
      else if init < 0xFC then Some 5 else if init < 0xFE then Some 6 else None)"

definition u8_debug :: "u8 \<Rightarrow> rstr" where
  "u8_debug b = dec_digits (unat b)"

text \<open>
  \<open>getchar_noecho\<close> reads its bytes with \<open>getbyte_noecho\<close> only, here the argument \<open>next\<close>;
  \<open>decode_rest n buf\<close> is the \<open>for\<close> loop with \<open>n\<close> rounds to go and the match after it.
\<close>

fun decode_rest :: "('k, errornum + u8) rust \<Rightarrow> nat \<Rightarrow> u32 \<Rightarrow> ('k, errornum + rchar) rust" where
  "decode_rest next 0 buf =
     (case char_from_u32 buf of
        None \<Rightarrow> ret (Inr replacement_char)
      | Some res \<Rightarrow> ret (Inr res))"
| "decode_rest next (Suc n) buf =
     try_then next (\<lambda>b.
       if b AND 0xC0 \<noteq> 0x80 then ret (Inr replacement_char)
       else if b AND 0xC0 \<noteq> 0x80 then
         panic_at fmt_io_rs 69 [str ''assertion failed: `(left == right)`'' @ [10] @ str ''  left: `'',
           u8_debug (b AND 0xC0), str ''`,'' @ [10] @ str '' right: `'', u8_debug 0x80, str ''`'']
       else
         (let buf1 = push_bit 6 buf; d = ucast (b AND 0x3F) :: u32
          in if 2 ^ 32 \<le> unat buf1 + unat d then
               panic_at fmt_io_rs 71 [str ''attempt to add with overflow'']
             else decode_rest next n (buf1 + d)))"

definition decode_char :: "('k, errornum + u8) rust \<Rightarrow> ('k, errornum + rchar) rust" where
  "decode_char next =
     try_then next (\<lambda>init.
       if init < 0x80 then ret (Inr (ucast init))
       else (case seq_length init of
               None \<Rightarrow> ret (Inr replacement_char)
             | Some len \<Rightarrow>
                 decode_rest next (len - 1) (ucast (init AND drop_bit len 0x7F))))"

definition getchar_noecho :: "'k platform \<Rightarrow> ('k, errornum + rchar) rust" where
  "getchar_noecho P = decode_char (getbyte_noecho P)"

definition getchar :: "'k platform \<Rightarrow> ('k, errornum + rchar) rust" where
  "getchar P =
     try_then (getchar_noecho P) (\<lambda>res.
     andthen (if res = 13 then print_macro P [Lit [10]] else ret ()) (\<lambda>_.
     andthen (print_macro P [Arg [[res]]]) (\<lambda>_.
     ret (Inr res))))"

partial_function (option) get_line_loop :: "'k platform \<Rightarrow> rstr \<Rightarrow> ('k, errornum + rstr) rust" where
  "get_line_loop P res w =
     try_then (getchar P) (\<lambda>b.
       if b = 13 \<or> b = 10 then ret (Inr res)
       else if b = 0x7F then
         (if res \<noteq> [] then
            andthen (print_macro P [Lit [8, 32, 8]]) (\<lambda>_. get_line_loop P (butlast res))
          else get_line_loop P res)
       else get_line_loop P (res @ [b])) w"

definition get_line :: "'k platform \<Rightarrow> ('k, errornum + rstr) rust" where
  "get_line P = get_line_loop P []"

end
