(* ===== verification/Buffers.thy ===== *)
theory Buffers
  imports Syscall
begin

text \<open>
  What the kernel finds behind the pointers it is given. \<open>owned w bs\<close> says that the blocks \<open>bs\<close>
  (address and contents) are held and intact in \<open>w\<close>; a sound allocator keeps that true when it hands
  out another block, so every buffer of a call is whole when the \<open>ecall\<close> happens.
\<close>

section \<open>C strings\<close>

lemma load_bytes_take:
  assumes "load_bytes m p n = bs" "k \<le> n"
  shows "load_bytes m p k = take k bs"
  using assms by (auto simp: load_bytes_def take_map)

lemma load_bytes_append:
  "load_bytes m p (n + k) = load_bytes m p n @ load_bytes m (p + of_nat n) k"
  by (rule nth_equalityI) (auto simp: load_bytes_def nth_append algebra_simps of_nat_diff)

text \<open>The kernel reads a buffer that ends in NUL up to its first NUL.\<close>

lemma cstr_at_buffer:
  assumes "load_bytes m p (length bs + 1) = bs @ [0]" and "fits p (length bs + 1)"
  shows "cstr_at m p (takeWhile (\<lambda>b. b \<noteq> 0) bs)"
proof -
  let ?cs = "takeWhile (\<lambda>b. b \<noteq> 0) bs"
  have le: "Suc (length ?cs) \<le> length bs + 1" by (simp add: length_takeWhile_le)
  have "take (Suc (length ?cs)) (bs @ [0]) = ?cs @ [0]"
  proof (cases "0 \<in> set bs")
    case True
    then obtain l r where "bs = l @ 0 # r" "0 \<notin> set l" by (meson split_list_first)
    then show ?thesis by simp
  next
    case False
    then have "?cs = bs" by (induction bs) auto
    then show ?thesis by (simp only: length_append take_all append_same_eq) simp
  qed
  moreover have "0 \<notin> set ?cs" by (auto dest: set_takeWhileD)
  ultimately show ?thesis
    using load_bytes_take [OF assms(1) le] le assms(2) by (simp add: cstr_at_def fits_def)
qed

lemma takeWhile_no_nul: "0 \<notin> set bs \<Longrightarrow> takeWhile (\<lambda>b. b \<noteq> 0) bs = (bs :: u8 list)"
  by (induction bs) auto

section \<open>Held blocks\<close>

definition owned :: "'k world \<Rightarrow> (addr \<times> u8 list) list \<Rightarrow> bool" where
  "owned w blocks \<longleftrightarrow>
     (\<forall>(p, bs) \<in> set blocks. p \<noteq> 0 \<and> fits p (length bs) \<and> (p, length bs) \<in> set (live w) \<and>
        load_bytes (mem w) p (length bs) = bs)"

lemma owned_Nil [simp]: "owned w []"
  by (simp add: owned_def)

lemma owned_alloc:
  assumes "allocator_sound P" and place: "heap_place P (heap w) (live w) (length bs) = Some p"
    and "owned w blocks"
  shows "owned (w\<lparr>mem := store_bytes (mem w) p bs, live := (p, length bs) # live w\<rparr>)
    ((p, bs) # blocks)"
proof -
  from assms(1) place have p: "p \<noteq> 0" "fits p (length bs)" "list_all (disjoint (p, length bs)) (live w)"
    by (auto simp: allocator_sound_def)
  then have "length bs \<le> 2 ^ 64" by (simp add: fits_def)
  with p assms(3) show ?thesis by (fastforce simp: owned_def list_all_iff)
qed

text \<open>
  A call under a fresh block either never starts, when the allocator fails and the record of calls is
  unchanged, or runs with the block in place.
\<close>

lemma with_block_owned:
  assumes "allocator_sound P" "owned w blocks"
    and "with_block on_alloc_error P a bs f w = Some (oc, w')" "trace w' \<noteq> trace w"
  obtains p u oc' u' where "owned u ((p, bs) # blocks)" "trace u = trace w"
    "f p u = Some (oc', u')" "trace u' = trace w'"
proof (cases "heap_place P (heap w) (live w) (length bs)")
  case None
  with assms(3,4) show thesis by (simp add: with_block_def on_alloc_error_def panic_at_def)
next
  case (Some p)
  let ?u = "w\<lparr>mem := store_bytes (mem w) p bs, live := (p, length bs) # live w\<rparr>"
  from Some assms(3) obtain oc' u' where "f p ?u = Some (oc', u')" "trace u' = trace w'"
    by (auto simp: with_block_def andthen_Some_iff ret_def)
  moreover have "owned ?u ((p, bs) # blocks)" by (rule owned_alloc [OF assms(1) Some assms(2)])
  ultimately show thesis using that [of ?u p oc' u'] by simp
qed

lemma with_vec_owned:
  assumes "allocator_sound P" "owned w blocks" "bs \<noteq> []"
    and "with_vec P bs f w = Some (oc, w')" "trace w' \<noteq> trace w"
  obtains p u oc' u' where "owned u ((p, bs) # blocks)" "trace u = trace w"
    "f p u = Some (oc', u')" "trace u' = trace w'"
proof -
  from assms(3,4) have "with_block on_alloc_error P 1 bs f w = Some (oc, w')"
    by (simp add: with_vec_def)
  then show thesis by (rule with_block_owned [OF assms(1,2) _ assms(5) that])
qed

lemma with_vecs_owned:
  assumes "allocator_sound P" "owned w blocks" "list_all (\<lambda>bs. bs \<noteq> []) bss"
    and "with_vecs P bss f w = Some (oc, w')" "trace w' \<noteq> trace w"
  obtains ps u oc' u' where "length ps = length bss" "owned u (zip ps bss @ blocks)"
    "trace u = trace w" "f ps u = Some (oc', u')" "trace u' = trace w'"
  using assms(2-5)
proof (induction bss arbitrary: f w blocks oc w' thesis)
  case Nil
  show ?case by (rule Nil.prems(1) [of "[]" w oc w']) (use Nil.prems(2,4) in simp_all)
next
  case (Cons bs bss)
  from Cons.prems(3,4) have ne: "bs \<noteq> []" "list_all (\<lambda>bs. bs \<noteq> []) bss"
    and run: "with_vec P bs (\<lambda>p. with_vecs P bss (\<lambda>ps. f (p # ps))) w = Some (oc, w')" by auto
  obtain p u oc' u' where u: "owned u ((p, bs) # blocks)" "trace u = trace w"
    "with_vecs P bss (\<lambda>ps. f (p # ps)) u = Some (oc', u')" "trace u' = trace w'"
    by (rule with_vec_owned [OF assms(1) Cons.prems(2) ne(1) run Cons.prems(5)])
  with Cons.prems(5) have ne': "trace u' \<noteq> trace u" by simp
  obtain ps v oc'' v' where v: "length ps = length bss" "owned v (zip ps bss @ (p, bs) # blocks)"
    "trace v = trace u" "f (p # ps) v = Some (oc'', v')" "trace v' = trace u'"
    by (rule Cons.IH [OF _ u(1) ne(2) u(3) ne'])
  then have "owned v (zip (p # ps) (bs # bss) @ blocks)" by (auto simp: owned_def)
  with v u show ?case by (intro Cons.prems(1) [of "p # ps" v oc'' v']) simp_all
qed

text \<open>The register file and the memory of the one system call a run ends in.\<close>

lemma do_syscall_logged:
  assumes "do_syscall P args n w = Some (oc, w')"
  shows "trace w' = trace w @ [logged n args w]"
  using assms
  by (auto simp: do_syscall_def logged_def Let_def ret_def panic_at_def andthen_Some_iff
      unwrap_result_def split: ecall_result.splits if_splits sum.splits)

lemma path_call_logged:
  assumes "allocator_sound P" "owned w blocks"
    and run: "with_vec P (as_bytes path @ [0]) (\<lambda>arr. andthen (do_syscall P (args arr) n) g) w = Some (oc, w')"
    and g: "\<And>x v o' v'. g x v = Some (o', v') \<Longrightarrow> trace v' = trace v"
    and "trace w' \<noteq> trace w"
  obtains p m where "trace w' = trace w @ [\<lparr>ev_number = n, ev_args = args p, ev_mem = m\<rparr>]"
    "cstr_at m p (takeWhile (\<lambda>b. b \<noteq> 0) (as_bytes path))"
    "\<And>q bs. (q, bs) \<in> set blocks \<Longrightarrow> load_bytes m q (length bs) = bs \<and> fits q (length bs)" "p \<noteq> 0"
proof -
  have ne: "as_bytes path @ [0] \<noteq> []" by simp
  obtain p u oc' u' where u: "owned u ((p, as_bytes path @ [0]) # blocks)" "trace u = trace w"
    "andthen (do_syscall P (args p) n) g u = Some (oc', u')" "trace u' = trace w'"
    by (rule with_vec_owned [OF assms(1,2) ne run assms(5)])
  from u(3) obtain o1 v where "do_syscall P (args p) n u = Some (o1, v)" "trace u' = trace v"
    unfolding andthen_Some_iff using g by metis
  with u(2,4) have t: "trace w' = trace w @ [\<lparr>ev_number = n, ev_args = args p, ev_mem = mem u\<rparr>]"
    using do_syscall_logged [of P "args p" n u o1 v] by (simp only: logged_def)
  from u(1) have "load_bytes (mem u) p (length (as_bytes path) + 1) = as_bytes path @ [0]"
    "fits p (length (as_bytes path) + 1)"
    by (simp_all add: owned_def)
  then have "cstr_at (mem u) p (takeWhile (\<lambda>b. b \<noteq> 0) (as_bytes path))" by (rule cstr_at_buffer)
  with t show thesis
    by (rule that) (use u(1) in \<open>auto simp: owned_def\<close>)
qed

text \<open>
  An argument vector in memory: pointers of eight bytes each, the first null one ends it, and every
  pointer before it leads to the C string of its argument.
\<close>

definition argv_at :: "memory \<Rightarrow> addr \<Rightarrow> u8 list list \<Rightarrow> bool" where
  "argv_at m ap args \<longleftrightarrow>
     (\<exists>ptrs. length ptrs = length args \<and> 0 \<notin> set ptrs \<and>
        load_bytes m ap (8 * (length args + 1)) = concat (map (\<lambda>p. to_le 8 (unat p)) (ptrs @ [0])) \<and>
        list_all2 (cstr_at m) ptrs args)"

lemma length_ptr_bytes [simp]:
  "length (concat (map (\<lambda>p. to_le 8 (unat (p :: addr))) ps)) = 8 * length ps"
  by (induction ps) auto

lemma argv_at_blocks:
  assumes "length ps = length argv" and "0 \<notin> set ps"
    and "load_bytes m ap (8 * (length argv + 1)) = concat (map (\<lambda>p. to_le 8 (unat p)) (ps @ [0]))"
    and keep: "\<And>q bs. (q, bs) \<in> set (zip ps (map (\<lambda>s. as_bytes s @ [0]) argv)) \<Longrightarrow>
      load_bytes m q (length bs) = bs \<and> fits q (length bs)"
  shows "argv_at m ap (map (\<lambda>s. takeWhile (\<lambda>b. b \<noteq> 0) (as_bytes s)) argv)"
proof -
  have "cstr_at m (ps ! i) (takeWhile (\<lambda>b. b \<noteq> 0) (as_bytes (argv ! i)))" if "i < length argv" for i
  proof (rule cstr_at_buffer)
    have "(ps ! i, as_bytes (argv ! i) @ [0]) \<in> set (zip ps (map (\<lambda>s. as_bytes s @ [0]) argv))"
      using that assms(1) by (auto simp: in_set_zip intro!: exI [of _ i])
    from keep [OF this]
    show "load_bytes m (ps ! i) (length (as_bytes (argv ! i)) + 1) = as_bytes (argv ! i) @ [0]"
      "fits (ps ! i) (length (as_bytes (argv ! i)) + 1)" by simp_all
  qed
  then show ?thesis
    unfolding argv_at_def using assms(1-3)
    by (intro exI [of _ ps]) (auto simp: list_all2_conv_all_nth)
qed

lemma exec_logged:
  assumes "allocator_sound P" "exec P path argv w = Some (oc, w')" "trace w' \<noteq> trace w"
  shows "\<exists>pp ap m. trace w' = trace w @ [\<lparr>ev_number = SYSCALL_EXEC, ev_args = [pp, ap, 0, 0, 0, 0], ev_mem = m\<rparr>]
    \<and> cstr_at m pp (takeWhile (\<lambda>b. b \<noteq> 0) (as_bytes path))
    \<and> argv_at m ap (map (\<lambda>s. takeWhile (\<lambda>b. b \<noteq> 0) (as_bytes s)) argv)"
proof -
  let ?bss = "map (\<lambda>s. as_bytes s @ [0]) argv"
  have ne: "list_all (\<lambda>bs. bs \<noteq> []) ?bss" by (simp add: list_all_iff)
  obtain ps u oc1 u1 where ps': "length ps = length ?bss" "owned u (zip ps ?bss @ [])" "trace u = trace w"
    "with_ptr_vec P (ps @ [0]) (exec_raw P path) u = Some (oc1, u1)" "trace u1 = trace w'"
    by (rule with_vecs_owned [OF assms(1) owned_Nil ne assms(2) [unfolded exec_def] assms(3)])
  then have ps: "length ps = length argv" "owned u (zip ps ?bss)" "trace u = trace w"
    "with_ptr_vec P (ps @ [0]) (exec_raw P path) u = Some (oc1, u1)" "trace u1 = trace w'"
    by (simp_all only: length_map append_Nil2)
  let ?tab = "concat (map (\<lambda>p. to_le 8 (unat p)) (ps @ [0]))"
  from ps(4) have run: "with_block on_alloc_error P 8 ?tab (exec_raw P path) u = Some (oc1, u1)"
    by (simp add: with_ptr_vec_def)
  from assms(3) ps have ne1: "trace u1 \<noteq> trace u" by simp
  obtain ap v oc2 v1 where v: "owned v ((ap, ?tab) # zip ps ?bss)" "trace v = trace u"
    "exec_raw P path ap v = Some (oc2, v1)" "trace v1 = trace u1"
    by (rule with_block_owned [OF assms(1) ps(2) run ne1])
  from v ps assms(3) have "trace v1 \<noteq> trace v" by simp
  moreover from v(3) have "with_vec P (as_bytes path @ [0])
      (\<lambda>arr. andthen (do_syscall P [arr, ap, 0, 0, 0, 0] SYSCALL_EXEC) ret) v = Some (oc2, v1)"
    by (simp add: exec_raw_def)
  moreover have "trace v' = trace v" if "ret x v = Some (o', v')" for x v v' and o' :: "(errornum + u64) outcome"
    using that by (simp add: ret_def)
  ultimately
  obtain pp m where t: "trace v1 = trace v @ [\<lparr>ev_number = SYSCALL_EXEC, ev_args = [pp, ap, 0, 0, 0, 0], ev_mem = m\<rparr>]"
    and c: "cstr_at m pp (takeWhile (\<lambda>b. b \<noteq> 0) (as_bytes path))"
    and keep: "\<And>q bs. (q, bs) \<in> set ((ap, ?tab) # zip ps ?bss) \<Longrightarrow> load_bytes m q (length bs) = bs \<and> fits q (length bs)"
    using path_call_logged [OF assms(1) v(1), where path = path and args = "\<lambda>p. [p, ap, 0, 0, 0, 0]"
        and n = SYSCALL_EXEC and g = ret and oc = oc2 and w' = v1] by metis
  have "0 \<notin> set ps" using v(1) ps(1) by (fastforce simp: owned_def in_set_zip in_set_conv_nth)
  moreover have "load_bytes m ap (8 * (length argv + 1)) = ?tab"
    using keep [of ap ?tab] ps(1) by (simp add: add.commute)
  ultimately have "argv_at m ap (map (\<lambda>s. takeWhile (\<lambda>b. b \<noteq> 0) (as_bytes s)) argv)"
    using keep by (intro argv_at_blocks [OF ps(1)]) simp_all
  with t c v ps show ?thesis by auto
qed

end
