(* ===== verification/Start.thy ===== *)
theory Start
  imports Fmt_Io Buffers
begin

text \<open>
  \<^verbatim>\<open>usrlib_rust/src/lib.rs\<close>: the entry point \<open>_start\<close>, which turns the kernel's argument block into a
  slice of slices, sets the heap up, runs \<open>main\<close> and exits with its result; \<open>strlen\<close>, which loops
  until it meets a NUL byte; and the weak \<open>main\<close> a program without one is linked with.
\<close>

abbreviation lib_rs :: string where
  "lib_rs \<equiv> ''usrlib_rust/src/lib.rs''"

section \<open>The functions\<close>

partial_function (option) strlen_loop :: "memory \<Rightarrow> addr \<Rightarrow> addr option" where
  "strlen_loop m p = (if m p \<noteq> 0 then strlen_loop m (p + 1) else Some p)"

definition strlen :: "addr \<Rightarrow> ('k, u64) rust" where
  "strlen s w =
     Option.bind (strlen_loop (mem w) s) (\<lambda>p.
       if p < s then panic_at lib_rs 28 [str ''attempt to subtract with overflow''] w
       else ret (p - s) w)"

definition weak_main :: "u64 \<Rightarrow> slice list \<Rightarrow> ('k, u64) rust" where
  "weak_main argc argv = panic_at lib_rs 34 [str ''main() not found in user program.'']"

text \<open>\<open>argv[i]\<close> in a \<open>main\<close>: the bytes of one argument, a panic beyond the end of the array.\<close>

definition index_panic :: "string \<Rightarrow> nat \<Rightarrow> nat \<Rightarrow> nat \<Rightarrow> ('k, 'a) rust" where
  "index_panic f line len i = panic_at f line
     [str ''index out of bounds: the len is '', dec_digits len, str '' but the index is '', dec_digits i]"

definition read_arg :: "string \<Rightarrow> nat \<Rightarrow> slice list \<Rightarrow> nat \<Rightarrow> ('k, u8 list) rust" where
  "read_arg f line argv i =
     (if i < length argv then read_buffer (fst (argv ! i)) (unat (snd (argv ! i)))
      else index_panic f line (length argv) i)"

text \<open>\<open>fill_argv argv_raw is buf\<close>: the loop of \<open>_start\<close> over the indices \<open>is\<close>.\<close>

fun fill_argv :: "addr \<Rightarrow> nat list \<Rightarrow> slice list \<Rightarrow> ('k, slice list) rust" where
  "fill_argv argv_raw [] argv_buf = ret argv_buf"
| "fill_argv argv_raw (i # is) argv_buf =
     andthen (read_buffer (argv_raw + 8 * of_nat i) 8) (\<lambda>bytes.
     let arg = of_nat (from_le bytes) in
     andthen (strlen arg) (\<lambda>len.
     if i < length argv_buf then fill_argv argv_raw is (argv_buf[i := (arg, len)])
     else index_panic lib_rs 43 (length argv_buf) i))"

definition start ::
    "'k platform \<Rightarrow> (u64 \<Rightarrow> slice list \<Rightarrow> ('k, u64) rust) \<Rightarrow> u64 \<Rightarrow> addr \<Rightarrow> ('k, 'a) rust" where
  "start P main argc argv_raw =
     with_data P [0] (\<lambda>zero.
       andthen (fill_argv argv_raw [0..<unat argc] (replicate 16 (zero, 1))) (\<lambda>argv_buf.
       andthen (init_heap P) (\<lambda>_.
       andthen (main argc argv_buf) (\<lambda>r.
       exit P r))))"

section \<open>The length of a C string\<close>

lemma strlen_loop_cstr:
  assumes "0 \<notin> set bs" "load_bytes m p (Suc (length bs)) = bs @ [0]"
  shows "strlen_loop m p = Some (p + of_nat (length bs))"
  using assms
proof (induction bs arbitrary: p)
  case Nil
  then have "m p = 0" by (simp add: load_bytes_def)
  then show ?case by (simp add: strlen_loop.simps)
next
  case (Cons b bs)
  have "load_bytes m p (Suc (length (b # bs)))
      = load_bytes m p 1 @ load_bytes m (p + 1) (Suc (length bs))"
    using load_bytes_append [of m p 1 "Suc (length bs)"] by simp
  moreover have "load_bytes m p 1 = [m p]" by (simp add: load_bytes_def)
  ultimately have "b # bs @ [0] = m p # load_bytes m (p + 1) (Suc (length bs))"
    using Cons.prems(2) by simp
  then have "m p = b" "load_bytes m (p + 1) (Suc (length bs)) = bs @ [0]" by simp_all
  with Cons show ?case by (simp add: strlen_loop.simps [of m p] algebra_simps)
qed

lemma strlen_cstr:
  assumes "cstr_at (mem w) s bs"
  shows "strlen s w = Some (Value (of_nat (length bs)), w)"
proof -
  from assms have fit: "unat s + Suc (length bs) \<le> 2 ^ 64"
    and loop: "strlen_loop (mem w) s = Some (s + of_nat (length bs))"
    by (simp_all add: cstr_at_def fits_def strlen_loop_cstr)
  have "unat (of_nat (length bs) :: u64) = length bs" using fit by (intro unat_of_nat_u64) simp
  then have "unat (s + of_nat (length bs)) = unat s + length bs"
    using fit by (simp add: unat_plus_if')
  then have "\<not> s + of_nat (length bs) < s" by (simp add: word_less_nat_alt)
  with loop show ?thesis by (simp add: strlen_def rust_simps)
qed

text \<open>Without a NUL in memory the loop never ends.\<close>

lemma strlen_loop_nul: "strlen_loop m p = Some q \<Longrightarrow> m q = 0"
  by (rule strlen_loop.raw_induct [of "\<lambda>m p q. m q = 0", rotated]) (auto split: if_splits)

section \<open>The argument vector\<close>

lemma load_table:
  "load_bytes m ap (8 * length ptrs) = concat (map (\<lambda>p. to_le 8 (unat p)) ptrs) \<Longrightarrow> i < length ptrs \<Longrightarrow>
     load_bytes m (ap + 8 * of_nat i) 8 = to_le 8 (unat (ptrs ! i))"
proof (induction ptrs arbitrary: ap i)
  case Nil
  then show ?case by simp
next
  case (Cons q ptrs)
  have "load_bytes m ap (8 * length (q # ptrs))
      = load_bytes m ap 8 @ load_bytes m (ap + 8) (8 * length ptrs)"
    using load_bytes_append [of m ap 8 "8 * length ptrs"] by simp
  with Cons.prems(1) have "load_bytes m ap 8 = to_le 8 (unat q)"
    "load_bytes m (ap + 8) (8 * length ptrs) = concat (map (\<lambda>p. to_le 8 (unat p)) ptrs)"
    by (simp_all del: to_le.simps)
  note here = this
  show ?case
  proof (cases i)
    case 0
    with here(1) show ?thesis by (simp del: to_le.simps)
  next
    case (Suc j)
    have "load_bytes m (ap + 8 + 8 * of_nat j) 8 = to_le 8 (unat (ptrs ! j))"
      by (rule Cons.IH [OF here(2)]) (use Suc Cons.prems(2) in simp)
    moreover have "ap + 8 + 8 * of_nat j = ap + 8 * of_nat (Suc j)" by (simp add: algebra_simps)
    ultimately show ?thesis using Suc by (simp only: nth_Cons_Suc)
  qed
qed

lemma read_back [simp]: "of_nat (from_le (to_le 8 (unat p))) = (p :: addr)"
  using unat_u64_less [of p] by (simp add: from_le_to_le del: to_le.simps)

lemma read_pointer:
  assumes "argv_at m ap args"
  obtains ptrs where "\<forall>i<length args. load_bytes m (ap + 8 * of_nat i) 8 = to_le 8 (unat (ptrs ! i))"
    and "\<forall>i<length args. cstr_at m (ptrs ! i) (args ! i)"
proof -
  from assms obtain ptrs where p: "length ptrs = length args"
    "load_bytes m ap (8 * (length args + 1)) = concat (map (\<lambda>p. to_le 8 (unat p)) (ptrs @ [0]))"
    "list_all2 (cstr_at m) ptrs args" by (auto simp: argv_at_def)
  have table: "load_bytes m ap (8 * length (ptrs @ [0])) = concat (map (\<lambda>p. to_le 8 (unat p)) (ptrs @ [0]))"
    using p(1,2) by simp
  have "load_bytes m (ap + 8 * of_nat i) 8 = to_le 8 (unat (ptrs ! i))" if "i < length args" for i
    using load_table [OF table, of i] that p(1) by (simp add: nth_append del: to_le.simps)
  with p show thesis by (intro that) (auto simp: list_all2_conv_all_nth)
qed

definition slice_bytes :: "memory \<Rightarrow> slice \<Rightarrow> u8 list" where
  "slice_bytes m s = load_bytes m (fst s) (unat (snd s))"

lemma cstr_slice: "cstr_at m p bs \<Longrightarrow> slice_bytes m (p, of_nat (length bs)) = bs"
  using load_bytes_take [of m p "Suc (length bs)" "bs @ [0]" "length bs"]
  by (simp add: cstr_at_def slice_bytes_def fits_def)

lemma fill_argv_indices:
  assumes "\<And>i. i \<in> set is \<Longrightarrow> i < length buf"
    and "\<And>i. i \<in> set is \<Longrightarrow> load_bytes (mem w) (ap + 8 * of_nat i) 8 = to_le 8 (unat (ptrs ! i))"
    and "\<And>i. i \<in> set is \<Longrightarrow> cstr_at (mem w) (ptrs ! i) (args ! i)"
  shows "fill_argv ap is buf w
    = Some (Value (foldl (\<lambda>b i. b[i := (ptrs ! i, of_nat (length (args ! i)))]) buf is), w)"
  using assms
proof (induction "is" arbitrary: buf)
  case Nil
  then show ?case by (simp add: rust_simps)
next
  case (Cons i "is")
  have "strlen (ptrs ! i) w = Some (Value (of_nat (length (args ! i))), w)"
    by (rule strlen_cstr) (use Cons.prems(3) in simp)
  with Cons show ?case
    by (simp add: andthen_def read_buffer_def Let_def del: to_le.simps)
qed

lemma foldl_update:
  "n \<le> length buf \<Longrightarrow> foldl (\<lambda>b i. b[i := f i]) buf [0..<n] = map f [0..<n] @ drop n buf"
proof (induction n)
  case 0
  then show ?case by simp
next
  case (Suc n)
  then show ?case
    by (simp add: list_update_append Cons_nth_drop_Suc [symmetric])
qed

lemma fill_argv_append:
  "fill_argv ap (is @ js) buf = andthen (fill_argv ap is buf) (fill_argv ap js)"
  by (induction "is" arbitrary: buf) (auto simp: andthen_assoc Let_def if_distrib fun_eq_iff andthen_def
      index_panic_def panic_at_def split: Option.bind_splits outcome.splits)

lemma fill_argv_slices:
  assumes "argv_at (mem w) ap args" "length args \<le> length buf"
  obtains slices where "fill_argv ap [0..<length args] buf w = Some (Value (slices @ drop (length args) buf), w)"
    and "map (slice_bytes (mem w)) slices = args"
    and "\<forall>i<length args. load_bytes (mem w) (ap + 8 * of_nat i) 8 = to_le 8 (unat (fst (slices ! i))) \<and>
      snd (slices ! i) = of_nat (length (args ! i))"
proof -
  from assms(1) obtain ptrs where p:
    "\<forall>i<length args. load_bytes (mem w) (ap + 8 * of_nat i) 8 = to_le 8 (unat (ptrs ! i))"
    "\<forall>i<length args. cstr_at (mem w) (ptrs ! i) (args ! i)"
    by (rule read_pointer)
  let ?sl = "\<lambda>i. (ptrs ! i, of_nat (length (args ! i)))"
  have "fill_argv ap [0..<length args] buf w = Some (Value (foldl (\<lambda>b i. b[i := ?sl i]) buf [0..<length args]), w)"
    by (rule fill_argv_indices) (use assms(2) p in auto)
  moreover have "map (slice_bytes (mem w)) (map ?sl [0..<length args]) = args"
    by (rule nth_equalityI) (simp, simp add: cstr_slice [OF p(2) [rule_format]])
  ultimately show thesis
    unfolding foldl_update [OF assms(2), of ?sl] by (rule that) (simp add: p(1) del: to_le.simps)
qed

lemma fill_argv_at:
  assumes "argv_at (mem w) ap args" "length args \<le> length buf"
  shows "\<exists>slices. fill_argv ap [0..<length args] buf w = Some (Value (slices @ drop (length args) buf), w)
    \<and> map (slice_bytes (mem w)) slices = args"
  using fill_argv_slices [OF assms] by blast

lemma fill_argv_too_many:
  assumes "argv_at (mem w) ap args" "length buf < length args"
  shows "fill_argv ap [0..<length args] buf w = Some (Panicked \<lparr>pi_message =
      [str ''index out of bounds: the len is '', dec_digits (length buf),
       str '' but the index is '', dec_digits (length buf)], pi_file = lib_rs, pi_line = 43\<rparr>, w)"
proof -
  let ?n = "length buf"
  from assms(1) obtain ptrs where p:
    "\<forall>i<length args. load_bytes (mem w) (ap + 8 * of_nat i) 8 = to_le 8 (unat (ptrs ! i))"
    "\<forall>i<length args. cstr_at (mem w) (ptrs ! i) (args ! i)"
    by (rule read_pointer)
  let ?sl = "\<lambda>i. (ptrs ! i, of_nat (length (args ! i)))"
  have idx: "[0..<length args] = [0..<?n] @ ?n # [Suc ?n..<length args]"
    using assms(2) by (metis append_Cons append_Nil upt_add_eq_append upt_conv_Cons less_imp_le_nat
        le_add_diff_inverse zero_le)
  have "fill_argv ap [0..<?n] buf w = Some (Value (foldl (\<lambda>b i. b[i := ?sl i]) buf [0..<?n]), w)"
    by (rule fill_argv_indices) (use assms(2) p in auto)
  moreover have "length (foldl (\<lambda>b i. b[i := ?sl i]) buf [0..<?n]) = ?n"
    by (simp add: foldl_update)
  ultimately show ?thesis
    using p(1) assms(2) strlen_cstr [OF p(2) [rule_format, OF assms(2)]]
    unfolding idx fill_argv_append
    by (simp add: andthen_def read_buffer_def Let_def index_panic_def panic_at_def del: to_le.simps)
qed

lemma start_slices:
  assumes "argv_at ((mem w)(place P (length (trace w)) 1 := 0)) ap args" and "length args \<le> 16"
  obtains slices where "map (slice_bytes ((mem w)(place P (length (trace w)) 1 := 0))) slices = args"
    and "start P main (of_nat (length args)) ap w
      = andthen (main (of_nat (length args))
            (slices @ replicate (16 - length args) (place P (length (trace w)) 1, 1))) (exit P)
          (w\<lparr>mem := (mem w)(place P (length (trace w)) 1 := 0), heap := Some (heap_space P, HEAP_SIZE)\<rparr>)"
    and "\<forall>i<length args.
      load_bytes ((mem w)(place P (length (trace w)) 1 := 0)) (ap + 8 * of_nat i) 8 = to_le 8 (unat (fst (slices ! i))) \<and>
      snd (slices ! i) = of_nat (length (args ! i))"
proof -
  let ?z = "place P (length (trace w)) 1"
  let ?w = "w\<lparr>mem := (mem w)(?z := 0)\<rparr>"
  have a: "argv_at (mem ?w) ap args" "length args \<le> length (replicate 16 (?z, 1 :: u64))" using assms by simp_all
  obtain slices where
    f: "fill_argv ap [0..<length args] (replicate 16 (?z, 1)) ?w
        = Some (Value (slices @ drop (length args) (replicate 16 (?z, 1))), ?w)"
    and s: "map (slice_bytes (mem ?w)) slices = args"
    and i: "\<forall>i<length args. load_bytes (mem ?w) (ap + 8 * of_nat i) 8 = to_le 8 (unat (fst (slices ! i))) \<and>
      snd (slices ! i) = of_nat (length (args ! i))"
    by (rule fill_argv_slices [OF a])
  have n: "unat (of_nat (length args) :: u64) = length args"
    using assms(2) by (intro unat_of_nat_u64) simp
  have "start P main (of_nat (length args)) ap w
      = andthen (main (of_nat (length args)) (slices @ replicate (16 - length args) (?z, 1))) (exit P)
          (w\<lparr>mem := (mem w)(?z := 0), heap := Some (heap_space P, HEAP_SIZE)\<rparr>)"
    unfolding start_def with_data_def Let_def n
    using f by (simp add: andthen_def init_heap_def)
  with s i show thesis by (intro that [of slices]) simp_all
qed

lemma start_runs:
  assumes "argv_at ((mem w)(place P (length (trace w)) 1 := 0)) ap args" and "length args \<le> 16"
  shows "\<exists>slices. map (slice_bytes ((mem w)(place P (length (trace w)) 1 := 0))) slices = args \<and>
    start P main (of_nat (length args)) ap w
      = andthen (main (of_nat (length args))
            (slices @ replicate (16 - length args) (place P (length (trace w)) 1, 1))) (exit P)
          (w\<lparr>mem := (mem w)(place P (length (trace w)) 1 := 0), heap := Some (heap_space P, HEAP_SIZE)\<rparr>)"
  using start_slices [OF assms, of main] by blast

text \<open>A program started with one argument finds it in \<open>argv[1]\<close>, at the pointer of the second table entry.\<close>

lemma start_argument:
  assumes "argv_at ((mem w)(place P (length (trace w)) 1 := 0)) ap [name, bytes]"
  obtains argv p where "1 < length argv" and "argv ! 1 = (p, of_nat (length bytes))"
    and "load_bytes ((mem w)(place P (length (trace w)) 1 := 0)) (ap + 8) 8 = to_le 8 (unat p)"
    and "slice_bytes (mem (w\<lparr>mem := (mem w)(place P (length (trace w)) 1 := 0), heap := Some (heap_space P, HEAP_SIZE)\<rparr>)) (argv ! 1) = bytes"
    and "(start P main 2 ap w :: ('r outcome \<times> _) option) = andthen (main 2 argv) (exit P)
      (w\<lparr>mem := (mem w)(place P (length (trace w)) 1 := 0), heap := Some (heap_space P, HEAP_SIZE)\<rparr>)"
proof -
  let ?z = "place P (length (trace w)) 1"
  let ?args = "[name, bytes]"
  have "length ?args \<le> 16" by simp
  obtain slices where sl: "map (slice_bytes ((mem w)(?z := 0))) slices = ?args"
    and s: "(start P main (of_nat (length ?args)) ap w :: ('r outcome \<times> _) option)
      = andthen (main (of_nat (length ?args)) (slices @ replicate (16 - length ?args) (?z, 1))) (exit P)
          (w\<lparr>mem := (mem w)(?z := 0), heap := Some (heap_space P, HEAP_SIZE)\<rparr>)"
    and i: "\<forall>i<length ?args. load_bytes ((mem w)(?z := 0)) (ap + 8 * of_nat i) 8 = to_le 8 (unat (fst (slices ! i))) \<and>
      snd (slices ! i) = of_nat (length (?args ! i))"
    by (rule start_slices [OF assms \<open>length ?args \<le> 16\<close>])
  let ?argv = "slices @ replicate (16 - length ?args) (?z, 1)"
  have len: "length slices = 2" using arg_cong [OF sl, of length] by simp
  then have one: "?argv ! 1 = slices ! 1" by (simp only: nth_append) simp
  have "map (slice_bytes ((mem w)(?z := 0))) slices ! 1 = bytes" unfolding sl by simp
  then have b: "slice_bytes ((mem w)(?z := 0)) (slices ! 1) = bytes" using len by simp
  show thesis
  proof (rule that [of ?argv "fst (slices ! 1)"])
    show "?argv ! 1 = (fst (slices ! 1), of_nat (length bytes))"
      unfolding one using i [rule_format, of 1] by (simp add: prod_eq_iff del: to_le.simps)
    show "load_bytes ((mem w)(?z := 0)) (ap + 8) 8 = to_le 8 (unat (fst (slices ! 1)))"
      using i [rule_format, of 1] by (simp del: to_le.simps)
  qed (use s b len in \<open>simp_all only: one, simp_all\<close>)
qed

lemma argument_no_nul: "argv_at m ap [name, bytes] \<Longrightarrow> 0 \<notin> set bytes"
  by (auto simp: argv_at_def cstr_at_def list_all2_Cons2)

text \<open>The pointer is the one the table holds, and the length is that of the argument.\<close>

lemma argument_slice:
  assumes "load_bytes m a 8 = to_le 8 (unat p)" and "load_bytes m a 8 = to_le 8 (unat (q :: addr))"
    and "slice_bytes m' (p, of_nat (length bytes)) = bytes"
  shows "p = q" and "unat (of_nat (length bytes) :: u64) = length bytes"
proof -
  have "to_le 8 (unat p) = to_le 8 (unat q)" using assms(1,2) by metis
  from arg_cong [OF this, of "\<lambda>bs. of_nat (from_le bs) :: addr"] show "p = q" unfolding read_back .
  show "unat (of_nat (length bytes) :: u64) = length bytes"
    using arg_cong [OF assms(3), of length] by (simp add: slice_bytes_def)
qed

end
