(* ===== verification/Shell.thy ===== *)
theory Shell
  imports Command Start
begin

text \<open>
  \<^verbatim>\<open>parch_utils/shell/src/main.rs\<close>: the panic handler, the built-in commands, \<open>Command::execute\<close>,
  the prompt and the main loop. Every function is the source's, statement by statement; numbers after
  \<open>shell_rs\<close> are the lines of the unwraps, asserts and panics.
\<close>

section \<open>The panic handler\<close>

definition panic_handler :: "'k platform \<Rightarrow> panic_info \<Rightarrow> ('k, 'a) rust" where
  "panic_handler P = handle_panic (panic_report P ''Shell'') (exit P (- 1))"

section \<open>Running a command\<close>

definition lift_checked :: "'a checked \<Rightarrow> ('k, 'a) rust" where
  "lift_checked x w = (case x of Inl i \<Rightarrow> Some (Panicked i, w) | Inr y \<Rightarrow> Some (Value y, w))"

text \<open>
  \<open>redirect P lines fd path mode\<close>: close a standard descriptor, open the file, check that it took its
  place. \<open>child\<close> is the branch of \<open>execute\<close> in the forked process, \<open>parent\<close> the other one.
\<close>

definition redirect ::
    "'k platform \<Rightarrow> nat \<Rightarrow> string \<Rightarrow> file_descriptor \<Rightarrow> rstr \<Rightarrow> open_mode \<Rightarrow> ('k, errornum + unit) rust" where
  "redirect P line msg std path mode =
     try_then (close P std) (\<lambda>_.
     try_then (open_file P path mode) (\<lambda>fd.
     if fd \<noteq> std then panic_at shell_rs line ([str msg] @ fd_debug fd @ [str ''.''])
     else ret (Inr ())))"

definition todo :: "nat \<Rightarrow> ('k, 'a) rust" where
  "todo line = panic_at shell_rs line [str ''not yet implemented'']"

definition child :: "'k platform \<Rightarrow> command \<Rightarrow> ('k, errornum + u64) rust" where
  "child P c =
     try_then
       (case cmd_input c of
          File path \<Rightarrow> redirect P 221 ''Failed to re-open fd 0 to redirect input, re-opened fd is ''
            STDIN path om_READ
        | Cmd command \<Rightarrow> todo 225
        | Default \<Rightarrow> ret (Inr ())) (\<lambda>_.
     try_then
       (case cmd_output c of
          File path \<Rightarrow> redirect P 233 ''Failed to re-open fd 1 to redirect input, re-opened fd is ''
            STDOUT path (usize_or P om_WRITE om_CREATE)
        | _ \<Rightarrow> (case cmd_input c of Cmd command \<Rightarrow> todo 237 | _ \<Rightarrow> ret (Inr ()))) (\<lambda>_.
     try_then (exec P (exec_path c) (cmd_args c)) (\<lambda>_.
     ret (Inl ENOSYS))))"

definition parent :: "'k platform \<Rightarrow> u64 \<Rightarrow> ('k, errornum + u64) rust" where
  "parent P fork_res =
     with_data P (to_le 8 0) (\<lambda>ret_code.
       try_then (waitpid P fork_res ret_code) (\<lambda>_.
       andthen (read_buffer ret_code 8) (\<lambda>bytes.
       ret (Inr (of_nat (from_le bytes))))))"

definition execute :: "'k platform \<Rightarrow> command \<Rightarrow> ('k, errornum + u64) rust" where
  "execute P c =
     try_then (fork P) (\<lambda>fork_res. if fork_res = 0 then child P c else parent P fork_res)"

section \<open>The built-in commands\<close>

definition serve_cd :: "'k platform \<Rightarrow> rstr \<Rightarrow> ('k, errornum + unit) rust" where
  "serve_cd P cmd =
     andthen (unwrap_option shell_rs 30 (strip_prefix (str ''cd '') cmd)) (\<lambda>arg.
     try_then (chdir P (trim arg)) (\<lambda>_. ret (Inr ())))"

definition serve_exit :: "'k platform \<Rightarrow> rstr \<Rightarrow> ('k, 'a) rust" where
  "serve_exit P cmd = andthen (println_macro P [Lit (str ''Bye.'')]) (\<lambda>_. exit P 0)"

definition help_lines :: "rstr list" where
  "help_lines =
     [str ''Built-in commands:'',
      9 # str ''cd [dir]'' @ [9] @ str '': change current working directory.'',
      9 # str ''help'' @ [9] @ str '': display help message.'',
      9 # str ''shutdown'' @ [9] @ str '': shutdown the computer.'',
      9 # str ''reboot'' @ [9] @ str '': reboot the computer.'',
      9 # str ''exit'' @ [9] @ str '': exit shell.'',
      10 # str ''Please enter built-in commands, or path to elf file to execute.'']"

fun println_all :: "'k platform \<Rightarrow> rstr list \<Rightarrow> ('k, unit) rust" where
  "println_all P [] = ret ()"
| "println_all P (s # ss) = andthen (println_macro P [Lit s]) (\<lambda>_. println_all P ss)"

definition serve_help :: "'k platform \<Rightarrow> rstr \<Rightarrow> ('k, errornum + unit) rust" where
  "serve_help P cmd = andthen (println_all P help_lines) (\<lambda>_. ret (Inr ()))"

definition serve_exec :: "'k platform \<Rightarrow> rstr \<Rightarrow> ('k, errornum + unit) rust" where
  "serve_exec P cmd =
     try_then (map_err (\<lambda>_. ENOEXEC) (lift_checked (parse P cmd))) (\<lambda>cmd.
     try_then (execute P cmd) (\<lambda>code.
     andthen (println_macro P [Lit (str ''Program exited with code ''), Arg (display_isize code), Lit (str ''.'')]) (\<lambda>_.
     ret (Inr ()))))"

text \<open>\<open>ioctl(fd, 1, (), &mut ())\<close>: parameter and result are of size zero.\<close>

definition device_call :: "'k platform \<Rightarrow> nat \<Rightarrow> rstr \<Rightarrow> ('k, errornum + unit) rust" where
  "device_call P line path =
     andthen (open_file P path om_READ) (\<lambda>r.
     andthen (unwrap_result errornum_debug shell_rs line r) (\<lambda>fd.
     with_data P [] (\<lambda>res.
       try_then (ioctl P fd 1 [] (res, 0)) (\<lambda>_. ret (Inr ())))))"

definition serve_shutdown :: "'k platform \<Rightarrow> rstr \<Rightarrow> ('k, errornum + unit) rust" where
  "serve_shutdown P cmd = device_call P 58 (str ''/dev/poweroff'')"

definition serve_reboot :: "'k platform \<Rightarrow> rstr \<Rightarrow> ('k, errornum + unit) rust" where
  "serve_reboot P cmd = device_call P 64 (str ''/dev/reboot'')"

definition serve_command :: "'k platform \<Rightarrow> rstr \<Rightarrow> ('k, errornum + unit) rust" where
  "serve_command P cmd =
     (if starts_with (str ''cd '') cmd then serve_cd P cmd
      else if starts_with (str ''help'') cmd then serve_help P cmd
      else if starts_with (str ''exit'') cmd then serve_exit P cmd
      else if starts_with (str ''shutdown'') cmd then serve_shutdown P cmd
      else if starts_with (str ''reboot'') cmd then serve_reboot P cmd
      else serve_exec P cmd)"

section \<open>The prompt and the main loop\<close>

definition print_time :: "'k platform \<Rightarrow> file_descriptor \<Rightarrow> ('k, unit) rust" where
  "print_time P fd =
     with_data P (replicate 8 0) (\<lambda>buf.
     andthen (read_fd P fd (buf, 8)) (\<lambda>r.
     andthen (unwrap_result errornum_debug shell_rs 271 r) (\<lambda>n.
     if n \<noteq> 8 then
       panic_at shell_rs 271
         [str ''assertion failed: read(fd, &mut buf).unwrap() == core::mem::size_of::<usize>()'']
     else
       andthen (read_buffer buf 8) (\<lambda>bytes.
       let epoch = time_format P (int (from_le bytes)) 8 (str ''%F %r %z'') in
       andthen (close P fd) (\<lambda>r.
       andthen (unwrap_result errornum_debug shell_rs 274 r) (\<lambda>_.
       print_macro P [Lit (str '' ''), Arg [epoch], Lit (str '' $ '')]))))))"

definition print_header :: "'k platform \<Rightarrow> ('k, unit) rust" where
  "print_header P =
     andthen (getcwd P) (\<lambda>r.
     andthen (unwrap_result errornum_debug shell_rs 268 r) (\<lambda>cwd.
     andthen (print_macro P [Lit (str ''[ ''), Arg [cwd], Lit (str '' ]'')]) (\<lambda>_.
     andthen (open_file P (str ''/dev/rtc@101000'') om_READ) (\<lambda>opened.
     case opened of
       Inr fd \<Rightarrow> print_time P fd
     | Inl _ \<Rightarrow> print_macro P [Lit (str '' $ '')]))))"

definition report_error :: "'k platform \<Rightarrow> errornum + unit \<Rightarrow> ('k, unit) rust" where
  "report_error P res = (case res of
       Inl e \<Rightarrow> println_macro P [Lit (str ''Command failed with ''), Arg (errornum_debug e), Lit (str ''.'')]
     | Inr _ \<Rightarrow> ret ())"

partial_function (option) shell_loop :: "'k platform \<Rightarrow> ('k, unit) rust" where
  "shell_loop P w =
     andthen (print_header P) (\<lambda>_.
     andthen (get_line P) (\<lambda>r.
     case r of
       Inr line \<Rightarrow>
         andthen (serve_command P line) (\<lambda>res.
         andthen (report_error P res) (\<lambda>_.
         shell_loop P))
     | Inl _ \<Rightarrow> ret ())) w"

definition remap_stdin :: "'k platform \<Rightarrow> slice list \<Rightarrow> ('k, unit) rust" where
  "remap_stdin P argv =
     andthen (close P STDIN) (\<lambda>r.
     andthen (unwrap_result errornum_debug shell_rs 296 r) (\<lambda>_.
     andthen (read_arg shell_rs 297 argv 1) (\<lambda>bytes.
     andthen (unwrap_result utf8_error_debug shell_rs 297 (from_utf8 bytes)) (\<lambda>path.
     andthen (open_file P path om_READ) (\<lambda>r.
     andthen (unwrap_result errornum_debug shell_rs 297 r) (\<lambda>fd.
     if fd \<noteq> STDIN then
       panic_at shell_rs 299 ([str ''failed to redirect stdin. new fd = ''] @ fd_debug fd)
     else ret ()))))))"

definition shell_main :: "'k platform \<Rightarrow> u64 \<Rightarrow> slice list \<Rightarrow> ('k, u64) rust" where
  "shell_main P argc argv =
     andthen (println_macro P [Lit (str ''[shell] hello world!'')]) (\<lambda>_.
     andthen (if argc > 1 then remap_stdin P argv else ret ()) (\<lambda>_.
     andthen (shell_loop P) (\<lambda>_.
     andthen (println_macro P [Lit (str ''Cannot read further input. Exiting.'')]) (\<lambda>_.
     ret 0))))"

text \<open>The linked program: a panic anywhere in it ends in the handler.\<close>

definition shell_program :: "'k platform \<Rightarrow> u64 \<Rightarrow> addr \<Rightarrow> ('k, 'a) rust" where
  "shell_program P argc argv_raw =
     catch_panic (start P (shell_main P) argc argv_raw) (panic_handler P)"

end
