(* ===== verification/Console.thy ===== *)
theory Console
  imports Fmt_Io Buffers Str_Ops
begin

text \<open>
  What the functions of \<open>Fmt_Io\<close> compute. The locale \<open>byte_source\<close> is the interface between
  \<open>getchar_noecho\<close> and \<open>getbyte_noecho\<close>: a source that hands out the bytes of a pending input one
  at a time and then reports \<open>EEOF\<close>. \<open>console\<close> is the contract of the kernel for descriptors 0 and 1.
\<close>

section \<open>The bit tests of the decoder\<close>

lemma u8_cases: "(\<And>k. k < 256 \<Longrightarrow> Q (of_nat k :: u8)) \<Longrightarrow> Q b"
  using unat_u8_less [of b] by (metis ucast_id of_nat_unat)

lemma unat_low_bits:
  "unat (b AND 0x3F) = unat (b :: u8) mod 64"
  "unat (b AND 0x1F) = unat b mod 32"
  "unat (b AND 0x0F) = unat b mod 16"
  "unat (b AND 0x07) = unat b mod 8"
  "unat (b AND 0x03) = unat b mod 4"
  "unat (b AND 0x01) = unat b mod 2"
  using unat_and_mask [of b 6] unat_and_mask [of b 5] unat_and_mask [of b 4] unat_and_mask [of b 3]
    unat_and_mask [of b 2] unat_and_mask [of b 1]
  by (simp_all add: mask_eq_exp_minus_1)

lemma cont_bits: "(b AND 0xC0 = 0x80) \<longleftrightarrow> is_cont b"
proof -
  have "b AND 0xC0 = push_bit 6 (drop_bit 6 b)"
  proof (rule bit_word_eqI)
    fix n
    assume "n < LENGTH(8)"
    then have n: "n < 6 \<or> n = 6 \<or> n = 7" by auto
    have "(0xC0 :: u8) = push_bit 6 3" by (simp add: push_bit_eq_mult)
    with n show "bit (b AND 0xC0) n = bit (push_bit 6 (drop_bit 6 b)) n"
      by (auto simp only: bit_and_iff bit_push_bit_iff bit_drop_bit_eq o_def) simp_all
  qed
  moreover have "unat b div 64 < 256" "unat b div 64 * 64 < 256"
    using unat_u8_less [of b] div_times_less_eq_dividend [of "unat b" 64] by linarith+
  ultimately have "unat (b AND 0xC0) = unat b div 64 * 64"
    by (simp add: push_bit_eq_mult unat_drop_bit_eq drop_bit_eq_div unat_word_ariths)
  then show ?thesis
    by (auto simp: is_cont_def word_unat_eq_iff)
qed

lemma decoder_masks:
  "drop_bit 2 (0x7F :: u8) = 0x1F" "drop_bit 3 (0x7F :: u8) = 0x0F" "drop_bit 4 (0x7F :: u8) = 0x07"
  "drop_bit 5 (0x7F :: u8) = 0x03" "drop_bit 6 (0x7F :: u8) = 0x01"
  by (simp_all add: drop_bit_eq_div)

lemma accumulate:
  fixes buf :: u32 and b :: u8
  shows "unat (push_bit 6 buf) + unat (ucast (b AND 0x3F) :: u32) < 2 ^ 32"
    and "push_bit 6 buf + ucast (b AND 0x3F) = of_nat (unat buf * 64 + unat b mod 64)"
proof -
  have d: "unat (ucast (b AND 0x3F) :: u32) = unat b mod 64"
    using unat_u8_less [of b] by (simp add: unat_low_bits unsigned_ucast_eq take_bit_eq_mod)
  have "unat (push_bit 6 buf) = unat buf * 64 mod 2 ^ 32"
    by (simp add: push_bit_eq_mult unat_word_ariths)
  moreover have "x * 64 mod 2 ^ 32 = 64 * (x mod 2 ^ 26)" for x :: nat
    using mult_mod_right [of 64 x "2 ^ 26"] by (simp add: mult.commute)
  moreover have "unat buf mod 2 ^ 26 < 2 ^ 26" "unat b mod 64 < 64" by simp_all
  ultimately show "unat (push_bit 6 buf) + unat (ucast (b AND 0x3F) :: u32) < 2 ^ 32"
    unfolding d by simp
  have "(ucast (b AND 0x3F) :: u32) = of_nat (unat b mod 64)"
    unfolding d [symmetric] by simp
  then show "push_bit 6 buf + ucast (b AND 0x3F) = of_nat (unat buf * 64 + unat b mod 64)"
    by (simp add: push_bit_eq_mult)
qed

section \<open>One character off a byte sequence\<close>

text \<open>
  \<open>take_char bs\<close> is the character \<open>getchar_noecho\<close> makes of the input \<open>bs\<close> and the bytes it leaves,
  \<open>None\<close> when the input ends before the announced number of bytes.
\<close>

definition char_or_replacement :: "u32 \<Rightarrow> rchar" where
  "char_or_replacement n = (case char_from_u32 n of None \<Rightarrow> replacement_char | Some c \<Rightarrow> c)"

fun take_rest :: "nat \<Rightarrow> u32 \<Rightarrow> u8 list \<Rightarrow> (rchar \<times> u8 list) option" where
  "take_rest 0 buf bs = Some (char_or_replacement buf, bs)"
| "take_rest (Suc n) buf [] = None"
| "take_rest (Suc n) buf (b # bs) =
     (if is_cont b then take_rest n (of_nat (unat buf * 64 + unat b mod 64)) bs
      else Some (replacement_char, bs))"

fun take_char :: "u8 list \<Rightarrow> (rchar \<times> u8 list) option" where
  "take_char [] = None"
| "take_char (b # bs) =
     (if b < 0x80 then Some (ucast b, bs)
      else (case seq_length b of
              None \<Rightarrow> Some (replacement_char, bs)
            | Some len \<Rightarrow> take_rest (len - 1) (ucast (b AND drop_bit len 0x7F)) bs))"

lemma char_or_replacement_scalar [simp]:
  "is_scalar (char_or_replacement n)"
  "is_scalar n \<Longrightarrow> char_or_replacement n = n"
  by (simp_all add: char_or_replacement_def char_from_u32_def)

lemma seq_length_range: "seq_length b = Some len \<Longrightarrow> 2 \<le> len \<and> len \<le> 6"
  by (auto simp: seq_length_def split: if_splits)

lemma take_rest_bounds:
  "take_rest n buf bs = Some (c, r) \<Longrightarrow>
     is_scalar c \<and> length r \<le> length bs \<and> length bs \<le> length r + n"
  by (induction n buf bs rule: take_rest.induct) (auto split: if_splits)

lemma ucast_ascii_scalar: "b < 0x80 \<Longrightarrow> is_scalar (ucast (b :: u8))"
  by (simp add: is_scalar_unat unsigned_ucast_eq take_bit_eq_mod word_less_nat_alt)

lemma take_char_bounds:
  assumes "take_char bs = Some (c, r)"
  shows "is_scalar c \<and> length r < length bs \<and> length bs \<le> length r + 6"
proof (cases bs)
  case Nil
  with assms show ?thesis by simp
next
  case (Cons b bs')
  with assms show ?thesis
    by (fastforce split: if_splits option.splits
        dest: take_rest_bounds seq_length_range simp: ucast_ascii_scalar)
qed

lemma mod_of_multiple: "k < m \<Longrightarrow> (q * m + k) mod m = (k :: nat)"
  by simp

lemma take_rest_cont:
  assumes "j < 64"
  shows "take_rest (Suc n) (of_nat a) (of_nat (0x80 + j) # bs) = take_rest n (of_nat (a * 64 + j)) bs"
proof -
  have u: "unat (of_nat (0x80 + j) :: u8) = 2 * 64 + j"
    by (subst unat_of_nat_u8) (use assms in simp_all)
  with assms have "is_cont (of_nat (0x80 + j))" by (simp add: is_cont_def del: of_nat_add)
  then show ?thesis
    unfolding take_rest.simps u mod_of_multiple [OF assms] by simp
qed

lemma lead_bits:
  "(ucast (b AND 0x1F) :: u32) = of_nat (unat (b :: u8) mod 32)"
  "(ucast (b AND 0x0F) :: u32) = of_nat (unat b mod 16)"
  "(ucast (b AND 0x07) :: u32) = of_nat (unat b mod 8)"
  unfolding unat_low_bits [symmetric] by simp_all

lemma take_char_lead:
  "k < 96 \<Longrightarrow> take_char (of_nat (0x80 + k) # bs) = take_rest 1 (of_nat (k mod 32)) bs"
  "k < 16 \<Longrightarrow> take_char (of_nat (0xE0 + k) # bs) = take_rest 2 (of_nat k) bs"
  "k < 8 \<Longrightarrow> take_char (of_nat (0xF0 + k) # bs) = take_rest 3 (of_nat k) bs"
proof -
  assume k: "k < 96"
  have u: "unat (of_nat (0x80 + k) :: u8) = 4 * 32 + k"
    by (subst unat_of_nat_u8) (use k in simp_all)
  moreover have "(4 * 32 + k) mod 32 = k mod 32" by (rule mod_mult_self3)
  ultimately show "take_char (of_nat (0x80 + k) # bs) = take_rest 1 (of_nat (k mod 32)) bs"
    using k by (simp add: seq_length_def word_less_nat_alt decoder_masks lead_bits del: of_nat_add)
next
  assume k: "k < 16"
  have u: "unat (of_nat (0xE0 + k) :: u8) = 14 * 16 + k"
    by (subst unat_of_nat_u8) (use k in simp_all)
  with k show "take_char (of_nat (0xE0 + k) # bs) = take_rest 2 (of_nat k) bs"
    using mod_of_multiple [OF k, of 14]
    by (simp add: seq_length_def word_less_nat_alt decoder_masks lead_bits del: of_nat_add)
next
  assume k: "k < 8"
  have u: "unat (of_nat (0xF0 + k) :: u8) = 30 * 8 + k"
    by (subst unat_of_nat_u8) (use k in simp_all)
  with k show "take_char (of_nat (0xF0 + k) # bs) = take_rest 3 (of_nat k) bs"
    using mod_of_multiple [OF k, of 30]
    by (simp add: seq_length_def word_less_nat_alt decoder_masks lead_bits del: of_nat_add)
qed

text \<open>Any lead and continuation digits, overlong forms included, make the character of their value.\<close>

lemma take_char_digits:
  "k < 128 \<Longrightarrow> take_char (of_nat k # bs) = Some (of_nat k, bs)"
  "k < 32 \<Longrightarrow> j < 64 \<Longrightarrow> take_char (of_nat (0xC0 + k) # of_nat (0x80 + j) # bs)
     = Some (char_or_replacement (of_nat (k * 64 + j)), bs)"
  "k < 16 \<Longrightarrow> j < 64 \<Longrightarrow> l < 64 \<Longrightarrow>
     take_char (of_nat (0xE0 + k) # of_nat (0x80 + j) # of_nat (0x80 + l) # bs)
     = Some (char_or_replacement (of_nat ((k * 64 + j) * 64 + l)), bs)"
  "k < 8 \<Longrightarrow> j < 64 \<Longrightarrow> l < 64 \<Longrightarrow> m < 64 \<Longrightarrow>
     take_char (of_nat (0xF0 + k) # of_nat (0x80 + j) # of_nat (0x80 + l) # of_nat (0x80 + m) # bs)
     = Some (char_or_replacement (of_nat (((k * 64 + j) * 64 + l) * 64 + m)), bs)"
proof -
  show "take_char (of_nat k # bs) = Some (of_nat k, bs)" if "k < 128"
  proof -
    have u: "unat (of_nat k :: u8) = k" using that by simp
    have "ucast (of_nat k :: u8) = (of_nat (unat (of_nat k :: u8)) :: u32)" by (simp only: of_nat_unat)
    with u that show ?thesis by (simp add: word_less_nat_alt)
  qed
  show "take_char (of_nat (0xC0 + k) # of_nat (0x80 + j) # bs)
     = Some (char_or_replacement (of_nat (k * 64 + j)), bs)" if h: "k < 32" "j < 64"
  proof -
    have m: "(2 * 32 + k) mod 32 = k" using h(1) by (rule mod_of_multiple)
    have "(0xC0 :: nat) + k = 0x80 + (2 * 32 + k)" by simp
    then show ?thesis
      using take_char_lead(1) [of "2 * 32 + k" "of_nat (0x80 + j) # bs"] h
        take_rest_cont [OF h(2), of 0 k bs] unfolding m One_nat_def by simp
  qed
  show "take_char (of_nat (0xE0 + k) # of_nat (0x80 + j) # of_nat (0x80 + l) # bs)
     = Some (char_or_replacement (of_nat ((k * 64 + j) * 64 + l)), bs)"
    if h: "k < 16" "j < 64" "l < 64"
    unfolding take_char_lead(2) [OF h(1)] numeral_2_eq_2 take_rest_cont [OF h(2)]
      take_rest_cont [OF h(3)] take_rest.simps(1) ..
  show "take_char (of_nat (0xF0 + k) # of_nat (0x80 + j) # of_nat (0x80 + l) # of_nat (0x80 + m) # bs)
     = Some (char_or_replacement (of_nat (((k * 64 + j) * 64 + l) * 64 + m)), bs)"
    if h: "k < 8" "j < 64" "l < 64" "m < 64"
    unfolding take_char_lead(3) [OF h(1)] numeral_3_eq_3 take_rest_cont [OF h(2)]
      take_rest_cont [OF h(3)] take_rest_cont [OF h(4)] take_rest.simps(1) ..
qed

lemma take_char_encode:
  assumes "is_scalar c"
  shows "take_char (utf8_encode c @ rest) = Some (c, rest)"
proof -
  let ?n = "unat c"
  have c: "of_nat ?n = c" by simp
  from assms have sc: "?n < 0xD800 \<or> (0xE000 \<le> ?n \<and> ?n \<le> 0x10FFFF)"
    by (simp only: is_scalar_unat)
  consider "?n < 0x80" | "0x80 \<le> ?n" "?n < 0x800" | "0x800 \<le> ?n" "?n < 0x10000"
    | "0x10000 \<le> ?n" "?n \<le> 0x10FFFF"
    using sc by linarith
  then show ?thesis
  proof cases
    case 1
    then show ?thesis
      using take_char_digits(1) [of ?n rest] c by (simp only: utf8_encode_by_length(1)) simp
  next
    case 2
    then have "?n div 64 < 32" by auto
    then show ?thesis
      unfolding utf8_encode_by_length(2) [OF 2]
      using take_char_digits(2) [of "?n div 64" "?n mod 64" rest, unfolded base64_digits c] assms
      by simp
  next
    case 3
    then have "?n div 4096 < 16" by auto
    then show ?thesis
      unfolding utf8_encode_by_length(3) [OF 3]
      using take_char_digits(3) [of "?n div 4096" "?n div 64 mod 64" "?n mod 64" rest, unfolded base64_digits c] assms
      by simp
  next
    case 4
    then have "?n div 262144 < 8" by auto
    then show ?thesis
      unfolding utf8_encode_by_length(4) [OF 4(1)]
      using take_char_digits(4) [of "?n div 262144" "?n div 4096 mod 64" "?n div 64 mod 64" "?n mod 64" rest,
          unfolded base64_digits c] assms
      by simp
  qed
qed

section \<open>Byte sources\<close>

definition got :: "(rchar \<times> u8 list) option \<Rightarrow> errornum + rchar" where
  "got t = (case t of None \<Rightarrow> Inl EEOF | Some (c, _) \<Rightarrow> Inr c)"

definition left_over :: "(rchar \<times> u8 list) option \<Rightarrow> u8 list" where
  "left_over t = (case t of None \<Rightarrow> [] | Some (_, r) \<Rightarrow> r)"

lemma got_simps [simp]:
  "got None = Inl EEOF" "got (Some (c, r)) = Inr c"
  "left_over None = []" "left_over (Some (c, r)) = r"
  by (simp_all add: got_def left_over_def)

locale byte_source = world_frame R
  for R :: "'k world \<Rightarrow> 'k world \<Rightarrow> bool" +
  fixes get :: "('k, errornum + u8) rust"
    and ok :: "'k world \<Rightarrow> bool"
    and pending :: "'k world \<Rightarrow> u8 list"
  assumes get_end: "ok w \<Longrightarrow> pending w = [] \<Longrightarrow>
      \<exists>w'. get w = Some (Value (Inl EEOF), w') \<and> ok w' \<and> pending w' = [] \<and> R w w'"
    and get_byte: "ok w \<Longrightarrow> pending w = b # bs \<Longrightarrow>
      \<exists>w'. get w = Some (Value (Inr b), w') \<and> ok w' \<and> pending w' = bs \<and> R w w'"
begin

lemma decode_rest_spec:
  assumes "ok w"
  shows "\<exists>w'. decode_rest get n buf w = Some (Value (got (take_rest n buf (pending w))), w') \<and>
    ok w' \<and> pending w' = left_over (take_rest n buf (pending w)) \<and> R w w'"
  using assms
proof (induction n arbitrary: buf w)
  case 0
  then show ?case
    by (auto simp: char_or_replacement_def ret_def refl split: option.splits)
next
  case (Suc n)
  show ?case
  proof (cases "pending w")
    case Nil
    from get_end [OF Suc.prems this] Nil show ?thesis by (auto simp: rust_simps)
  next
    case (Cons b bs)
    from get_byte [OF Suc.prems this] obtain w1 where
      w1: "get w = Some (Value (Inr b), w1)" "ok w1" "pending w1 = bs" "R w w1" by blast
    show ?thesis
    proof (cases "is_cont b")
      case False
      with w1 Cons show ?thesis by (auto simp: cont_bits rust_simps)
    next
      case True
      let ?buf = "of_nat (unat buf * 64 + unat b mod 64) :: u32"
      from Suc.IH [OF w1(2), of ?buf] obtain w2 where
        w2: "decode_rest get n ?buf w1 = Some (Value (got (take_rest n ?buf bs)), w2)" "ok w2"
          "pending w2 = left_over (take_rest n ?buf bs)" "R w1 w2" unfolding w1(3) by blast
      have run: "decode_rest get (Suc n) buf w = decode_rest get n ?buf w1"
        using True w1(1) accumulate [of buf b]
        by (simp add: cont_bits rust_simps Let_def del: of_nat_add of_nat_mult)
      have take: "take_rest (Suc n) buf (pending w) = take_rest n ?buf bs"
        using True Cons by simp
      show ?thesis unfolding run take using w2 trans [OF w1(4) w2(4)] by blast
    qed
  qed
qed

lemma decode_char_spec:
  assumes "ok w"
  shows "\<exists>w'. decode_char get w = Some (Value (got (take_char (pending w))), w') \<and>
    ok w' \<and> pending w' = left_over (take_char (pending w)) \<and> R w w'"
proof (cases "pending w")
  case Nil
  from get_end [OF assms this] Nil show ?thesis by (auto simp: decode_char_def rust_simps)
next
  case (Cons b bs)
  from get_byte [OF assms this] obtain w1 where
    w1: "get w = Some (Value (Inr b), w1)" "ok w1" "pending w1 = bs" "R w w1" by blast
  show ?thesis
  proof (cases "b < 0x80 \<or> seq_length b = None")
    case True
    with w1 Cons show ?thesis by (auto simp: decode_char_def rust_simps)
  next
    case False
    then obtain len where len: "seq_length b = Some len" "\<not> b < 0x80" by auto
    let ?n = "len - 1" and ?buf = "ucast (b AND drop_bit len 0x7F)"
    from decode_rest_spec [OF w1(2), of ?n ?buf] obtain w2 where
      w2: "decode_rest get ?n ?buf w1 = Some (Value (got (take_rest ?n ?buf bs)), w2)" "ok w2"
        "pending w2 = left_over (take_rest ?n ?buf bs)" "R w1 w2" unfolding w1(3) by blast
    have run: "decode_char get w = decode_rest get ?n ?buf w1"
      using len w1(1) by (simp add: decode_char_def rust_simps)
    have take: "take_char (pending w) = take_rest ?n ?buf bs" using len Cons by simp
    show ?thesis unfolding run take using w2 trans [OF w1(4) w2(4)] by blast
  qed
qed

end

section \<open>The console\<close>

text \<open>
  Descriptor 0 delivers the pending input byte by byte and a count of zero at its end, descriptor 1
  takes every byte it is given; \<open>ready\<close> is the invariant of the kernel state this relies on.
\<close>

definition console ::
    "'k platform \<Rightarrow> ('k \<Rightarrow> bool) \<Rightarrow> ('k \<Rightarrow> u8 list) \<Rightarrow> ('k \<Rightarrow> u8 list) \<Rightarrow> bool" where
  "console P ready inp out \<longleftrightarrow>
     (\<forall>k m p. ready k \<longrightarrow>
        (\<exists>k'. ecall P SYSCALL_READ [0, p, 1, 0, 0, 0] m k
              = (case inp k of [] \<Rightarrow> Resume 0 0 m k' | b # bs \<Rightarrow> Resume 1 0 (m(p := b)) k') \<and>
           ready k' \<and> inp k' = tl (inp k) \<and> out k' = out k)) \<and>
     (\<forall>k m p n. ready k \<longrightarrow>
        (\<exists>k'. ecall P SYSCALL_WRITE [1, p, n, 0, 0, 0] m k = Resume n 0 m k' \<and>
           ready k' \<and> inp k' = inp k \<and> out k' = out k @ load_bytes m p (unat n)))"

definition on_console :: "'k platform \<Rightarrow> ('k \<Rightarrow> bool) \<Rightarrow> ('k \<Rightarrow> u8 list) \<Rightarrow> ('k \<Rightarrow> u8 list) \<Rightarrow> 'k world \<Rightarrow> bool" where
  "on_console P ready inp out w \<longleftrightarrow> console P ready inp out \<and> ready (kern w)"

text \<open>\<open>quiet\<close>: nothing printed, no block taken or lost.\<close>

definition quiet :: "('k \<Rightarrow> u8 list) \<Rightarrow> 'k world \<Rightarrow> 'k world \<Rightarrow> bool" where
  "quiet out w w' \<longleftrightarrow> out (kern w') = out (kern w) \<and> live w' = live w \<and> heap w' = heap w"

lemma world_frame_quiet: "world_frame (quiet out)"
  by unfold_locales (auto simp: quiet_def)

lemma console_read:
  assumes "on_console P ready inp out w"
  obtains k' where "ecall P SYSCALL_READ [0, p, 1, 0, 0, 0] m (kern w)
      = (case inp (kern w) of [] \<Rightarrow> Resume 0 0 m k' | b # bs \<Rightarrow> Resume 1 0 (m(p := b)) k')"
    "ready k'" "inp k' = tl (inp (kern w))" "out k' = out (kern w)"
  using assms unfolding on_console_def console_def by blast

lemma console_write:
  assumes "on_console P ready inp out w"
  obtains k' where "ecall P SYSCALL_WRITE [1, p, n, 0, 0, 0] m (kern w) = Resume n 0 m k'"
    "ready k'" "inp k' = inp (kern w)" "out k' = out (kern w) @ load_bytes m p (unat n)"
  using assms unfolding on_console_def console_def by blast

lemmas getbyte_defs = getbyte_noecho_def with_data_def Let_def read_fd_def read_raw_def STDIN_def
  on_console_def quiet_def read_buffer_def load_bytes_def

lemma getbyte_end:
  assumes "on_console P ready inp out w" and "inp (kern w) = []"
  shows "\<exists>w'. getbyte_noecho P w = Some (Value (Inl EEOF), w') \<and> on_console P ready inp out w' \<and>
    inp (kern w') = [] \<and> quiet out w w'"
  by (rule console_read [OF assms(1), of "place P (length (trace w)) (length [0 :: u8])"
        "store_bytes (mem w) (place P (length (trace w)) (length [0 :: u8])) [0]"])
    (use assms in \<open>simp add: getbyte_defs rust_simps\<close>)

lemma getbyte_next:
  assumes "on_console P ready inp out w" and "inp (kern w) = b # bs"
  shows "\<exists>w'. getbyte_noecho P w = Some (Value (Inr b), w') \<and> on_console P ready inp out w' \<and>
    inp (kern w') = bs \<and> quiet out w w'"
  by (rule console_read [OF assms(1), of "place P (length (trace w)) (length [0 :: u8])"
        "store_bytes (mem w) (place P (length (trace w)) (length [0 :: u8])) [0]"])
    (use assms in \<open>simp add: getbyte_defs rust_simps\<close>)

interpretation getbyte: byte_source "quiet out" "getbyte_noecho P" "on_console P ready inp out"
    "\<lambda>w. inp (kern w)"
  for P :: "'k platform" and ready inp out
  using world_frame_quiet [of out]
  by (simp add: byte_source_def byte_source_axioms_def getbyte_end getbyte_next)

text \<open>
  What a call does on the console: the input it leaves and the bytes it prints; the heap is as before.
\<close>

definition talks ::
    "('k \<Rightarrow> u8 list) \<Rightarrow> ('k \<Rightarrow> u8 list) \<Rightarrow> u8 list \<Rightarrow> u8 list \<Rightarrow> 'k world \<Rightarrow> 'k world \<Rightarrow> bool" where
  "talks inp out rest bs w w' \<longleftrightarrow> inp (kern w') = rest \<and> out (kern w') = out (kern w) @ bs \<and>
     live w' = live w \<and> heap w' = heap w"

abbreviation prints ::
    "('k \<Rightarrow> u8 list) \<Rightarrow> ('k \<Rightarrow> u8 list) \<Rightarrow> u8 list \<Rightarrow> 'k world \<Rightarrow> 'k world \<Rightarrow> bool" where
  "prints inp out bs w w' \<equiv> talks inp out (inp (kern w)) bs w w'"

lemma talks_trans:
  "talks inp out r as u v \<Longrightarrow> talks inp out r' bs v w \<Longrightarrow> talks inp out r' (as @ bs) u w"
  by (simp add: talks_def)

lemma talks_inp: "talks inp out r bs w w' \<Longrightarrow> inp (kern w') = r"
  by (simp add: talks_def)

lemma write_str_memory:
  assumes "on_console P ready inp out w" and "str_len s < 2 ^ 64"
  shows "\<exists>w'. write_str P s w = Some (Value (Inr ()), w') \<and> on_console P ready inp out w' \<and>
    prints inp out (as_bytes s) w w' \<and>
    mem w' = store_bytes (mem w) (place P (length (trace w)) (length (as_bytes s))) (as_bytes s)"
proof -
  let ?bs = "as_bytes s"
  let ?p = "place P (length (trace w)) (length ?bs)" and ?n = "of_nat (length ?bs) :: u64"
  let ?m = "store_bytes (mem w) ?p ?bs"
  from assms(2) have n: "unat ?n = length ?bs" by (simp add: str_len_def)
  obtain k' where k: "ecall P SYSCALL_WRITE [1, ?p, ?n, 0, 0, 0] ?m (kern w) = Resume ?n 0 ?m k'"
    "ready k'" "inp k' = inp (kern w)" "out k' = out (kern w) @ load_bytes ?m ?p (unat ?n)"
    by (rule console_write [OF assms(1)])
  have "load_bytes ?m ?p (unat ?n) = ?bs"
    using assms(2) by (simp add: n str_len_def)
  with k assms(1) show ?thesis
    by (simp add: write_str_def with_data_def Let_def write_fd_def write_raw_def STDOUT_def
        map_err_def rust_simps on_console_def talks_def)
qed

lemma write_str_console:
  assumes "on_console P ready inp out w" and "str_len s < 2 ^ 64"
  shows "\<exists>w'. write_str P s w = Some (Value (Inr ()), w') \<and> on_console P ready inp out w' \<and>
    prints inp out (as_bytes s) w w'"
  using write_str_memory [OF assms] by blast

lemma write_fmt_console:
  assumes "on_console P ready inp out w" and "\<forall>s\<in>set ss. str_len s < 2 ^ 64"
  shows "\<exists>w'. write_fmt P ss w = Some (Value (Inr ()), w') \<and> on_console P ready inp out w' \<and>
    prints inp out (as_bytes (concat ss)) w w'"
  using assms
proof (induction ss arbitrary: w)
  case Nil
  then show ?case by (auto simp: rust_simps talks_def)
next
  case (Cons s ss)
  then obtain w1 where w1: "write_str P s w = Some (Value (Inr ()), w1)" "on_console P ready inp out w1"
    "prints inp out (as_bytes s) w w1" using write_str_console by fastforce
  with Cons.IH [OF w1(2)] Cons.prems(2) obtain w2 where
    "write_fmt P ss w1 = Some (Value (Inr ()), w2)" "on_console P ready inp out w2"
    "prints inp out (as_bytes (concat ss)) w1 w2" by auto
  with w1 show ?case by (auto simp: rust_simps talks_def)
qed

lemma print_console:
  assumes "on_console P ready inp out w" and "\<forall>s\<in>set ss. str_len s < 2 ^ 64"
  shows "\<exists>w'. print P ss w = Some (Value (), w') \<and> on_console P ready inp out w' \<and>
    prints inp out (as_bytes (concat ss)) w w'"
  using write_fmt_console [OF assms] by (auto simp: print_def rust_simps)

section \<open>Characters and lines from the console\<close>

definition echo :: "rchar \<Rightarrow> u8 list" where
  "echo c = (if c = 13 then [10] else []) @ utf8_encode c"

lemma getchar_noecho_console:
  assumes "on_console P ready inp out w"
  shows "\<exists>w'. getchar_noecho P w = Some (Value (got (take_char (inp (kern w)))), w') \<and>
    on_console P ready inp out w' \<and> talks inp out (left_over (take_char (inp (kern w)))) [] w w'"
  using getbyte.decode_char_spec [OF assms]
  by (auto simp: getchar_noecho_def quiet_def talks_def)

lemma small_pieces: "\<forall>s\<in>set [[c]]. str_len s < 2 ^ 64" "\<forall>s\<in>set [[8, 32, 8]]. str_len s < 2 ^ 64"
  using length_as_bytes_bound [of "[c]"] length_as_bytes_bound [of "[8, 32, 8]"]
  by (auto simp: str_len_def simp del: as_bytes_simps)

lemma getchar_console:
  assumes on: "on_console P ready inp out w"
  shows "\<exists>w'. getchar P w = Some (Value (got (take_char (inp (kern w)))), w') \<and>
    on_console P ready inp out w' \<and>
    talks inp out (left_over (take_char (inp (kern w))))
      (case take_char (inp (kern w)) of None \<Rightarrow> [] | Some (c, _) \<Rightarrow> echo c) w w'"
proof (cases "take_char (inp (kern w))")
  case None
  with getchar_noecho_console [OF on] show ?thesis by (auto simp: getchar_def rust_simps)
next
  case (Some t)
  obtain c r where t: "t = (c, r)" by (cases t)
  from getchar_noecho_console [OF on] Some t obtain w1 where
    w1: "getchar_noecho P w = Some (Value (Inr c), w1)" "on_console P ready inp out w1"
      "talks inp out r [] w w1" by auto
  have "\<exists>w2. (if c = 13 then print_macro P [Lit [10]] else ret ()) w1 = Some (Value (), w2) \<and>
      on_console P ready inp out w2 \<and> prints inp out (if c = 13 then [10] else []) w1 w2"
    using print_console [OF w1(2) small_pieces(1) [of 10]] w1(2)
    by (auto simp: print_macro_def ret_def talks_def utf8_encode_ascii)
  then obtain w2 where
    w2: "(if c = 13 then print_macro P [Lit [10]] else ret ()) w1 = Some (Value (), w2)"
      "on_console P ready inp out w2" "prints inp out (if c = 13 then [10] else []) w1 w2" by blast
  from print_console [OF w2(2) small_pieces(1) [of c]] obtain w3 where
    w3: "print_macro P [Arg [[c]]] w2 = Some (Value (), w3)" "on_console P ready inp out w3"
      "prints inp out (utf8_encode c) w2 w3" by (auto simp: print_macro_def)
  have "talks inp out r (echo c) w w3"
    using w1(3) w2(3) w3(3) by (auto simp: talks_def echo_def)
  with w1 w2 w3 Some t show ?thesis by (simp add: getchar_def rust_simps)
qed

text \<open>
  \<open>line_spec res bs\<close>: the line \<open>get_line\<close> makes of the input \<open>bs\<close> when it already has \<open>res\<close>, the input
  it leaves (\<open>None\<close> when the input ends before the line), and what appears on the console.
\<close>

function line_spec :: "rstr \<Rightarrow> u8 list \<Rightarrow> (rstr \<times> u8 list) option \<times> u8 list" where
  "line_spec res bs =
     (case take_char bs of
        None \<Rightarrow> (None, [])
      | Some (c, r) \<Rightarrow>
          if c = 13 \<or> c = 10 then (Some (res, r), echo c)
          else if c = 0x7F then
            (fst (line_spec (butlast res) r),
             echo c @ (if res = [] then [] else [8, 32, 8]) @ snd (line_spec (butlast res) r))
          else (fst (line_spec (res @ [c]) r), echo c @ snd (line_spec (res @ [c]) r)))"
  by pat_completeness auto
termination
  by (relation "measure (\<lambda>(res, bs). length bs)") (auto dest: take_char_bounds)

declare line_spec.simps [simp del]

definition got_line :: "(rstr \<times> u8 list) option \<Rightarrow> errornum + rstr" where
  "got_line t = (case t of None \<Rightarrow> Inl EEOF | Some (s, _) \<Rightarrow> Inr s)"

definition line_rest :: "(rstr \<times> u8 list) option \<Rightarrow> u8 list" where
  "line_rest t = (case t of None \<Rightarrow> [] | Some (_, r) \<Rightarrow> r)"

text \<open>One key that does not end the line: the loop goes on with the line it edited and the input after the key.\<close>

lemma get_line_goes_on:
  assumes on: "on_console P ready inp out w" and key: "take_char (inp (kern w)) = Some (c, r)" and "c \<notin> {13, 10}"
  shows "\<exists>w' res' bs. get_line_loop P res w = get_line_loop P res' w' \<and> on_console P ready inp out w' \<and>
    talks inp out r bs w w' \<and>
    line_spec res (inp (kern w)) = (fst (line_spec res' r), bs @ snd (line_spec res' r))"
proof -
  from getchar_console [OF on] obtain w1 where
    w1: "getchar P w = Some (Value (Inr c), w1)" "on_console P ready inp out w1"
      "talks inp out r (echo c) w w1" by (auto simp: key)
  note spec = line_spec.simps [of res "inp (kern w)"]
  consider "c = 0x7F" "res = []" | "c = 0x7F" "res \<noteq> []" | "c \<noteq> 0x7F" by blast
  then show ?thesis
  proof cases
    case 1
    with w1 show ?thesis
      by (intro exI [of _ w1] exI [of _ "[]"] exI [of _ "echo c"])
        (subst get_line_loop.simps, simp add: rust_simps spec [unfolded 1(2)] key)
  next
    case 2
    from print_console [OF w1(2) small_pieces(2)] obtain w2 where
      "print_macro P [Lit [8, 32, 8]] w1 = Some (Value (), w2)" "on_console P ready inp out w2"
        "prints inp out [8, 32, 8] w1 w2" by (auto simp: print_macro_def utf8_encode_ascii)
    with 2 w1 show ?thesis
      by (intro exI [of _ w2] exI [of _ "butlast res"] exI [of _ "echo c @ [8, 32, 8]"])
        (subst get_line_loop.simps, simp add: rust_simps spec key talks_def)
  next
    case 3
    with w1 assms(3) show ?thesis
      by (intro exI [of _ w1] exI [of _ "res @ [c]"] exI [of _ "echo c"])
        (subst get_line_loop.simps, simp add: rust_simps spec key)
  qed
qed

lemma get_line_loop_console:
  assumes "on_console P ready inp out w"
  shows "\<exists>w'. get_line_loop P res w
      = Some (Value (got_line (fst (line_spec res (inp (kern w))))), w') \<and>
    on_console P ready inp out w' \<and>
    talks inp out (line_rest (fst (line_spec res (inp (kern w)))))
      (snd (line_spec res (inp (kern w)))) w w'"
  using assms
proof (induction "length (inp (kern w))" arbitrary: res w rule: less_induct)
  case less
  from getchar_console [OF less.prems] obtain w1 where
    w1: "getchar P w = Some (Value (got (take_char (inp (kern w)))), w1)" "on_console P ready inp out w1"
      "talks inp out (left_over (take_char (inp (kern w))))
      (case take_char (inp (kern w)) of None \<Rightarrow> [] | Some (c, _) \<Rightarrow> echo c) w w1" by blast
  consider "take_char (inp (kern w)) = None"
    | c r where "take_char (inp (kern w)) = Some (c, r)" "c \<in> {13, 10}"
    | c r where "take_char (inp (kern w)) = Some (c, r)" "c \<notin> {13, 10}" by (metis option.exhaust prod.exhaust)
  then show ?case
  proof cases
    case 1
    with w1 show ?thesis
      by (subst get_line_loop.simps)
        (simp add: rust_simps line_spec.simps [of res "inp (kern w)"] got_line_def line_rest_def)
  next
    case 2
    with w1 show ?thesis
      by (subst get_line_loop.simps)
        (auto simp: rust_simps line_spec.simps [of res "inp (kern w)"] got_line_def line_rest_def)
  next
    case 3
    from get_line_goes_on [OF less.prems 3, of res] obtain w2 res' bs where
      w2: "get_line_loop P res w = get_line_loop P res' w2" "on_console P ready inp out w2" "talks inp out r bs w w2"
        "line_spec res (inp (kern w)) = (fst (line_spec res' r), bs @ snd (line_spec res' r))" by blast
    have "length (inp (kern w2)) < length (inp (kern w))"
      using take_char_bounds 3(1) talks_inp [OF w2(3)] by blast
    from less.hyps [OF this w2(2), of res'] show ?thesis
      unfolding w2(1,4) fst_conv snd_conv talks_inp [OF w2(3)] using talks_trans [OF w2(3)] by blast
  qed
qed

text \<open>
  On a line of characters in UTF-8 the bytes disappear: every character is a key, the delete key takes
  the last character off, any other key but carriage return and line feed adds itself.
\<close>

definition key :: "rstr \<Rightarrow> rchar \<Rightarrow> rstr" where
  "key res c = (if c = 0x7F then butlast res else res @ [c])"

fun echo_keys :: "rstr \<Rightarrow> rstr \<Rightarrow> u8 list" where
  "echo_keys res [] = []"
| "echo_keys res (c # s) =
     echo c @ (if c = 0x7F \<and> res \<noteq> [] then [8, 32, 8] else []) @ echo_keys (key res c) s"

definition line_text :: "rstr \<Rightarrow> bool" where
  "line_text s \<longleftrightarrow> valid_str s \<and> 13 \<notin> set s \<and> 10 \<notin> set s"

lemma line_spec_text:
  assumes "line_text s" "nl = 13 \<or> nl = 10"
  shows "line_spec res (as_bytes (s @ [nl]) @ rest) = (Some (foldl key res s, rest), echo_keys res s @ echo nl)"
  using assms
proof (induction s arbitrary: res)
  case Nil
  then have "is_scalar nl" by (auto simp: is_scalar_def)
  from take_char_encode [OF this, of rest] Nil.prems(2) show ?case
    by (simp add: line_spec.simps [of _ "_ @ _"])
next
  case (Cons c s)
  then have "is_scalar c" "line_text s" "c \<noteq> 13" "c \<noteq> 10" by (simp_all add: line_text_def)
  with take_char_encode [OF this(1), of "as_bytes (s @ [nl]) @ rest"] Cons show ?case
    by (auto simp: line_spec.simps [of res "_ @ _"] key_def)
qed

lemma line_spec_unfinished:
  assumes "line_text s"
  shows "line_spec res (as_bytes s) = (None, echo_keys res s)"
  using assms
proof (induction s arbitrary: res)
  case Nil
  show ?case by (simp add: line_spec.simps)
next
  case (Cons c s)
  then have "is_scalar c" "line_text s" "c \<noteq> 13" "c \<noteq> 10" by (simp_all add: line_text_def)
  with take_char_encode [OF this(1), of "as_bytes s"] Cons show ?case
    by (auto simp: line_spec.simps [of res "_ @ _"] key_def)
qed

lemma echo_keys_plain: "0x7F \<notin> set s \<Longrightarrow> 13 \<notin> set s \<Longrightarrow> echo_keys res s = as_bytes s"
  by (induction s arbitrary: res) (auto simp: echo_def)

lemma foldl_key_plain: "0x7F \<notin> set s \<Longrightarrow> foldl key res s = res @ s"
  by (induction s arbitrary: res) (auto simp: key_def)

lemma get_line_text:
  assumes "on_console P ready inp out w" "inp (kern w) = as_bytes (s @ [nl]) @ rest"
    and "line_text s" "nl = 13 \<or> nl = 10"
  shows "\<exists>w'. get_line P w = Some (Value (Inr (foldl key [] s)), w') \<and> on_console P ready inp out w' \<and>
    talks inp out rest (echo_keys [] s @ echo nl) w w'"
  using get_line_loop_console [OF assms(1), of "[]"]
  by (simp only: assms(2) line_spec_text [OF assms(3,4)] get_line_def got_line_def line_rest_def
      option.case prod.case fst_conv snd_conv)

lemma get_line_unfinished:
  assumes "on_console P ready inp out w" "inp (kern w) = as_bytes s" "line_text s"
  shows "\<exists>w'. get_line P w = Some (Value (Inl EEOF), w') \<and> on_console P ready inp out w' \<and>
    talks inp out [] (echo_keys [] s) w w'"
  using get_line_loop_console [OF assms(1), of "[]"]
  by (simp only: assms(2) line_spec_unfinished [OF assms(3)] get_line_def got_line_def line_rest_def
      option.case prod.case fst_conv snd_conv)

end
