(* ===== verification/Path_Calls.thy ===== *)
theory Path_Calls
  imports Buffers Str_Ops
begin

text \<open>
  System calls that take a path, run forwards: with room for the buffer of the path on a sound allocator,
  the kernel is asked once, sees the path as a C string, and its answer is the result of the wrapper.
\<close>

section \<open>Answers of the kernel\<close>

definition kernel_answer :: "errornum + u64 \<Rightarrow> memory \<Rightarrow> 'k \<Rightarrow> 'k ecall_result" where
  "kernel_answer r m k = (case r of Inr x \<Rightarrow> Resume x 0 m k | Inl e \<Rightarrow> Resume (- errornum_code e) 1 m k)"

lemma do_syscall_answer:
  assumes "ecall P n args (mem w) (kern w) = kernel_answer r m k"
  shows "do_syscall P args n w = Some (Value r, w\<lparr>mem := m, kern := k, trace := trace w @ [logged n args w]\<rparr>)"
  using assms by (cases r) (simp_all add: kernel_answer_def rust_simps)

lemma with_vec_map_ok:
  assumes "bs \<noteq> []" and "with_vec P bs m w = Some (Value r, w')"
  shows "with_vec P bs (\<lambda>p. map_ok f (m p)) w = Some (Value (map_sum id f r), w')"
  using assms
  by (auto simp: with_vec_def with_block_def map_ok_def andthen_def ret_def on_alloc_error_def panic_at_def
      split: option.splits Option.bind_splits outcome.splits)

section \<open>One call with a path\<close>

lemma path_call_runs:
  assumes "allocator_sound P" and "heap_place P (heap w) (live w) (Suc (str_len path)) \<noteq> None"
    and ask: "\<And>p m. cstr_at m p (takeWhile (\<lambda>b. b \<noteq> 0) (as_bytes path)) \<Longrightarrow>
      \<exists>r k'. ecall P n (args p) m (kern w) = kernel_answer r m k' \<and> Q r k'"
  obtains r w' p m where
    "with_vec P (as_bytes path @ [0]) (\<lambda>arr. do_syscall P (args arr) n) w = Some (Value r, w')"
    "Q r (kern w')" "live w' = live w" "heap w' = heap w"
    "trace w' = trace w @ [\<lparr>ev_number = n, ev_args = args p, ev_mem = m\<rparr>]"
    "cstr_at m p (takeWhile (\<lambda>b. b \<noteq> 0) (as_bytes path))"
proof -
  let ?buf = "as_bytes path @ [0]"
  from assms(2) obtain p where p: "heap_place P (heap w) (live w) (length ?buf) = Some p" by (auto simp: str_len_def)
  let ?m = "store_bytes (mem w) p ?buf"
  let ?w = "w\<lparr>mem := ?m, live := (p, length ?buf) # live w\<rparr>"
  from owned_alloc [OF assms(1) p owned_Nil] have "owned ?w [(p, ?buf)]" .
  then have c: "cstr_at ?m p (takeWhile (\<lambda>b. b \<noteq> 0) (as_bytes path))"
    by (intro cstr_at_buffer) (simp_all add: owned_def)
  from ask [OF this] obtain r k' where k': "ecall P n (args p) ?m (kern w) = kernel_answer r ?m k'" "Q r k'" by blast
  let ?v = "?w\<lparr>mem := ?m, kern := k', trace := trace ?w @ [logged n (args p) ?w]\<rparr>"
  from k'(1) have "do_syscall P (args p) n ?w = Some (Value r, ?v)" by (intro do_syscall_answer) simp
  with p have "with_vec P ?buf (\<lambda>arr. do_syscall P (args arr) n) w = Some (Value r, ?v\<lparr>live := live w\<rparr>)"
    by (simp add: with_vec_def with_block_def andthen_def ret_def)
  then show thesis by (rule that [where p = p and m = ?m]) (use k'(2) c in \<open>simp_all add: logged_def\<close>)
qed

section \<open>A file that opens\<close>

text \<open>
  A kernel on which the path opens for reading: the descriptor \<open>fd\<close>, behind it the contents \<open>bytes\<close>.
\<close>

definition opens_file ::
    "'k platform \<Rightarrow> u64 \<Rightarrow> ('k \<Rightarrow> bool) \<Rightarrow> ('k \<Rightarrow> bool) \<Rightarrow> ('k \<Rightarrow> u8 list) \<Rightarrow> ('k \<Rightarrow> u8 list) \<Rightarrow> rstr \<Rightarrow> u8 list \<Rightarrow> bool" where
  "opens_file P fd closed opened content out path bytes \<longleftrightarrow>
     (\<forall>k m p. closed k \<and> cstr_at m p (as_bytes path) \<longrightarrow>
        (\<exists>k'. ecall P SYSCALL_OPEN [p, om_READ, 0, 0, 0, 0] m k = Resume fd 0 m k' \<and> opened k' \<and>
           content k' = bytes \<and> out k' = out k))"

lemma open_path:
  assumes "opens_file P fd closed opened content out path bytes" and "allocator_sound P" and "closed (kern w)"
    and "heap_place P (heap w) (live w) (Suc (str_len path)) \<noteq> None" and "0 \<notin> set (as_bytes path)"
  shows "\<exists>w'. open_file P path om_READ w = Some (Value (Inr (FileDecstiptor fd)), w') \<and> opened (kern w') \<and>
    content (kern w') = bytes \<and> out (kern w') = out (kern w) \<and> live w' = live w \<and> heap w' = heap w"
proof -
  let ?Q = "\<lambda>r k'. r = Inr fd \<and> opened k' \<and> content k' = bytes \<and> out k' = out (kern w)"
  have "\<exists>r k'. ecall P SYSCALL_OPEN [p, om_READ, 0, 0, 0, 0] m (kern w) = kernel_answer r m k' \<and> ?Q r k'"
    if "cstr_at m p (takeWhile (\<lambda>b. b \<noteq> 0) (as_bytes path))" for p m
    using assms(1,3) that unfolding opens_file_def takeWhile_no_nul [OF assms(5)]
    by (intro exI [of _ "Inr fd"]) (simp add: kernel_answer_def)
  from path_call_runs [where Q = ?Q and n = SYSCALL_OPEN and args = "\<lambda>p. [p, om_READ, 0, 0, 0, 0]", OF assms(2,4) this]
  obtain r w' where
    "with_vec P (as_bytes path @ [0]) (\<lambda>arr. do_syscall P [arr, om_READ, 0, 0, 0, 0] SYSCALL_OPEN) w
        = Some (Value r, w')" and w': "?Q r (kern w')" "live w' = live w" "heap w' = heap w" by blast
  from with_vec_map_ok [OF _ this(1), of fd_from] w' show ?thesis by (simp add: open_file_def fd_from_def)
qed

text \<open>A kernel that is asked to open the path for reading: its answer \<open>r\<close>, a descriptor or an error.\<close>

definition answers_open ::
    "'k platform \<Rightarrow> ('k \<Rightarrow> bool) \<Rightarrow> ('k \<Rightarrow> bool) \<Rightarrow> ('k \<Rightarrow> u8 list) \<Rightarrow> rstr \<Rightarrow> errornum + u64 \<Rightarrow> bool" where
  "answers_open P before after out path r \<longleftrightarrow>
     (\<forall>k m p. before k \<and> cstr_at m p (as_bytes path) \<longrightarrow>
        (\<exists>k'. ecall P SYSCALL_OPEN [p, om_READ, 0, 0, 0, 0] m k = kernel_answer r m k' \<and> after k' \<and> out k' = out k))"

lemma open_answered:
  assumes "answers_open P before after out path r" and "allocator_sound P" and "before (kern w)"
    and "heap_place P (heap w) (live w) (Suc (str_len path)) \<noteq> None" and "0 \<notin> set (as_bytes path)"
  shows "\<exists>w' p m. open_file P path om_READ w = Some (Value (map_sum id fd_from r), w') \<and>
    after (kern w') \<and> out (kern w') = out (kern w) \<and>
    trace w' = trace w @ [\<lparr>ev_number = SYSCALL_OPEN, ev_args = [p, om_READ, 0, 0, 0, 0], ev_mem = m\<rparr>] \<and>
    cstr_at m p (as_bytes path)"
proof -
  let ?Q = "\<lambda>r' k'. r' = r \<and> after k' \<and> out k' = out (kern w)"
  have ask: "\<exists>r k'. ecall P SYSCALL_OPEN [p, om_READ, 0, 0, 0, 0] m (kern w) = kernel_answer r m k' \<and> ?Q r k'"
    if "cstr_at m p (takeWhile (\<lambda>b. b \<noteq> 0) (as_bytes path))" for p m
    using assms(1,3) that unfolding answers_open_def takeWhile_no_nul [OF assms(5)] by blast
  obtain r' w' p m where
    run: "with_vec P (as_bytes path @ [0]) (\<lambda>arr. do_syscall P [arr, om_READ, 0, 0, 0, 0] SYSCALL_OPEN) w = Some (Value r', w')"
    and q: "?Q r' (kern w')"
    and t: "trace w' = trace w @ [\<lparr>ev_number = SYSCALL_OPEN, ev_args = [p, om_READ, 0, 0, 0, 0], ev_mem = m\<rparr>]"
      "cstr_at m p (takeWhile (\<lambda>b. b \<noteq> 0) (as_bytes path))"
    by (rule path_call_runs [where Q = ?Q and n = SYSCALL_OPEN and args = "\<lambda>p. [p, om_READ, 0, 0, 0, 0]",
        OF assms(2,4) ask])
  have "open_file P path om_READ w = Some (Value (map_sum id fd_from r), w')"
    using with_vec_map_ok [OF _ run, of fd_from] q by (simp add: open_file_def)
  with q t show ?thesis unfolding takeWhile_no_nul [OF assms(5)]
    by (intro exI [of _ w'] exI [of _ p] exI [of _ m]) simp
qed

end
