(* ===== verification/Shell_Facts.thy ===== *)
theory Shell_Facts
  imports Shell Console Path_Calls "HOL-Library.Sublist"
begin

text \<open>
  What the shell does: its panic handler, \<open>execute\<close> in parent and child, the dispatch of a command
  line, the session as a relation between worlds, and the buffers and system calls of all of them.
\<close>

section \<open>Panic handlers\<close>

lemma handle_panic_reports:
  assumes "report i w = Some (Value (), w1)" "finish w1 = Some (Gone, w2)"
  shows "handle_panic report finish i w = Some (Gone, w2)"
  using assms by (subst handle_panic.simps) (simp add: andthen_def catch_panic_def)

lemma handle_panic_spins:
  assumes "report i w = Some (Value (), w1)" "finish w1 = None"
  shows "handle_panic report finish i w = None"
  using assms by (subst handle_panic.simps) (simp add: andthen_def catch_panic_def)

lemma handle_panic_returns:
  assumes "handle_panic report finish i w = Some r"
  shows "\<not> (\<forall>j v. \<exists>k v'. report j v = Some (Panicked k, v'))"
  using assms
proof (rule handle_panic.raw_induct [of "\<lambda>report _ _ _ _. \<not> (\<forall>j v. \<exists>k v'. report j v = Some (Panicked k, v'))",
      rotated], goal_cases)
  case (1 f report finish i w r)
  show ?case
  proof
    assume h: "\<forall>j v. \<exists>k v'. report j v = Some (Panicked k, v')"
    then obtain k v' where "report i w = Some (Panicked k, v')" by blast
    with 1(2) have "f report finish k v' = Some r" by (simp add: andthen_def catch_panic_def)
    from 1(1) [OF this] h show False by blast
  qed
qed

lemma handle_panic_diverges:
  assumes "\<forall>j v. \<exists>k v'. report j v = Some (Panicked k, v')"
  shows "handle_panic report finish i w = None"
  using handle_panic_returns [of report finish i w] assms by (meson not_None_eq)

definition panic_text :: "'k platform \<Rightarrow> string \<Rightarrow> panic_info \<Rightarrow> rstr" where
  "panic_text P name i = str name @ str '' panicked at '' @ source_path P (pi_file i) @ str '':''
     @ dec_digits (pi_line i) @ str '', '' @ concat (pi_message i) @ [13, 10]"

definition report_pieces :: "'k platform \<Rightarrow> string \<Rightarrow> panic_info \<Rightarrow> rstr list" where
  "report_pieces P name i =
     fmt_pieces [Lit (str name), Lit (str '' panicked at ''), Arg [source_path P (pi_file i)],
       Lit (str '':''), Arg [dec_digits (pi_line i)], Lit (str '', ''), Arg (pi_message i), Lit [13, 10]]"

lemma concat_report_pieces: "concat (report_pieces P name i) = panic_text P name i"
  by (simp add: report_pieces_def panic_text_def)

lemma panic_report_pieces: "panic_report P name i = print P (report_pieces P name i)"
  unfolding panic_report_def println_macro_def report_pieces_def by (simp only: append_Cons append_Nil)

lemma panic_report_console:
  assumes "on_console P ready inp out w" "\<forall>s\<in>set (report_pieces P name i). str_len s < 2 ^ 64"
  shows "\<exists>w'. panic_report P name i w = Some (Value (), w') \<and> on_console P ready inp out w' \<and>
    prints inp out (as_bytes (panic_text P name i)) w w'"
  using print_console [OF assms]
  by (simp only: panic_report_pieces concat_report_pieces)

text \<open>When no write succeeds every print panics.\<close>

definition deaf :: "'k platform \<Rightarrow> bool" where
  "deaf P \<longleftrightarrow> (\<forall>p n m k. \<exists>e m' k'. ecall P SYSCALL_WRITE [1, p, n, 0, 0, 0] m k
     = Resume (- errornum_code e) 1 m' k')"

lemma deaf_write_str:
  assumes "deaf P"
  shows "\<exists>w'. write_str P s w = Some (Value (Inl ()), w')"
proof -
  let ?bs = "as_bytes s"
  let ?p = "place P (length (trace w)) (length ?bs)"
  let ?m = "store_bytes (mem w) ?p ?bs"
  from assms obtain e m' k' where
    "ecall P SYSCALL_WRITE [1, ?p, of_nat (length ?bs), 0, 0, 0] ?m (kern w) = Resume (- errornum_code e) 1 m' k'"
    unfolding deaf_def by blast
  then show ?thesis
    by (simp add: write_str_def with_data_def Let_def write_fd_def write_raw_def STDOUT_def
        map_err_def rust_simps)
qed

lemma deaf_print:
  assumes "deaf P" "ss \<noteq> []"
  shows "\<exists>i w'. print P ss w = Some (Panicked i, w')"
proof (cases ss)
  case (Cons s ss')
  with deaf_write_str [OF assms(1), of s w] show ?thesis
    by (auto simp: print_def rust_simps)
qed (use assms in simp)

lemma fmt_pieces_Lit_nonempty: "a \<noteq> [] \<Longrightarrow> fmt_pieces (Lit a # ps) \<noteq> []"
proof (induction ps arbitrary: a)
  case (Cons p ps)
  then show ?case by (cases p) simp_all
qed simp

section \<open>Leaving the program\<close>

lemma exit_no_value: "exit P code w = Some (oc, w') \<Longrightarrow> oc \<noteq> Value x"
  by (auto simp: exit_def andthen_Some_iff panic_at_def unwrap_result_def)

lemma exit_vanish:
  "ecall P SYSCALL_EXIT [code, 0, 0, 0, 0, 0] (mem w) (kern w) = Vanish k \<Longrightarrow>
     exit P code w = Some (Gone, w\<lparr>kern := k, trace := trace w @ [logged SYSCALL_EXIT [code, 0, 0, 0, 0, 0] w]\<rparr>)"
  by (simp add: exit_def rust_simps)

lemma start_no_value: "start P main argc ap w = Some (oc, w') \<Longrightarrow> oc \<noteq> Value x"
  by (auto simp: start_def with_data_def Let_def andthen_Some_iff dest: exit_no_value)

section \<open>No buffer outlives its operation\<close>

lemmas held_call = held_intros held_do_syscall

lemma held_write_fd [balanced_intros]: "keeps same_live (write_fd P fd buf)"
  unfolding write_fd_def write_raw_def by (intro held_call)

lemma held_read_fd [balanced_intros]: "keeps same_live (read_fd P fd buf)"
  unfolding read_fd_def read_raw_def by (intro held_call)

lemma held_open_file [balanced_intros]: "keeps same_live (open_file P path mode)"
  unfolding open_file_def by (intro held_call)

lemma held_close [balanced_intros]: "keeps same_live (close P fd)"
  unfolding close_def by (intro held_call)

lemma held_ioctl [balanced_intros]: "keeps same_live (ioctl P fd opn param res)"
  unfolding ioctl_def by (intro held_call)

lemma held_fork [balanced_intros]: "keeps same_live (fork P)"
  unfolding fork_def by (intro held_call)

lemma held_exec [balanced_intros]: "keeps same_live (exec P path argv)"
  unfolding exec_def exec_raw_def by (intro held_call)

lemma held_waitpid [balanced_intros]: "keeps same_live (waitpid P pid p)"
  unfolding waitpid_def by (intro held_call)

lemma held_getcwd [balanced_intros]: "keeps same_live (getcwd P)"
  unfolding getcwd_def getcwd_raw_def by (intro held_call)

lemma held_chdir [balanced_intros]: "keeps same_live (chdir P path)"
  unfolding chdir_def by (intro held_call)

lemma held_mkdir [balanced_intros]: "keeps same_live (mkdir P path perm)"
  unfolding mkdir_def by (intro held_call)

lemma held_exit [balanced_intros]: "keeps same_live (exit P code)"
  by (rule keepsI) (auto dest: exit_no_value)

lemma held_print [balanced_intros]: "keeps same_live (print P ss)"
proof -
  have "keeps same_live (write_str P s)" for s
    unfolding write_str_def by (intro held_call balanced_intros)
  then have "keeps same_live (write_fmt P ss)"
    by (induction ss) (auto intro: held_intros)
  then show ?thesis unfolding print_def by (intro held_call)
qed

lemma held_macros [balanced_intros]:
  "keeps same_live (print_macro P fmt)" "keeps same_live (println_macro P fmt)"
  unfolding print_macro_def println_macro_def by (rule held_print)+

lemma held_getbyte [balanced_intros]: "keeps same_live (getbyte_noecho P)"
  unfolding getbyte_noecho_def by (auto intro!: held_call balanced_intros)

lemma held_decode_rest: "keeps same_live get \<Longrightarrow> keeps same_live (decode_rest get n buf)"
  by (induction n arbitrary: buf) (auto simp: Let_def intro!: held_intros split: option.splits)

lemma held_getchar [balanced_intros]: "keeps same_live (getchar P)"
  unfolding getchar_def getchar_noecho_def decode_char_def
  by (auto intro!: held_intros held_decode_rest balanced_intros split: option.splits)

text \<open>
  Induction over a loop: a frame that the body keeps whenever its recursive calls keep it is kept by
  the loop.
\<close>

lemma keeps_get_line_loop:
  assumes step: "\<And>f res. (\<And>res. keeps R (f P res)) \<Longrightarrow> keeps R (try_then (getchar P) (\<lambda>b.
      if b = 13 \<or> b = 10 then ret (Inr res)
      else if b = 127 then
        if res \<noteq> [] then andthen (print_macro P [Lit [8, 32, 8]]) (\<lambda>_. f P (butlast res))
        else f P res
      else f P (res @ [b])))"
  shows "keeps R (get_line_loop P res)"
proof (rule keepsI)
  fix w x w'
  assume run: "get_line_loop P res w = Some (Value x, w')"
  let ?Q = "\<lambda>a y. fst (fst a) = P \<longrightarrow> (\<forall>x. fst y = Value x \<longrightarrow> R (snd a) (snd y))"
  have "?Q ((P, res), w) (Value x, w')"
  proof (rule get_line_loop.raw_induct [of ?Q, OF _ run])
    fix f P' res w y
    assume IH: "\<And>P' res v y. f P' res v = Some y \<Longrightarrow> ?Q ((P', res), v) y"
      and body: "try_then (getchar P') (\<lambda>b.
        if b = 13 \<or> b = 10 then ret (Inr res)
        else if b = 127 then
          if res \<noteq> [] then andthen (print_macro P' [Lit [8, 32, 8]]) (\<lambda>_. f P' (butlast res))
          else f P' res
        else f P' (res @ [b])) w = Some y"
    have f: "keeps R (f P res')" for res'
      by (rule keepsI) (use IH in fastforce)
    from step [where f = f and res = res, OF f] body show "?Q ((P', res), w) y"
      by (cases y) (auto simp: keeps_def)
  qed
  then show "R w w'" by simp
qed

lemma held_get_line [balanced_intros]: "keeps same_live (get_line P)"
  unfolding get_line_def
  by (rule keeps_get_line_loop) (auto intro!: held_intros balanced_intros)

lemma held_lift_checked [balanced_intros]: "keeps same_live (lift_checked x)"
  by (auto simp: keeps_def lift_checked_def split: sum.splits)

lemma held_unwrap_option [balanced_intros]: "keeps same_live (unwrap_option f l x)"
  by (auto simp: keeps_def unwrap_option_def ret_def panic_at_def split: option.splits)

lemma held_todo [balanced_intros]: "keeps same_live (todo l)"
  unfolding todo_def by (rule held.keeps_panic_at)

lemma held_redirect [balanced_intros]: "keeps same_live (redirect P l msg std path mode)"
  unfolding redirect_def by (auto intro!: held_intros balanced_intros)

lemma held_execute [balanced_intros]: "keeps same_live (execute P c)"
  unfolding execute_def child_def parent_def
  by (auto intro!: held_intros balanced_intros split: io_type.splits)

lemma held_device_call [balanced_intros]: "keeps same_live (device_call P l path)"
  unfolding device_call_def by (auto intro!: held_intros balanced_intros)

lemma held_println_all [balanced_intros]: "keeps same_live (println_all P ss)"
  by (induction ss) (auto intro!: held_intros balanced_intros)

lemma held_serve_command [balanced_intros]: "keeps same_live (serve_command P cmd)"
  unfolding serve_command_def serve_cd_def serve_help_def serve_exit_def serve_shutdown_def
    serve_reboot_def serve_exec_def
  by (auto intro!: held_intros balanced_intros)

lemma held_report_error [balanced_intros]: "keeps same_live (report_error P res)"
  unfolding report_error_def by (auto intro!: held_intros balanced_intros split: sum.splits)

lemma held_print_header [balanced_intros]: "keeps same_live (print_header P)"
  unfolding print_header_def print_time_def Let_def by (auto intro!: held_intros balanced_intros split: sum.splits)

section \<open>Sessions\<close>

text \<open>
  A session: prompt, line, command, report, until a line cannot be read. It is the big-step relation
  the loop computes.
\<close>

inductive session :: "'k platform \<Rightarrow> 'k world \<Rightarrow> rstr list \<Rightarrow> 'k world \<Rightarrow> bool" for P where
  session_end:
    "print_header P w = Some (Value (), w1) \<Longrightarrow> get_line P w1 = Some (Value (Inl e), w2) \<Longrightarrow>
     session P w [] w2"
| session_line:
    "print_header P w = Some (Value (), w1) \<Longrightarrow> get_line P w1 = Some (Value (Inr line), w2) \<Longrightarrow>
     serve_command P line w2 = Some (Value res, w3) \<Longrightarrow> report_error P res w3 = Some (Value (), w4) \<Longrightarrow>
     session P w4 lines w' \<Longrightarrow> session P w (line # lines) w'"

inductive_cases session_NilE: "session P w [] w'"
inductive_cases session_ConsE: "session P w (line # lines) w'"

lemma session_shell_loop: "session P w lines w' \<Longrightarrow> shell_loop P w = Some (Value (), w')"
proof (induction rule: session.induct)
  case (session_end w w1 e w2)
  then show ?case by (subst shell_loop.simps) (simp add: andthen_def ret_def)
next
  case (session_line w w1 line w2 res w3 w4 lines w')
  then show ?case by (subst shell_loop.simps) (simp add: andthen_def ret_def)
qed

lemma shell_loop_line:
  assumes "print_header P w = Some (Value (), w1)" "get_line P w1 = Some (Value (Inr line), w2)"
    and "serve_command P line w2 = Some (Value res, w3)" "report_error P res w3 = Some (Value (), w4)"
  shows "shell_loop P w = shell_loop P w4"
  using assms by (subst shell_loop.simps) (simp add: andthen_def)

text \<open>A command that does not come back, or panics, ends the loop with it.\<close>

lemma shell_loop_last:
  assumes "print_header P w = Some (Value (), w1)" "get_line P w1 = Some (Value (Inr line), w2)"
  shows "serve_command P line w2 = Some (Gone, v) \<Longrightarrow> shell_loop P w = Some (Gone, v)"
    and "serve_command P line w2 = Some (Panicked i, v) \<Longrightarrow> shell_loop P w = Some (Panicked i, v)"
  using assms by (subst shell_loop.simps; simp add: andthen_def)+

lemma shell_loop_session:
  assumes run: "shell_loop P w = Some (Value (), w')"
  shows "\<exists>lines. session P w lines w'"
proof -
  let ?Q = "\<lambda>a y. fst a = P \<longrightarrow> fst y = Value () \<longrightarrow> (\<exists>lines. session P (snd a) lines (snd y))"
  have "?Q (P, w) (Value (), w')"
  proof (rule shell_loop.raw_induct [of ?Q, OF _ run])
    fix f P' w y
    assume IH: "\<And>P' v y. f P' v = Some y \<Longrightarrow> ?Q (P', v) y"
      and body: "andthen (print_header P') (\<lambda>_. andthen (get_line P') (\<lambda>r. case r of Inl x \<Rightarrow> ret ()
          | Inr line \<Rightarrow> andthen (serve_command P' line) (\<lambda>res. andthen (report_error P' res) (\<lambda>_. f P'))))
        w = Some y"
    show "?Q (P', w) y"
    proof (intro impI)
      assume P': "fst (P', w) = P" and val: "fst y = Value ()"
      obtain oc w' where y: "y = (oc, w')" by (cases y)
      from body P' val y obtain w1 r w2 where head: "print_header P w = Some (Value (), w1)"
        "get_line P w1 = Some (Value r, w2)"
        and rest: "(case r of Inl x \<Rightarrow> ret () | Inr line \<Rightarrow>
            andthen (serve_command P line) (\<lambda>res. andthen (report_error P res) (\<lambda>_. f P))) w2 = Some (Value (), w')"
        by (auto simp: andthen_Some_iff)
      show "\<exists>lines. session P (snd (P', w)) lines (snd y)"
      proof (cases r)
        case (Inl e)
        with rest have "w2 = w'" by (simp add: ret_def)
        with session_end [OF head(1) head(2) [unfolded Inl]] y show ?thesis by auto
      next
        case (Inr line)
        with rest obtain res w3 w4 where "serve_command P line w2 = Some (Value res, w3)"
          "report_error P res w3 = Some (Value (), w4)" and f: "f P w4 = Some (Value (), w')"
          by (auto simp: andthen_Some_iff)
        with IH [OF f] session_line [OF head(1) head(2) [unfolded Inr]] y show ?thesis by fastforce
      qed
    qed
  qed
  then show ?thesis by simp
qed

lemma session_held: "session P w lines w' \<Longrightarrow> live w' = live w"
proof (induction rule: session.induct)
  case (session_end w w1 e w2)
  with held_print_header [of P] held_get_line [of P] show ?case
    unfolding keeps_def by metis
next
  case (session_line w w1 line w2 res w3 w4 lines w')
  have "live w1 = live w" using held_print_header [of P] session_line.hyps(1) by (simp add: keeps_def)
  moreover have "live w2 = live w1" using held_get_line [of P] session_line.hyps(2) unfolding keeps_def by blast
  moreover have "live w3 = live w2" using held_serve_command [of P line] session_line.hyps(3) unfolding keeps_def by blast
  moreover have "live w4 = live w3" using held_report_error [of P res] session_line.hyps(4) unfolding keeps_def by blast
  ultimately show ?case using session_line.IH by simp
qed

section \<open>The system calls of a run\<close>

definition makes :: "u64 list \<Rightarrow> 'k world \<Rightarrow> 'k world \<Rightarrow> bool" where
  "makes ns w w' \<longleftrightarrow> (\<exists>es. trace w' = trace w @ es \<and> map ev_number es = ns)"

text \<open>
  One call as the kernel sees it: its number and registers, and the C strings behind its pointers.
\<close>

type_synonym call_spec = "ecall_event \<Rightarrow> bool"

definition plain_call :: "u64 \<Rightarrow> u64 list \<Rightarrow> call_spec" where
  "plain_call n args e \<longleftrightarrow> ev_number e = n \<and> ev_args e = args"

definition path_call :: "u64 \<Rightarrow> rstr \<Rightarrow> u64 list \<Rightarrow> call_spec" where
  "path_call n path args e \<longleftrightarrow> ev_number e = n \<and>
     (\<exists>p. ev_args e = p # args \<and> cstr_at (ev_mem e) p (takeWhile (\<lambda>b. b \<noteq> 0) (as_bytes path)))"

definition exec_call :: "rstr \<Rightarrow> rstr list \<Rightarrow> call_spec" where
  "exec_call path argv e \<longleftrightarrow> ev_number e = SYSCALL_EXEC \<and>
     (\<exists>pp ap. ev_args e = [pp, ap, 0, 0, 0, 0] \<and>
        cstr_at (ev_mem e) pp (takeWhile (\<lambda>b. b \<noteq> 0) (as_bytes path)) \<and>
        argv_at (ev_mem e) ap (map (\<lambda>s. takeWhile (\<lambda>b. b \<noteq> 0) (as_bytes s)) argv))"

text \<open>
  \<open>does Qs w w'\<close>: the calls made between the two worlds are one for each of \<open>Qs\<close>, in this order.
  \<open>scripted Qs m\<close>: a run of \<open>m\<close> makes these calls, or stops early at an error, a panic or a call that
  does not come back.
\<close>

definition does :: "call_spec list \<Rightarrow> 'k world \<Rightarrow> 'k world \<Rightarrow> bool" where
  "does Qs w w' \<longleftrightarrow> (\<exists>es. trace w' = trace w @ es \<and> list_all2 (\<lambda>Q e. Q e) Qs es)"

definition scripted :: "call_spec list \<Rightarrow> ('k, 'e + 'a) rust \<Rightarrow> bool" where
  "scripted Qs m \<longleftrightarrow> (\<forall>w oc w'. m w = Some (oc, w') \<longrightarrow>
     (\<exists>Rs. does Rs w w' \<and> prefix Rs Qs \<and> (\<forall>x. oc = Value (Inr x) \<longrightarrow> Rs = Qs)))"

lemma does_refl [simp]: "does [] w w"
  by (simp add: does_def)

lemma does_trans: "does Qs u v \<Longrightarrow> does Rs v w \<Longrightarrow> does (Qs @ Rs) u w"
  unfolding does_def by (metis append_assoc list_all2_appendI)

lemma does_one: "trace w' = trace w @ [e] \<Longrightarrow> Q e \<Longrightarrow> does [Q] w w'"
  by (simp add: does_def)

text \<open>A program whose \<open>main\<close> returns leaves with its result, by one last call.\<close>

lemma program_leaves:
  assumes "(start P main argc ap w :: ('r outcome \<times> _) option) = andthen m (exit P) v" "m v = Some (Value c, u)"
    and "\<And>m k. ecall P SYSCALL_EXIT [c, 0, 0, 0, 0, 0] m k = Vanish k"
  shows "\<exists>w' x. catch_panic (start P main argc ap) h w = Some (Gone :: 'r outcome, w') \<and> kern w' = kern u \<and>
    trace w' = trace u @ [x] \<and> plain_call SYSCALL_EXIT [c, 0, 0, 0, 0, 0] x"
proof -
  let ?x = "logged SYSCALL_EXIT [c, 0, 0, 0, 0, 0] u"
  have "start P main argc ap w = Some (Gone :: 'r outcome, u\<lparr>kern := kern u, trace := trace u @ [?x]\<rparr>)"
    unfolding assms(1) andthen_simps(1) [where m = m, OF assms(2)] by (rule exit_vanish) (rule assms(3))
  then show ?thesis by (auto simp: catch_panic_def plain_call_def logged_def)
qed

text \<open>Printing asks the kernel for nothing but writes.\<close>

abbreviation only_write_calls :: "ecall_event list \<Rightarrow> bool" where
  "only_write_calls \<equiv> list_all (\<lambda>e. ev_number e = SYSCALL_WRITE)"

definition only_writes :: "'k world \<Rightarrow> 'k world \<Rightarrow> bool" where
  "only_writes w w' \<longleftrightarrow> (\<exists>es. trace w' = trace w @ es \<and> only_write_calls es)"

lemma only_writes_trans:
  assumes "only_writes u v" "only_writes v w"
  shows "only_writes u w"
proof -
  obtain es fs where "trace v = trace u @ es" "only_write_calls es" "trace w = trace v @ fs" "only_write_calls fs"
    using assms unfolding only_writes_def by blast
  then show ?thesis unfolding only_writes_def by (intro exI [of _ "es @ fs"]) simp
qed

interpretation writes: world_frame only_writes
proof (unfold_locales, goal_cases)
  case (1 w)
  show ?case by (simp add: only_writes_def)
qed (rule only_writes_trans)

lemma writes_do_syscall: "always only_writes (do_syscall P args SYSCALL_WRITE)"
  by (rule alwaysI)
    (auto simp: do_syscall_def Let_def only_writes_def logged_def ret_def panic_at_def andthen_Some_iff
      unwrap_result_def split: ecall_result.splits if_splits sum.splits)

lemma writes_with_data: "(\<And>p. always only_writes (f p)) \<Longrightarrow> always only_writes (with_data P bs f)"
  by (fastforce simp: always_def with_data_def Let_def only_writes_def)

lemma writes_print: "always only_writes (print P ss)"
proof -
  have "always only_writes (write_str P s)" for s
    unfolding write_str_def write_fd_def write_raw_def
    by (intro writes_with_data writes.always_intros writes_do_syscall)
  then have "always only_writes (write_fmt P ss)" by (induction ss) (auto intro: writes.always_intros)
  then show ?thesis unfolding print_def by (intro writes.always_intros)
qed

lemma print_only_writes:
  assumes "print P ss w = Some (oc, w')"
  obtains es where "trace w' = trace w @ es" "only_write_calls es"
  using writes_print [of P ss] assms unfolding always_def only_writes_def by blast

text \<open>A handler on a console: the report, then the exit with -1, the last call of the process.\<close>

lemma panic_exit_console:
  assumes "on_console P ready inp out w" "\<forall>s\<in>set (report_pieces P name i). str_len s < 2 ^ 64"
    and e: "\<And>m k. ecall P SYSCALL_EXIT [- 1, 0, 0, 0, 0, 0] m k = Vanish k"
  shows "\<exists>w' es e. handle_panic (panic_report P name) (exit P (- 1)) i w = Some (Gone, w') \<and>
    prints inp out (as_bytes (panic_text P name i)) w w' \<and>
    trace w' = trace w @ es @ [e] \<and> only_write_calls es \<and> plain_call SYSCALL_EXIT [- 1, 0, 0, 0, 0, 0] e"
proof -
  from panic_report_console [OF assms(1,2)] obtain u where
    u: "panic_report P name i w = Some (Value (), u)" "prints inp out (as_bytes (panic_text P name i)) w u" by blast
  obtain es where es: "trace u = trace w @ es" "only_write_calls es"
    by (rule print_only_writes [OF u(1) [unfolded panic_report_pieces]])
  let ?e = "logged SYSCALL_EXIT [- 1, 0, 0, 0, 0, 0] u"
  let ?v = "u\<lparr>kern := kern u, trace := trace u @ [?e]\<rparr>"
  have "handle_panic (panic_report P name) (exit P (- 1)) i w = Some (Gone, ?v)"
    by (rule handle_panic_reports [where report = "panic_report P name", OF u(1)]) (rule exit_vanish [OF e])
  moreover have "plain_call SYSCALL_EXIT [- 1, 0, 0, 0, 0, 0] ?e" by (simp add: plain_call_def logged_def)
  moreover have "prints inp out (as_bytes (panic_text P name i)) w ?v" "trace ?v = trace w @ es @ [?e]"
    using u(2) es(1) by (simp_all add: talks_def)
  ultimately show ?thesis using es(2) by blast
qed

lemma scripted_ret: "scripted [] (ret x)"
  by (auto simp: scripted_def ret_def)

lemma scripted_panic: "scripted Qs (panic_at f l msg)"
  by (auto simp: scripted_def panic_at_def intro!: exI [of _ "[]"])

lemma scripted_error: "scripted Qs (ret (Inl e))"
  by (auto simp: scripted_def ret_def intro!: exI [of _ "[]"])

lemma scripted_try_then:
  assumes m: "scripted Qs m" and f: "\<And>x. scripted Rs (f x)"
  shows "scripted (Qs @ Rs) (try_then m f)"
  unfolding scripted_def
proof (intro allI impI)
  fix w oc w'
  assume "try_then m f w = Some (oc, w')"
  then consider y u where "m w = Some (Value (Inr y), u)" "f y u = Some (oc, w')"
    | oc' where "m w = Some (oc', w')" "\<forall>x. oc \<noteq> Value (Inr x)"
    by (auto simp: try_then_Some_iff)
  then show "\<exists>Ss. does Ss w w' \<and> prefix Ss (Qs @ Rs) \<and> (\<forall>x. oc = Value (Inr x) \<longrightarrow> Ss = Qs @ Rs)"
  proof cases
    case 1
    with m have Qs: "does Qs w u" unfolding scripted_def by blast
    from f 1(2) obtain Ss where "does Ss u w'" "prefix Ss Rs" "\<forall>x. oc = Value (Inr x) \<longrightarrow> Ss = Rs"
      unfolding scripted_def by blast
    with does_trans [OF Qs] show ?thesis by (intro exI [of _ "Qs @ Ss"]) auto
  next
    case 2
    with m show ?thesis unfolding scripted_def by (metis prefix_append)
  qed
qed

text \<open>A single call under buffers: either it is not made, and then there is no value, or it is as stated.\<close>

lemma scripted_one:
  assumes "\<And>w oc w'. m w = Some (oc, w') \<Longrightarrow> trace w' \<noteq> trace w \<Longrightarrow> \<exists>e. trace w' = trace w @ [e] \<and> Q e"
    and "\<And>w x w'. m w = Some (Value x, w') \<Longrightarrow> trace w' \<noteq> trace w"
  shows "scripted [Q] m"
  unfolding scripted_def
proof (intro allI impI)
  fix w oc w'
  assume run: "m w = Some (oc, w')"
  show "\<exists>Rs. does Rs w w' \<and> prefix Rs [Q] \<and> (\<forall>x. oc = Value (Inr x) \<longrightarrow> Rs = [Q])"
  proof (cases "trace w' = trace w")
    case True
    with run assms(2) have "oc \<noteq> Value x" for x by blast
    with True show ?thesis by (intro exI [of _ "[]"]) (simp add: does_def)
  next
    case False
    from assms(1) [OF run this] show ?thesis by (intro exI [of _ "[Q]"]) (auto intro: does_one)
  qed
qed

lemma scripted_do_syscall: "scripted [plain_call n args] (do_syscall P args n)"
  by (rule scripted_one) (auto dest!: do_syscall_logged simp: plain_call_def logged_def)

lemma trace_with_vec:
  assumes "with_vec P bs f w = Some (Value x, w')" "\<And>p u u'. f p u = Some (Value x, u') \<Longrightarrow> trace u' \<noteq> trace u"
  shows "trace w' \<noteq> trace w"
  using assms(1) by (fastforce simp: with_vec_def dest: assms(2) elim!: with_block_Value split: if_splits)

lemma trace_with_vecs:
  assumes "with_vecs P bss f w = Some (Value x, w')" "\<And>ps u u'. f ps u = Some (Value x, u') \<Longrightarrow> trace u' \<noteq> trace u"
  shows "trace w' \<noteq> trace w"
  using assms by (induction bss arbitrary: f w w') (auto dest: trace_with_vec)

lemma scripted_open:
  assumes "allocator_sound P"
  shows "scripted [path_call SYSCALL_OPEN path [mode, 0, 0, 0, 0]] (open_file P path mode)"
proof (rule scripted_one)
  fix w oc w'
  assume "open_file P path mode w = Some (oc, w')" and ne: "trace w' \<noteq> trace w"
  then have "with_vec P (as_bytes path @ [0]) (\<lambda>arr.
      andthen (do_syscall P [arr, mode, 0, 0, 0, 0] SYSCALL_OPEN) (\<lambda>r. ret (map_sum id fd_from r))) w = Some (oc, w')"
    by (simp add: open_file_def map_ok_def)
  then obtain p m where "trace w' = trace w @ [\<lparr>ev_number = SYSCALL_OPEN, ev_args = [p, mode, 0, 0, 0, 0], ev_mem = m\<rparr>]"
    "cstr_at m p (takeWhile (\<lambda>b. b \<noteq> 0) (as_bytes path))"
    by (rule path_call_logged [OF assms owned_Nil _ _ ne]) (auto simp: ret_def)
  then show "\<exists>e. trace w' = trace w @ [e] \<and> path_call SYSCALL_OPEN path [mode, 0, 0, 0, 0] e"
    by (auto simp: path_call_def)
next
  fix w x w'
  assume "open_file P path mode w = Some (Value x, w')"
  then show "trace w' \<noteq> trace w" unfolding open_file_def
    by (rule trace_with_vec) (auto simp: map_ok_def andthen_Some_iff ret_def dest: do_syscall_logged)
qed

lemma scripted_exec:
  assumes "allocator_sound P"
  shows "scripted [exec_call path argv] (exec P path argv)"
proof (rule scripted_one)
  fix w oc w'
  assume "exec P path argv w = Some (oc, w')" "trace w' \<noteq> trace w"
  from exec_logged [OF assms this] show "\<exists>e. trace w' = trace w @ [e] \<and> exec_call path argv e"
    by (auto simp: exec_call_def)
next
  fix w x w'
  assume "exec P path argv w = Some (Value x, w')"
  then show "trace w' \<noteq> trace w" unfolding exec_def
  proof (rule trace_with_vecs)
    fix ps u u'
    assume "with_ptr_vec P (ps @ [0]) (exec_raw P path) u = Some (Value x, u')"
    then obtain p v v' where "exec_raw P path p v = Some (Value x, v')" "trace v = trace u" "trace v' = trace u'"
      by (auto simp: with_ptr_vec_def elim!: with_block_Value)
    moreover from this(1) have "trace v' \<noteq> trace v" unfolding exec_raw_def
      by (rule trace_with_vec) (auto dest: do_syscall_logged)
    ultimately show "trace u' \<noteq> trace u" by simp
  qed
qed

lemma scripted_redirect:
  assumes "allocator_sound P"
  shows "scripted [plain_call SYSCALL_CLOSE [fd_num std, 0, 0, 0, 0, 0], path_call SYSCALL_OPEN path [mode, 0, 0, 0, 0]]
    (redirect P l msg std path mode)"
proof -
  have "scripted ([plain_call SYSCALL_CLOSE [fd_num std, 0, 0, 0, 0, 0]] @
      [path_call SYSCALL_OPEN path [mode, 0, 0, 0, 0]] @ []) (redirect P l msg std path mode)"
    unfolding redirect_def close_def
    by (intro scripted_try_then scripted_do_syscall scripted_open [OF assms])
      (auto intro: scripted_panic scripted_ret)
  then show ?thesis by simp
qed

text \<open>The calls of the forked process: the redirections of the command, input first, then \<open>exec\<close>.\<close>

fun redirect_calls :: "file_descriptor \<Rightarrow> open_mode \<Rightarrow> command io_type \<Rightarrow> call_spec list" where
  "redirect_calls std mode (File path) =
     [plain_call SYSCALL_CLOSE [fd_num std, 0, 0, 0, 0, 0], path_call SYSCALL_OPEN path [mode, 0, 0, 0, 0]]"
| "redirect_calls std mode _ = []"

definition child_calls :: "'k platform \<Rightarrow> command \<Rightarrow> call_spec list" where
  "child_calls P c = redirect_calls STDIN om_READ (cmd_input c)
     @ redirect_calls STDOUT (usize_or P om_WRITE om_CREATE) (cmd_output c) @ [exec_call (exec_path c) (cmd_args c)]"

lemma scripted_child:
  assumes "allocator_sound P"
  shows "scripted (child_calls P c @ []) (child P c)"
  unfolding child_def child_calls_def append_assoc
proof (intro scripted_try_then scripted_exec [OF assms])
  show "scripted (redirect_calls STDIN om_READ (cmd_input c)) (case cmd_input c of
      File path \<Rightarrow> redirect P 221 ''Failed to re-open fd 0 to redirect input, re-opened fd is '' STDIN path om_READ
    | Cmd command \<Rightarrow> todo 225 | Default \<Rightarrow> ret (Inr ()))"
    by (cases "cmd_input c") (auto simp: todo_def intro: scripted_redirect [OF assms] scripted_ret scripted_panic)
  show "scripted (redirect_calls STDOUT (usize_or P om_WRITE om_CREATE) (cmd_output c)) (case cmd_output c of
      File path \<Rightarrow> redirect P 233 ''Failed to re-open fd 1 to redirect input, re-opened fd is ''
        STDOUT path (usize_or P om_WRITE om_CREATE)
    | _ \<Rightarrow> (case cmd_input c of Cmd command \<Rightarrow> todo 237 | _ \<Rightarrow> ret (Inr ())))"
    by (cases "cmd_output c"; cases "cmd_input c")
      (auto simp: todo_def intro: scripted_redirect [OF assms] scripted_ret scripted_panic)
qed (rule scripted_error)

section \<open>The prompt\<close>

text \<open>
  What a prompt needs of the kernel, which it takes from \<open>ready\<close> to \<open>ready'\<close>: a console, a \<open>getcwd\<close> that
  writes the path at the front of the buffer, and a clock device that does not open (\<open>clock = None\<close>)
  or reads the time \<open>t\<close> in nanoseconds (\<open>clock = Some t\<close>). The path the library makes of the buffer is
  padded with NULs.
\<close>

definition rtc_path :: rstr where
  "rtc_path = str ''/dev/rtc@101000''"

lemma rtc_path_length: "length (as_bytes rtc_path @ [0]) = 16"
  by (simp add: rtc_path_def utf8_encode_ascii)

definition time_text :: "'k platform \<Rightarrow> u64 \<Rightarrow> rstr" where
  "time_text P t = time_format P (int (unat t)) 8 (str ''%F %r %z'')"

definition no_clock :: "'k platform \<Rightarrow> ('k \<Rightarrow> bool) \<Rightarrow> ('k \<Rightarrow> bool) \<Rightarrow> ('k \<Rightarrow> u8 list) \<Rightarrow> ('k \<Rightarrow> u8 list) \<Rightarrow> bool" where
  "no_clock P ready ready' inp out \<longleftrightarrow>
     (\<forall>k m p. ready k \<and> load_bytes m p 16 = as_bytes rtc_path @ [0] \<longrightarrow>
       (\<exists>e k'. ecall P SYSCALL_OPEN [p, om_READ, 0, 0, 0, 0] m k = Resume (- errornum_code e) 1 m k' \<and>
          ready' k' \<and> inp k' = inp k \<and> out k' = out k))"

definition clock_at ::
    "'k platform \<Rightarrow> ('k \<Rightarrow> bool) \<Rightarrow> (u64 \<Rightarrow> 'k \<Rightarrow> bool) \<Rightarrow> ('k \<Rightarrow> bool) \<Rightarrow> ('k \<Rightarrow> u8 list) \<Rightarrow> ('k \<Rightarrow> u8 list) \<Rightarrow> u64 \<Rightarrow> bool" where
  "clock_at P ready opened ready' inp out t \<longleftrightarrow> str_len (time_text P t) < 2 ^ 64 \<and>
     (\<forall>k m p. ready k \<and> load_bytes m p 16 = as_bytes rtc_path @ [0] \<longrightarrow>
       (\<exists>fd k'. ecall P SYSCALL_OPEN [p, om_READ, 0, 0, 0, 0] m k = Resume fd 0 m k' \<and>
          opened fd k' \<and> inp k' = inp k \<and> out k' = out k)) \<and>
     (\<forall>fd k m p. opened fd k \<longrightarrow>
       (\<exists>k'. ecall P SYSCALL_READ [fd, p, 8, 0, 0, 0] m k = Resume 8 0 (store_bytes m p (to_le 8 (unat t))) k' \<and>
          opened fd k' \<and> inp k' = inp k \<and> out k' = out k)) \<and>
     (\<forall>fd k m. opened fd k \<longrightarrow>
       (\<exists>r k'. ecall P SYSCALL_CLOSE [fd, 0, 0, 0, 0, 0] m k = Resume r 0 m k' \<and>
          ready' k' \<and> inp k' = inp k \<and> out k' = out k))"

definition prompt_kernel ::
    "'k platform \<Rightarrow> ('k \<Rightarrow> bool) \<Rightarrow> ('k \<Rightarrow> bool) \<Rightarrow> ('k \<Rightarrow> u8 list) \<Rightarrow> ('k \<Rightarrow> u8 list) \<Rightarrow> rstr \<Rightarrow> u64 option \<Rightarrow> bool" where
  "prompt_kernel P ready ready' inp out path clock \<longleftrightarrow>
     console P ready inp out \<and> console P ready' inp out \<and> valid_str path \<and> str_len path \<le> 1024 \<and>
     (\<forall>k m p. ready k \<longrightarrow> (\<exists>n k'. ecall P SYSCALL_GETCWD [p, 1024, 0, 0, 0, 0] m k
         = Resume n 0 (store_bytes m p (as_bytes path)) k' \<and> ready k' \<and> inp k' = inp k \<and> out k' = out k)) \<and>
     (case clock of
        None \<Rightarrow> no_clock P ready ready' inp out
      | Some t \<Rightarrow> \<exists>opened. clock_at P ready opened ready' inp out t)"

definition padded :: "rstr \<Rightarrow> rstr" where
  "padded path = path @ replicate (1024 - str_len path) 0"

lemma as_bytes_NULs [simp]: "as_bytes (replicate n 0) = replicate n 0"
  by (induction n) (simp_all add: utf8_encode_ascii)

lemma load_overwritten:
  assumes "length bs \<le> length zs" "length zs \<le> 2 ^ 64"
  shows "load_bytes (store_bytes (store_bytes m p zs) p bs) p (length zs) = bs @ drop (length bs) zs"
proof (rule nth_equalityI)
  fix i
  assume i: "i < length (load_bytes (store_bytes (store_bytes m p zs) p bs) p (length zs))"
  then have "unat (of_nat i :: addr) = i" using assms(2) by (intro unat_of_nat_u64) simp
  with i assms show "load_bytes (store_bytes (store_bytes m p zs) p bs) p (length zs) ! i
      = (bs @ drop (length bs) zs) ! i"
    by (simp add: load_bytes_def store_bytes_def nth_append)
qed (use assms in simp)

lemma getcwd_answer:
  assumes "p = place P (length (trace w)) 1024" and "m = store_bytes (mem w) p (replicate 1024 0)"
    and k: "ecall P SYSCALL_GETCWD [p, 1024, 0, 0, 0, 0] m (kern w) = Resume n 0 (store_bytes m p (as_bytes path)) k'"
    and "valid_str path" and "str_len path \<le> 1024"
  shows "getcwd P w = Some (Value (Inr (padded path)), w\<lparr>mem := store_bytes m p (as_bytes path), kern := k',
    trace := trace w @ [logged SYSCALL_GETCWD [p, 1024, 0, 0, 0, 0] (w\<lparr>mem := m\<rparr>)]\<rparr>)"
proof -
  obtain z :: "u8 list" where z: "z = replicate 1024 0" by blast
  have p: "p = place P (length (trace w)) (length z)" and m: "m = store_bytes (mem w) p z" using assms(1,2) by (simp_all add: z)
  let ?w = "w\<lparr>mem := store_bytes m p (as_bytes path), kern := k',
    trace := trace w @ [logged SYSCALL_GETCWD [p, 1024, 0, 0, 0, 0] (w\<lparr>mem := m\<rparr>)]\<rparr>"
  have "length (as_bytes path) \<le> length z" using assms(5) by (simp add: str_len_def z)
  from load_overwritten [OF this, of "mem w" p] have "load_bytes (mem ?w) p 1024 = as_bytes (padded path)"
    by (simp add: m z padded_def str_len_def)
  moreover have "valid_str (replicate n 0)" for n by (induction n) (simp_all add: is_scalar_def)
  then have "valid_str (padded path)" using assms(4) by (simp add: padded_def)
  ultimately have v: "from_utf8 (load_bytes (mem ?w) p 1024) = Inr (padded path)" by simp
  have run: "getcwd_raw P (p, 1024) (w\<lparr>mem := m\<rparr>) = Some (Value (Inr n), ?w)"
    using k by (simp add: getcwd_raw_def rust_simps)
  show ?thesis
    unfolding getcwd_def with_data_def Let_def z [symmetric] p [symmetric] m [symmetric]
    using run v by (simp add: try_then_def andthen_def read_buffer_def ret_def)
qed

lemma getcwd_prompt:
  assumes "prompt_kernel P ready ready' inp out path clock" and "ready (kern w)"
  shows "\<exists>w'. getcwd P w = Some (Value (Inr (padded path)), w') \<and> on_console P ready inp out w' \<and>
    prints inp out [] w w'"
proof -
  obtain p m where pm: "p = place P (length (trace w)) 1024" "m = store_bytes (mem w) p (replicate 1024 0)" by blast
  from assms obtain n k' where k: "ecall P SYSCALL_GETCWD [p, 1024, 0, 0, 0, 0] m (kern w)
      = Resume n 0 (store_bytes m p (as_bytes path)) k'"
    and r: "ready k'" "inp k' = inp (kern w)" "out k' = out (kern w)"
    unfolding prompt_kernel_def by blast
  have path: "valid_str path" "str_len path \<le> 1024" "console P ready inp out"
    using assms(1) by (simp_all add: prompt_kernel_def)
  from getcwd_answer [OF pm k path(1,2)] r path(3) show ?thesis by (simp add: on_console_def talks_def)
qed

text \<open>The answer to opening the clock goes through the buffer of its path.\<close>

lemma open_clock:
  assumes "ready (kern w)" and "heap_place P (heap w) (live w) 16 = Some p"
    and call: "\<And>k m p. ready k \<Longrightarrow> load_bytes m p 16 = as_bytes rtc_path @ [0] \<Longrightarrow>
      \<exists>a0 a1 k'. ecall P SYSCALL_OPEN [p, om_READ, 0, 0, 0, 0] m k = Resume a0 a1 m k' \<and> Q a0 a1 k' \<and>
        inp k' = inp k \<and> out k' = out k"
  shows "\<exists>a0 a1 m k' u. Q a0 a1 k' \<and> inp k' = inp (kern w) \<and> out k' = out (kern w) \<and>
    ecall P SYSCALL_OPEN [p, om_READ, 0, 0, 0, 0] (mem u) (kern u) = Resume a0 a1 m k' \<and>
    open_file P rtc_path om_READ w = andthen (map_ok fd_from (do_syscall P [p, om_READ, 0, 0, 0, 0] SYSCALL_OPEN))
      (\<lambda>x w'. ret x (w'\<lparr>live := remove1 (p, 16) (live w')\<rparr>)) u \<and>
    live u = (p, 16) # live w \<and> heap u = heap w"
proof -
  let ?m = "store_bytes (mem w) p (as_bytes rtc_path @ [0])"
  have "load_bytes ?m p 16 = as_bytes rtc_path @ [0]"
    by (rule load_store_bytes) (simp_all only: rtc_path_length, simp)
  from call [OF assms(1) this] obtain a0 a1 k' where
    k: "ecall P SYSCALL_OPEN [p, om_READ, 0, 0, 0, 0] ?m (kern w) = Resume a0 a1 ?m k'" "Q a0 a1 k'"
      "inp k' = inp (kern w)" "out k' = out (kern w)" by blast
  let ?u = "w\<lparr>mem := ?m, live := (p, 16) # live w\<rparr>"
  have "open_file P rtc_path om_READ w = andthen (map_ok fd_from (do_syscall P [p, om_READ, 0, 0, 0, 0] SYSCALL_OPEN))
      (\<lambda>x w'. ret x (w'\<lparr>live := remove1 (p, 16) (live w')\<rparr>)) ?u"
    using assms(2) rtc_path_length by (simp add: open_file_def with_vec_def with_block_def del: length_append)
  with k show ?thesis by (intro exI [of _ a0] exI [of _ a1] exI [of _ ?m] exI [of _ k'] exI [of _ ?u]) simp
qed

lemma open_fails_prompt:
  assumes "no_clock P ready ready' inp out" and "console P ready' inp out" and "ready (kern w)"
    and "heap_place P (heap w) (live w) 16 = Some p"
  shows "\<exists>e w'. open_file P rtc_path om_READ w = Some (Value (Inl e), w') \<and> on_console P ready' inp out w' \<and>
    prints inp out [] w w'"
proof -
  let ?Q = "\<lambda>a0 a1 k'. a1 = 1 \<and> (\<exists>e. a0 = - errornum_code e) \<and> ready' k'"
  have "\<exists>a0 a1 k'. ecall P SYSCALL_OPEN [p, om_READ, 0, 0, 0, 0] m k = Resume a0 a1 m k' \<and> ?Q a0 a1 k' \<and>
      inp k' = inp k \<and> out k' = out k" if "ready k" "load_bytes m p 16 = as_bytes rtc_path @ [0]" for k m p
    using assms(1) that unfolding no_clock_def by blast
  from open_clock [where Q = ?Q and ready = ready and inp = inp and out = out, OF assms(3,4) this] obtain e m k' u where
    q: "ready' k'" "inp k' = inp (kern w)" "out k' = out (kern w)"
    and e: "ecall P SYSCALL_OPEN [p, om_READ, 0, 0, 0, 0] (mem u) (kern u) = Resume (- errornum_code e) 1 m k'"
    and o: "open_file P rtc_path om_READ w = andthen (map_ok fd_from (do_syscall P [p, om_READ, 0, 0, 0, 0] SYSCALL_OPEN))
      (\<lambda>x w'. ret x (w'\<lparr>live := remove1 (p, 16) (live w')\<rparr>)) u"
    and u: "live u = (p, 16) # live w" "heap u = heap w" by blast
  have "do_syscall P [p, om_READ, 0, 0, 0, 0] SYSCALL_OPEN u = Some (Value (Inl e), u\<lparr>mem := m, kern := k',
      trace := trace u @ [logged SYSCALL_OPEN [p, om_READ, 0, 0, 0, 0] u]\<rparr>)"
    using do_syscall_Err [OF e] by simp
  with o u q assms(2) show ?thesis
    by (simp add: map_ok_def andthen_def ret_def on_console_def talks_def)
qed

lemma open_clock_prompt:
  assumes "clock_at P ready opened ready' inp out t" and "ready (kern w)"
    and "heap_place P (heap w) (live w) 16 = Some p"
  shows "\<exists>fd w'. open_file P rtc_path om_READ w = Some (Value (Inr (FileDecstiptor fd)), w') \<and> opened fd (kern w') \<and>
    prints inp out [] w w'"
proof -
  let ?Q = "\<lambda>fd a1 k'. a1 = 0 \<and> opened fd k'"
  have "\<exists>a0 a1 k'. ecall P SYSCALL_OPEN [p, om_READ, 0, 0, 0, 0] m k = Resume a0 a1 m k' \<and> ?Q a0 a1 k' \<and>
      inp k' = inp k \<and> out k' = out k" if "ready k" "load_bytes m p 16 = as_bytes rtc_path @ [0]" for k m p
    using assms(1) that unfolding clock_at_def by blast
  from open_clock [where Q = ?Q and ready = ready and inp = inp and out = out, OF assms(2,3) this] obtain fd m k' u where
    q: "opened fd k'" "inp k' = inp (kern w)" "out k' = out (kern w)"
    and e: "ecall P SYSCALL_OPEN [p, om_READ, 0, 0, 0, 0] (mem u) (kern u) = Resume fd 0 m k'"
    and o: "open_file P rtc_path om_READ w = andthen (map_ok fd_from (do_syscall P [p, om_READ, 0, 0, 0, 0] SYSCALL_OPEN))
      (\<lambda>x w'. ret x (w'\<lparr>live := remove1 (p, 16) (live w')\<rparr>)) u"
    and u: "live u = (p, 16) # live w" "heap u = heap w" by blast
  with do_syscall_Ok [OF e] show ?thesis
    by (simp add: map_ok_def andthen_def ret_def talks_def fd_from_def)
qed

definition prompt_text :: "'k platform \<Rightarrow> rstr \<Rightarrow> u64 option \<Rightarrow> rstr" where
  "prompt_text P path clock = str ''[ '' @ padded path @ str '' ]''
     @ (case clock of None \<Rightarrow> [] | Some t \<Rightarrow> str '' '' @ time_text P t) @ str '' $ ''"

lemma small_literal: "length s < 2 ^ 60 \<Longrightarrow> str_len s < 2 ^ 64"
  using length_as_bytes_bound [of s] by (simp add: str_len_def)

lemma small_report:
  assumes "length (source_path P (pi_file i)) < 2 ^ 32" and "length (dec_digits (pi_line i)) < 2 ^ 32"
    and "\<forall>s\<in>set (pi_message i). length s < 2 ^ 32" and "length name < 2 ^ 32"
  shows "\<forall>s\<in>set (report_pieces P name i). str_len s < 2 ^ 64"
proof -
  have "length s < 2 ^ 60" if "s \<in> set (report_pieces P name i)" for s
    using that assms by (fastforce simp: report_pieces_def str_def split: if_splits)
  then show ?thesis using small_literal by blast
qed

lemma padded_small: "str_len path \<le> 1024 \<Longrightarrow> str_len (padded path) \<le> 1024"
  by (simp add: padded_def str_len_def)

lemma clock_readE:
  assumes "clock_at P ready opened ready' inp out t" "opened fd k"
  obtains k' where "ecall P SYSCALL_READ [fd, p, 8, 0, 0, 0] m k = Resume 8 0 (store_bytes m p (to_le 8 (unat t))) k'"
    "opened fd k'" "inp k' = inp k" "out k' = out k"
  using assms unfolding clock_at_def by blast

lemma clock_closeE:
  assumes "clock_at P ready opened ready' inp out t" "opened fd k"
  obtains r k' where "ecall P SYSCALL_CLOSE [fd, 0, 0, 0, 0, 0] m k = Resume r 0 m k'"
    "ready' k'" "inp k' = inp k" "out k' = out k"
  using assms unfolding clock_at_def by blast

lemma print_time_prompt:
  assumes "clock_at P ready opened ready' inp out t" and "console P ready' inp out" and "opened fd (kern w)"
  shows "\<exists>w'. print_time P (FileDecstiptor fd) w = Some (Value (), w') \<and> on_console P ready' inp out w' \<and>
    prints inp out (as_bytes (str '' '' @ time_text P t @ str '' $ '')) w w'"
proof -
  obtain z :: "u8 list" where z: "z = replicate 8 0" by blast
  let ?p = "place P (length (trace w)) (length z)"
  let ?mem = "store_bytes (mem w) ?p z"
  let ?w = "w\<lparr>mem := ?mem\<rparr>"
  let ?m = "store_bytes ?mem ?p (to_le 8 (unat t))"
  obtain k1 where k1: "ecall P SYSCALL_READ [fd, ?p, 8, 0, 0, 0] ?mem (kern w) = Resume 8 0 ?m k1"
    "opened fd k1" "inp k1 = inp (kern w)" "out k1 = out (kern w)"
    by (rule clock_readE [OF assms(1,3)])
  let ?after_read = "?w\<lparr>mem := ?m, kern := k1, trace := trace ?w @ [logged SYSCALL_READ [fd, ?p, 8, 0, 0, 0] ?w]\<rparr>"
  have rd: "read_fd P (FileDecstiptor fd) (?p, 8) ?w = Some (Value (Inr 8), ?after_read)"
    using do_syscall_Ok [of P SYSCALL_READ "[fd, ?p, 8, 0, 0, 0]" ?w 8 ?m k1] k1(1)
    by (simp add: read_fd_def read_raw_def del: to_le.simps)
  have bytes: "load_bytes (mem ?after_read) ?p 8 = to_le 8 (unat t)"
    using load_store_bytes [of 8 "to_le 8 (unat t)" ?mem ?p] by (simp del: to_le.simps)
  obtain r k2 where k2: "ecall P SYSCALL_CLOSE [fd, 0, 0, 0, 0, 0] ?m k1 = Resume r 0 ?m k2"
    "ready' k2" "inp k2 = inp k1" "out k2 = out k1"
    by (rule clock_closeE [OF assms(1) k1(2)])
  let ?after_close = "?after_read\<lparr>mem := ?m, kern := k2, trace := trace ?after_read @ [logged SYSCALL_CLOSE [fd, 0, 0, 0, 0, 0] ?after_read]\<rparr>"
  have cl: "close P (FileDecstiptor fd) ?after_read = Some (Value (Inr r), ?after_close)"
    using do_syscall_Ok [of P SYSCALL_CLOSE "[fd, 0, 0, 0, 0, 0]" ?after_read r ?m k2] k2(1)
    by (simp add: close_def del: to_le.simps)
  have on: "on_console P ready' inp out ?after_close" using assms(2) k2(2) by (simp add: on_console_def)
  have "\<forall>s\<in>set (fmt_pieces [Lit (str '' ''), Arg [time_text P t], Lit (str '' $ '')]). str_len s < 2 ^ 64"
    using assms(1) by (simp add: clock_at_def str_len_def utf8_encode_ascii)
  from print_console [OF on this] obtain w3 where
    w3: "print_macro P [Lit (str '' ''), Arg [time_text P t], Lit (str '' $ '')] ?after_close = Some (Value (), w3)"
      "on_console P ready' inp out w3" "prints inp out (as_bytes (str '' '' @ time_text P t @ str '' $ '')) ?after_close w3"
    unfolding print_macro_def concat_fmt_pieces by auto
  have "from_le (to_le 8 (unat t)) = unat t" using unat_u64_less [of t] by (simp add: from_le_to_le del: to_le.simps)
  then have "print_time P (FileDecstiptor fd) w = Some (Value (), w3)"
    unfolding print_time_def with_data_def Let_def z [symmetric]
    using rd bytes cl w3(1)
    by (simp add: andthen_def read_buffer_def ret_def unwrap_result_def time_text_def del: to_le.simps str_simps)
  with w3(2,3) k1 k2 show ?thesis by (auto simp: talks_def simp del: to_le.simps)
qed

text \<open>After the directory the prompt goes on with the time, or without it when there is no clock.\<close>

definition print_clock :: "'k platform \<Rightarrow> errornum + file_descriptor \<Rightarrow> ('k, unit) rust" where
  "print_clock P opened = (case opened of Inr fd \<Rightarrow> print_time P fd | Inl _ \<Rightarrow> print_macro P [Lit (str '' $ '')])"

lemma print_header_directory:
  assumes pk: "prompt_kernel P ready ready' inp out path clock" and "ready (kern w)"
  shows "\<exists>w'. print_header P w = andthen (open_file P rtc_path om_READ) (print_clock P) w' \<and>
    on_console P ready inp out w' \<and> prints inp out (as_bytes (str ''[ '' @ padded path @ str '' ]'')) w w'"
proof -
  have ps: "str_len path \<le> 1024" using pk by (simp add: prompt_kernel_def)
  from getcwd_prompt [OF pk assms(2)] obtain w1 where
    w1: "getcwd P w = Some (Value (Inr (padded path)), w1)" "on_console P ready inp out w1"
      "prints inp out [] w w1" by blast
  let ?parts = "fmt_pieces [Lit (str ''[ ''), Arg [padded path], Lit (str '' ]'')]"
  have "\<forall>s\<in>set ?parts. str_len s < 2 ^ 64"
    using padded_small [OF ps] by (simp add: str_len_def utf8_encode_ascii)
  from print_console [OF w1(2) this] obtain w2 where
    w2: "print_macro P [Lit (str ''[ ''), Arg [padded path], Lit (str '' ]'')] w1 = Some (Value (), w2)"
      "on_console P ready inp out w2" "prints inp out (as_bytes (str ''[ '' @ padded path @ str '' ]'')) w1 w2"
    unfolding print_macro_def concat_fmt_pieces by auto
  have "print_header P w = andthen (open_file P rtc_path om_READ) (print_clock P) w2"
    using w1(1) w2(1)
    by (simp add: print_header_def andthen_def [of "getcwd P"] andthen_def [of "print_macro P _"] unwrap_result_def
        rtc_path_def print_clock_def [abs_def] del: str_simps)
  moreover have "prints inp out (as_bytes (str ''[ '' @ padded path @ str '' ]'')) w w2"
    using w1(3) w2(3) by (simp add: talks_def)
  ultimately show ?thesis using w2(2) by blast
qed

lemma prompt_without_clock:
  assumes "no_clock P ready ready' inp out" and con: "console P ready' inp out" and "ready (kern w)"
    and "heap_place P (heap w) (live w) 16 = Some p"
  shows "\<exists>w'. andthen (open_file P rtc_path om_READ) (print_clock P) w = Some (Value (), w') \<and>
    on_console P ready' inp out w' \<and> prints inp out (as_bytes (str '' $ '')) w w'"
proof -
  from open_fails_prompt [OF assms] obtain e w1 where
    w1: "open_file P rtc_path om_READ w = Some (Value (Inl e), w1)"
      "on_console P ready' inp out w1" "prints inp out [] w w1" by blast
  have "\<forall>s\<in>set (fmt_pieces [Lit (str '' $ '')]). str_len s < 2 ^ 64"
    by (simp add: str_len_def utf8_encode_ascii)
  from print_console [OF w1(2) this] obtain w2 where
    w2: "print_macro P [Lit (str '' $ '')] w1 = Some (Value (), w2)"
      "on_console P ready' inp out w2" "prints inp out (as_bytes (str '' $ '')) w1 w2"
    unfolding print_macro_def concat_fmt_pieces by auto
  have "andthen (open_file P rtc_path om_READ) (print_clock P) w = Some (Value (), w2)"
    using w1(1) w2(1) by (simp add: andthen_def print_clock_def del: str_simps)
  moreover have "prints inp out (as_bytes (str '' $ '')) w w2" using w1(3) w2(3) by (simp add: talks_def)
  ultimately show ?thesis using w2(2) by blast
qed

lemma prompt_with_clock:
  assumes c: "clock_at P ready opened ready' inp out t" and con: "console P ready' inp out" and "ready (kern w)"
    and "heap_place P (heap w) (live w) 16 = Some p"
  shows "\<exists>w'. andthen (open_file P rtc_path om_READ) (print_clock P) w = Some (Value (), w') \<and>
    on_console P ready' inp out w' \<and> prints inp out (as_bytes (str '' '' @ time_text P t @ str '' $ '')) w w'"
proof -
  from open_clock_prompt [OF c assms(3,4)] obtain fd w1 where
    w1: "open_file P rtc_path om_READ w = Some (Value (Inr (FileDecstiptor fd)), w1)" "opened fd (kern w1)"
      "prints inp out [] w w1" by blast
  from print_time_prompt [OF c con w1(2)] obtain w2 where
    w2: "print_time P (FileDecstiptor fd) w1 = Some (Value (), w2)" "on_console P ready' inp out w2"
      "prints inp out (as_bytes (str '' '' @ time_text P t @ str '' $ '')) w1 w2" by blast
  have "andthen (open_file P rtc_path om_READ) (print_clock P) w = Some (Value (), w2)"
    using w1(1) w2(1) by (simp add: andthen_def print_clock_def)
  moreover have "prints inp out (as_bytes (str '' '' @ time_text P t @ str '' $ '')) w w2"
    using w1(3) w2(3) by (simp add: talks_def)
  ultimately show ?thesis using w2(2) by blast
qed

lemma print_header_prompt:
  assumes pk: "prompt_kernel P ready ready' inp out path clock" and "ready (kern w)"
    and heap: "heap_place P (heap w) (live w) 16 \<noteq> None"
  shows "\<exists>w'. print_header P w = Some (Value (), w') \<and> on_console P ready' inp out w' \<and>
    prints inp out (as_bytes (prompt_text P path clock)) w w'"
proof -
  have con: "console P ready' inp out" using pk by (simp add: prompt_kernel_def)
  from print_header_directory [OF assms(1,2)] obtain w1 where
    w1: "print_header P w = andthen (open_file P rtc_path om_READ) (print_clock P) w1"
      "ready (kern w1)" "prints inp out (as_bytes (str ''[ '' @ padded path @ str '' ]'')) w w1"
    by (auto simp: on_console_def)
  have "heap_place P (heap w1) (live w1) 16 \<noteq> None" using heap w1(3) by (simp add: talks_def)
  then obtain p where p: "heap_place P (heap w1) (live w1) 16 = Some p" by blast
  let ?rest = "case clock of None \<Rightarrow> str '' $ '' | Some t \<Rightarrow> str '' '' @ time_text P t @ str '' $ ''"
  have "\<exists>w2. andthen (open_file P rtc_path om_READ) (print_clock P) w1 = Some (Value (), w2) \<and>
    on_console P ready' inp out w2 \<and> prints inp out (as_bytes ?rest) w1 w2"
  proof (cases clock)
    case None
    with pk have "no_clock P ready ready' inp out" by (simp add: prompt_kernel_def)
    from prompt_without_clock [OF this con w1(2) p] show ?thesis unfolding None option.case .
  next
    case (Some t)
    with pk obtain opened where "clock_at P ready opened ready' inp out t" by (auto simp: prompt_kernel_def)
    from prompt_with_clock [OF this con w1(2) p] show ?thesis unfolding Some option.case .
  qed
  then obtain w2 where w2: "andthen (open_file P rtc_path om_READ) (print_clock P) w1 = Some (Value (), w2)"
    "on_console P ready' inp out w2" "prints inp out (as_bytes ?rest) w1 w2" by blast
  have "prints inp out (as_bytes (prompt_text P path clock)) w w2"
    using w1(3) w2(3) by (cases clock) (simp_all add: talks_def prompt_text_def utf8_encode_ascii)
  with w1(1) w2 show ?thesis by auto
qed

section \<open>Output of the shell on the console\<close>

definition crlf :: "rstr \<Rightarrow> rstr" where
  "crlf s = s @ [13, 10]"

definition help_text :: rstr where
  "help_text = concat (map crlf help_lines)"

lemma println_literal_memory:
  assumes "on_console P ready inp out w" "s \<noteq> []" "length s < 2 ^ 59"
  shows "\<exists>w'. println_macro P [Lit s] w = Some (Value (), w') \<and> on_console P ready inp out w' \<and>
    prints inp out (as_bytes (crlf s)) w w' \<and>
    mem w' = store_bytes (mem w) (place P (length (trace w)) (length (as_bytes (crlf s)))) (as_bytes (crlf s))"
proof -
  have "str_len (crlf s) < 2 ^ 64" using small_literal [of "crlf s"] assms(3)
    by (simp add: crlf_def del: str_len_simps)
  from write_str_memory [OF assms(1) this] obtain w' where
    "write_str P (crlf s) w = Some (Value (Inr ()), w')" and
    w': "on_console P ready inp out w'" "prints inp out (as_bytes (crlf s)) w w'"
      "mem w' = store_bytes (mem w) (place P (length (trace w)) (length (as_bytes (crlf s)))) (as_bytes (crlf s))" by blast
  then have "println_macro P [Lit s] w = Some (Value (), w')"
    using assms(2) by (simp add: println_macro_def print_def crlf_def rust_simps unwrap_result_def)
  with w' show ?thesis by blast
qed

lemma println_console:
  assumes "on_console P ready inp out w" "length s < 2 ^ 59"
  shows "\<exists>w'. println_macro P [Lit s] w = Some (Value (), w') \<and> on_console P ready inp out w' \<and>
    prints inp out (as_bytes (crlf s)) w w'"
proof -
  have "\<forall>t\<in>set [crlf s]. str_len t < 2 ^ 64" using small_literal [of "crlf s"] assms(2)
    by (simp add: crlf_def del: str_len_simps)
  from print_console [OF assms(1) this] show ?thesis by (simp add: println_macro_def crlf_def)
qed

lemma println_all_console:
  assumes "on_console P ready inp out w" "\<forall>s\<in>set ss. length s < 2 ^ 59"
  shows "\<exists>w'. println_all P ss w = Some (Value (), w') \<and> on_console P ready inp out w' \<and>
    prints inp out (as_bytes (concat (map crlf ss))) w w'"
  using assms
proof (induction ss arbitrary: w)
  case Nil
  then show ?case by (auto simp: ret_def talks_def)
next
  case (Cons s ss)
  then obtain w1 where w1: "println_macro P [Lit s] w = Some (Value (), w1)" "on_console P ready inp out w1"
    "prints inp out (as_bytes (crlf s)) w w1" using println_console by (metis list.set_intros(1))
  with Cons.IH [OF w1(2)] Cons.prems(2) obtain w2 where
    "println_all P ss w1 = Some (Value (), w2)" "on_console P ready inp out w2"
    "prints inp out (as_bytes (concat (map crlf ss))) w1 w2" by auto
  with w1 show ?case by (auto simp: rust_simps talks_def)
qed

lemma serve_help_console:
  assumes "on_console P ready inp out w"
  shows "\<exists>w'. serve_help P cmd w = Some (Value (Inr ()), w') \<and> on_console P ready inp out w' \<and>
    prints inp out (as_bytes help_text) w w'"
proof -
  have "\<forall>s\<in>set help_lines. length s < 2 ^ 59" by (simp add: help_lines_def)
  from println_all_console [OF assms this] show ?thesis
    by (auto simp: serve_help_def help_text_def rust_simps)
qed

lemma not_both_prefixes: "starts_with (str ''help'') cmd \<Longrightarrow> \<not> starts_with (str ''cd '') cmd"
  by (cases cmd) (auto simp: starts_with_def)

lemma echo_newline [simp]: "echo 10 = [10]"
  by (simp add: echo_def utf8_encode_ascii)

text \<open>A line whose command panics ends the loop with that panic.\<close>

end
