(* ===== verification/Shell_Session.thy ===== *)
theory Shell_Session
  imports Shell_Facts
begin

text \<open>
  An abstract shell and its refinement by the code. The abstract shell knows the current directory, the
  programs that will be started, each as what it prints and the code it exits with, and the times the
  clock will show; \<open>answer\<close> says
  what a line does, \<open>dialogue\<close> what the whole session shows on the console. \<open>shell_kernel\<close> states what
  the kernel promises the shell, and under it the main loop is proved to produce the dialogue.
\<close>

section \<open>The abstract shell\<close>

type_synonym job = "u8 list \<times> u64"

record shell_state =
  sh_dir :: rstr
  sh_jobs :: "job list"
  sh_times :: "u64 list"

definition reading :: "shell_state \<Rightarrow> u64 option" where
  "reading s = (case sh_times s of [] \<Rightarrow> None | t # _ \<Rightarrow> Some t)"

text \<open>A prompt uses up one reading of the clock; without readings left the machine has no clock.\<close>

definition tick :: "shell_state \<Rightarrow> shell_state" where
  "tick s = s\<lparr>sh_times := tl (sh_times s)\<rparr>"

definition failed :: "errornum \<Rightarrow> u8 list" where
  "failed e = as_bytes (crlf (str ''Command failed with '' @ str (errornum_name e) @ str ''.''))"

definition exited :: "u64 \<Rightarrow> u8 list" where
  "exited code = as_bytes (crlf (str ''Program exited with code '' @ concat (display_isize code) @ str ''.''))"

text \<open>
  \<open>answer P resolve l s\<close>: what the line \<open>l\<close> prints and the state after it. \<open>resolve d bs\<close> is the
  directory that \<open>cd\<close> to the C string \<open>bs\<close> leads to from \<open>d\<close>.
\<close>

definition answer ::
    "'k platform \<Rightarrow> (rstr \<Rightarrow> u8 list \<Rightarrow> rstr option) \<Rightarrow> rstr \<Rightarrow> shell_state \<Rightarrow> u8 list \<times> shell_state" where
  "answer P resolve l s =
     (if starts_with (str ''cd '') l then
       (case resolve (sh_dir s) (takeWhile (\<lambda>b. b \<noteq> 0) (as_bytes (trim (drop 3 l)))) of
          Some d \<Rightarrow> ([], s\<lparr>sh_dir := d\<rparr>)
        | None \<Rightarrow> (failed ENOENT, s))
     else if starts_with (str ''help'') l then (as_bytes help_text, s)
     else (case parse P l of
         Inr (Inr c) \<Rightarrow>
           (case sh_jobs s of
              (shown, code) # rest \<Rightarrow> (shown @ exited code, s\<lparr>sh_jobs := rest\<rparr>)
            | [] \<Rightarrow> (failed ECHILD, s))
       | _ \<Rightarrow> (failed ENOEXEC, s)))"

text \<open>The lines after which the shell is still there: no \<open>exit\<close>, no power command, no parser panic.\<close>

definition stays :: "'k platform \<Rightarrow> rstr \<Rightarrow> bool" where
  "stays P l \<longleftrightarrow> \<not> starts_with (str ''exit'') l \<and> \<not> starts_with (str ''shutdown'') l \<and>
     \<not> starts_with (str ''reboot'') l \<and> (\<forall>i. parse P l \<noteq> Inl i)"

text \<open>Typed lines: prompt, echo of the keys, answer to the edited line, for each of them.\<close>

fun exchange ::
    "'k platform \<Rightarrow> (rstr \<Rightarrow> u8 list \<Rightarrow> rstr option) \<Rightarrow> rstr list \<Rightarrow> shell_state \<Rightarrow> u8 list \<times> shell_state" where
  "exchange P resolve [] s = ([], s)"
| "exchange P resolve (l # ls) s =
     (let (shown, s') = answer P resolve (foldl key [] l) (tick s);
          (texts, s'') = exchange P resolve ls s'
      in (as_bytes (prompt_text P (sh_dir s) (reading s)) @ echo_keys [] l @ [10] @ shown @ texts, s''))"

text \<open>A session to the end of the input: the lines, and a last prompt that is not answered.\<close>

definition dialogue ::
    "'k platform \<Rightarrow> (rstr \<Rightarrow> u8 list \<Rightarrow> rstr option) \<Rightarrow> rstr list \<Rightarrow> shell_state \<Rightarrow> u8 list \<times> shell_state" where
  "dialogue P resolve ls s =
     (let (texts, s') = exchange P resolve ls s
      in (texts @ as_bytes (prompt_text P (sh_dir s') (reading s')), tick s'))"

section \<open>What the kernel promises\<close>

record 'k shell_view =
  v_ready :: "'k \<Rightarrow> bool"
  v_inp :: "'k \<Rightarrow> u8 list"
  v_out :: "'k \<Rightarrow> u8 list"
  v_cwd :: "'k \<Rightarrow> rstr"
  v_jobs :: "'k \<Rightarrow> job list"
  v_times :: "'k \<Rightarrow> u64 list"
  v_resolve :: "rstr \<Rightarrow> u8 list \<Rightarrow> rstr option"

definition good_dir :: "rstr \<Rightarrow> bool" where
  "good_dir d \<longleftrightarrow> valid_str d \<and> str_len d \<le> 1024"

definition holds :: "'k shell_view \<Rightarrow> shell_state \<Rightarrow> 'k \<Rightarrow> bool" where
  "holds V s k \<longleftrightarrow> v_ready V k \<and> v_cwd V k = sh_dir s \<and> v_jobs V k = sh_jobs s \<and> v_times V k = sh_times s \<and>
     good_dir (sh_dir s)"

text \<open>
  The prompt's calls show the directory and read the clock; \<open>chdir\<close> resolves the path or reports \<open>ENOENT\<close>; \<open>fork\<close> answers
  in the parent; a wait lets the next job run to its end, or reports \<open>ECHILD\<close> when there is none.
\<close>

definition changes_dir :: "'k platform \<Rightarrow> 'k shell_view \<Rightarrow> bool" where
  "changes_dir P V \<longleftrightarrow>
     (\<forall>s k m p n bs. holds V s k \<and> cstr_at m p bs \<longrightarrow>
        (\<exists>k'. v_inp V k' = v_inp V k \<and> v_out V k' = v_out V k \<and>
           (case v_resolve V (sh_dir s) bs of
              Some d' \<Rightarrow> ecall P SYSCALL_CHDIR [p, n, 0, 0, 0, 0] m k = Resume 0 0 m k' \<and> holds V (s\<lparr>sh_dir := d'\<rparr>) k'
            | None \<Rightarrow> ecall P SYSCALL_CHDIR [p, n, 0, 0, 0, 0] m k = Resume (- errornum_code ENOENT) 1 m k' \<and>
                holds V s k')))"

definition forks :: "'k platform \<Rightarrow> 'k shell_view \<Rightarrow> bool" where
  "forks P V \<longleftrightarrow>
     (\<forall>s k m. holds V s k \<longrightarrow>
        (\<exists>pid k'. ecall P SYSCALL_FORK [0, 0, 0, 0, 0, 0] m k = Resume pid 0 m k' \<and> pid \<noteq> 0 \<and>
           holds V s k' \<and> v_inp V k' = v_inp V k \<and> v_out V k' = v_out V k))"

definition waits :: "'k platform \<Rightarrow> 'k shell_view \<Rightarrow> bool" where
  "waits P V \<longleftrightarrow>
     (\<forall>s k m pid p. holds V s k \<longrightarrow>
        (\<exists>k' r. v_inp V k' = v_inp V k \<and> holds V (s\<lparr>sh_jobs := tl (sh_jobs s)\<rparr>) k' \<and>
           (case sh_jobs s of
              (shown, code) # rest \<Rightarrow>
                ecall P SYSCALL_WAITPID [pid, p, 0, 0, 0, 0] m k = Resume r 0 (store_bytes m p (to_le 8 (unat code))) k' \<and>
                v_out V k' = v_out V k @ shown
            | [] \<Rightarrow> ecall P SYSCALL_WAITPID [pid, p, 0, 0, 0, 0] m k = Resume (- errornum_code ECHILD) 1 m k' \<and>
                v_out V k' = v_out V k)))"

definition shell_kernel :: "'k platform \<Rightarrow> 'k shell_view \<Rightarrow> bool" where
  "shell_kernel P V \<longleftrightarrow>
     (\<forall>s. good_dir (sh_dir s) \<longrightarrow>
        prompt_kernel P (holds V s) (holds V (tick s)) (v_inp V) (v_out V) (sh_dir s) (reading s)) \<and>
     changes_dir P V \<and> forks P V \<and> waits P V"

lemma changes_dirE:
  assumes "changes_dir P V" "holds V s k" "cstr_at m p bs"
  obtains k' where "v_inp V k' = v_inp V k" "v_out V k' = v_out V k"
    "case v_resolve V (sh_dir s) bs of
       Some d' \<Rightarrow> ecall P SYSCALL_CHDIR [p, n, 0, 0, 0, 0] m k = Resume 0 0 m k' \<and> holds V (s\<lparr>sh_dir := d'\<rparr>) k'
     | None \<Rightarrow> ecall P SYSCALL_CHDIR [p, n, 0, 0, 0, 0] m k = Resume (- errornum_code ENOENT) 1 m k' \<and>
         holds V s k'"
  using assms unfolding changes_dir_def by blast

lemma forksE:
  assumes "forks P V" "holds V s k"
  obtains pid k' where "ecall P SYSCALL_FORK [0, 0, 0, 0, 0, 0] m k = Resume pid 0 m k'" "pid \<noteq> 0"
    "holds V s k'" "v_inp V k' = v_inp V k" "v_out V k' = v_out V k"
  using assms unfolding forks_def by blast

lemma waitsE:
  assumes "waits P V" "holds V s k"
  obtains k' r where "v_inp V k' = v_inp V k" "holds V (s\<lparr>sh_jobs := tl (sh_jobs s)\<rparr>) k'"
    "case sh_jobs s of
       (shown, code) # rest \<Rightarrow>
         ecall P SYSCALL_WAITPID [pid, p, 0, 0, 0, 0] m k = Resume r 0 (store_bytes m p (to_le 8 (unat code))) k' \<and>
         v_out V k' = v_out V k @ shown
     | [] \<Rightarrow> ecall P SYSCALL_WAITPID [pid, p, 0, 0, 0, 0] m k = Resume (- errornum_code ECHILD) 1 m k' \<and>
         v_out V k' = v_out V k"
  using assms unfolding waits_def by blast

text \<open>The shell at its prompt in an abstract state, with room for buffers of up to \<open>lim\<close> bytes.\<close>

definition at_prompt :: "'k platform \<Rightarrow> 'k shell_view \<Rightarrow> nat \<Rightarrow> shell_state \<Rightarrow> 'k world \<Rightarrow> bool" where
  "at_prompt P V lim s w \<longleftrightarrow> shell_kernel P V \<and> allocator_sound P \<and> holds V s (kern w) \<and>
     (\<forall>n\<le>lim. heap_place P (heap w) (live w) n \<noteq> None)"

lemma at_prompt_kernel: "at_prompt P V lim s w \<Longrightarrow>
    prompt_kernel P (holds V s) (holds V (tick s)) (v_inp V) (v_out V) (sh_dir s) (reading s)"
  unfolding at_prompt_def shell_kernel_def holds_def [of V s "kern w"] by (elim conjE allE [of _ s]) simp

lemma at_prompt_console: "at_prompt P V lim s w \<Longrightarrow> on_console P (holds V s) (v_inp V) (v_out V) w"
  using at_prompt_kernel [of P V lim s w] by (simp add: on_console_def at_prompt_def prompt_kernel_def)

lemma at_prompt_room: "at_prompt P V lim s w \<Longrightarrow> n \<le> lim \<Longrightarrow> heap_place P (heap w) (live w) n \<noteq> None"
  by (simp add: at_prompt_def)

lemma at_prompt_after:
  assumes "at_prompt P V lim s w" "holds V s' (kern w')" "live w' = live w" "heap w' = heap w"
  shows "at_prompt P V lim s' w'"
  using assms by (simp add: at_prompt_def)

lemma at_prompt_talks:
  assumes "at_prompt P V lim s w" "on_console P (holds V s) (v_inp V) (v_out V) w'"
    "talks (v_inp V) (v_out V) rest bs w w'"
  shows "at_prompt P V lim s w'"
  using assms by (simp add: at_prompt_def on_console_def talks_def)

section \<open>One line\<close>

lemma errornum_name_short: "length (errornum_name e) < 20"
  by (cases e) simp_all

lemma length_dec_digits: "n < 10 ^ k \<Longrightarrow> 0 < k \<Longrightarrow> length (dec_digits n) \<le> k"
proof (induction n arbitrary: k rule: dec_digits.induct)
  case (1 n)
  show ?case
  proof (cases "n < 10")
    case True
    with "1.prems" show ?thesis by (simp add: dec_digits.simps)
  next
    case False
    then obtain j where k: "k = Suc j" and j: "0 < j"
      using "1.prems" by (cases k; cases "k - 1") auto
    then have "n div 10 < 10 ^ j" using "1.prems"(1) by (simp add: div_less_iff_less_mult mult.commute)
    from "1.IH" [OF False this j] False k show ?thesis by (simp add: dec_digits.simps)
  qed
qed

lemma length_display_isize: "s \<in> set (display_isize code) \<Longrightarrow> length s \<le> 20"
proof -
  have "sint code < 2 ^ 63" "- sint code \<le> 2 ^ 63"
    using sint_less [of code] sint_ge [of code] by simp_all
  then have "nat (sint code) < 10 ^ 20" "nat (- sint code) < 10 ^ 20" by simp_all
  then have "length (dec_digits (nat (sint code))) \<le> 20" "length (dec_digits (nat (- sint code))) \<le> 20"
    by (simp_all add: length_dec_digits)
  then show "s \<in> set (display_isize code) \<Longrightarrow> length s \<le> 20"
    by (auto simp: display_isize_def split: if_splits)
qed

lemma println_pieces_console:
  assumes "on_console P ready inp out w" "\<forall>s\<in>set (fmt_pieces (fmt @ [Lit [13, 10]])). length s < 2 ^ 59"
  shows "\<exists>w'. println_macro P fmt w = Some (Value (), w') \<and> on_console P ready inp out w' \<and>
    prints inp out (as_bytes (crlf (concat (map part_text fmt)))) w w'"
proof -
  have "\<forall>s\<in>set (fmt_pieces (fmt @ [Lit [13, 10]])). str_len s < 2 ^ 64"
  proof
    fix s
    assume "s \<in> set (fmt_pieces (fmt @ [Lit [13, 10]]))"
    with assms(2) have "length s < 2 ^ 59" by blast
    then have "length s < 2 ^ 60" by simp
    then show "str_len s < 2 ^ 64" by (rule small_literal)
  qed
  from print_console [OF assms(1) this] show ?thesis
    by (simp add: println_macro_def crlf_def del: as_bytes_simps)
qed

lemma report_failed_console:
  assumes "on_console P ready inp out w"
  shows "\<exists>w'. report_error P (Inl e) w = Some (Value (), w') \<and> on_console P ready inp out w' \<and>
    prints inp out (failed e) w w'"
proof -
  note errornum_name_short [of e]
  then have "\<forall>s\<in>set (fmt_pieces ([Lit (str ''Command failed with ''), Arg (errornum_debug e), Lit (str ''.'')] @ [Lit [13, 10]])).
      length s < 2 ^ 59" by (simp add: errornum_debug_def str_def)
  from println_pieces_console [OF assms this] show ?thesis
    by (simp add: report_error_def failed_def errornum_debug_def del: str_simps)
qed

lemma print_exited_console:
  assumes "on_console P ready inp out w"
  shows "\<exists>w'. println_macro P [Lit (str ''Program exited with code ''), Arg (display_isize code), Lit (str ''.'')] w
      = Some (Value (), w') \<and> on_console P ready inp out w' \<and> prints inp out (exited code) w w'"
proof -
  have "\<forall>s\<in>set (fmt_pieces ([Lit (str ''Program exited with code ''), Arg (display_isize code), Lit (str ''.'')] @ [Lit [13, 10]])).
      length s < 2 ^ 59" by (auto dest: length_display_isize)
  from println_pieces_console [OF assms this] show ?thesis by (simp add: exited_def del: str_simps)
qed

lemma str_len_dropWhile: "str_len (dropWhile Q s) \<le> str_len s"
  by (induction s) auto

lemma str_len_rev [simp]: "str_len (rev s) = str_len s"
  by (induction s) simp_all

lemma str_len_trim: "str_len (trim s) \<le> str_len s"
  unfolding trim_def using str_len_dropWhile [of is_whitespace "rev (dropWhile is_whitespace s)"]
    str_len_dropWhile [of is_whitespace s] by simp

lemma str_len_drop: "str_len (drop n s) \<le> str_len s"
proof -
  have "str_len s = str_len (take n s) + str_len (drop n s)" by (metis append_take_drop_id str_len_simps(3))
  then show ?thesis by simp
qed

section \<open>Commands\<close>

text \<open>
  What one command does from the prompt: it returns to the loop, which reports an error if there is
  one, and the abstract shell has made the step from \<open>s\<close> to \<open>s'\<close>.
\<close>

definition serves ::
    "'k platform \<Rightarrow> 'k shell_view \<Rightarrow> nat \<Rightarrow> rstr \<Rightarrow> u8 list \<Rightarrow> shell_state \<Rightarrow> 'k world \<Rightarrow> bool" where
  "serves P V lim l bs s' w \<longleftrightarrow>
     (\<exists>r v w'. serve_command P l w = Some (Value r, v) \<and> report_error P r v = Some (Value (), w') \<and>
        at_prompt P V lim s' w' \<and> prints (v_inp V) (v_out V) bs w w')"

lemma serves_Ok:
  assumes "serve_command P l w = Some (Value (Inr ()), v)" "at_prompt P V lim s' v"
    "prints (v_inp V) (v_out V) bs w v"
  shows "serves P V lim l bs s' w"
  using assms by (auto simp: serves_def report_error_def ret_def)

lemma serves_Err:
  assumes "serve_command P l w = Some (Value (Inl e), v)" "at_prompt P V lim s' v"
    "prints (v_inp V) (v_out V) bs w v"
  shows "serves P V lim l (bs @ failed e) s' w"
proof -
  from report_failed_console [OF at_prompt_console [OF assms(2)], of e] obtain w' where
    w': "report_error P (Inl e) v = Some (Value (), w')" "on_console P (holds V s') (v_inp V) (v_out V) w'"
      "prints (v_inp V) (v_out V) (failed e) v w'" by blast
  have "at_prompt P V lim s' w'" by (rule at_prompt_talks [OF assms(2) w'(2,3)])
  moreover have "prints (v_inp V) (v_out V) (bs @ failed e) w w'"
    using assms(3) w'(3) by (simp add: talks_def)
  ultimately show ?thesis unfolding serves_def using assms(1) w'(1) by blast
qed

lemma serves_help:
  assumes "at_prompt P V lim s w" "starts_with (str ''help'') l"
  shows "serves P V lim l (as_bytes help_text) s w"
proof -
  from serve_help_console [OF at_prompt_console [OF assms(1)], of l] obtain v where
    v: "serve_help P l w = Some (Value (Inr ()), v)" "on_console P (holds V s) (v_inp V) (v_out V) v"
      "prints (v_inp V) (v_out V) (as_bytes help_text) w v" by blast
  have "serve_command P l w = Some (Value (Inr ()), v)"
    using v(1) assms(2) not_both_prefixes [OF assms(2)] by (simp add: serve_command_def del: str_simps)
  then show ?thesis by (rule serves_Ok) (rule at_prompt_talks [OF assms(1) v(2,3)], rule v(3))
qed

lemma serve_cd_eq:
  assumes "starts_with (str ''cd '') l"
  shows "serve_command P l w = try_then (chdir P (trim (drop 3 l))) (\<lambda>_. ret (Inr ())) w"
proof -
  have "strip_prefix (str ''cd '') l = Some (drop 3 l)"
    using assms by (simp add: strip_prefix_def starts_with_def numeral_3_eq_3)
  with assms show ?thesis
    by (simp add: serve_command_def serve_cd_def andthen_def unwrap_option_def ret_def del: str_simps)
qed

text \<open>\<open>chdir\<close> on a sound allocator with room: the kernel sees the path as a C string.\<close>

lemma chdir_prompt:
  assumes "at_prompt P V lim s w" "str_len path < lim"
    and bs: "bs = takeWhile (\<lambda>b. b \<noteq> 0) (as_bytes path)"
  shows "\<exists>r w'. chdir P path w = Some (Value r, w') \<and> live w' = live w \<and> heap w' = heap w \<and>
    v_inp V (kern w') = v_inp V (kern w) \<and> v_out V (kern w') = v_out V (kern w) \<and>
    (case v_resolve V (sh_dir s) bs of
       Some d' \<Rightarrow> (\<exists>x. r = Inr x) \<and> holds V (s\<lparr>sh_dir := d'\<rparr>) (kern w')
     | None \<Rightarrow> r = Inl ENOENT \<and> holds V s (kern w'))"
proof -
  let ?n = "of_nat (length (as_bytes path)) :: u64"
  let ?Q = "\<lambda>r k'. v_inp V k' = v_inp V (kern w) \<and> v_out V k' = v_out V (kern w) \<and>
    (case v_resolve V (sh_dir s) bs of
       Some d' \<Rightarrow> r = Inr 0 \<and> holds V (s\<lparr>sh_dir := d'\<rparr>) k'
     | None \<Rightarrow> r = Inl ENOENT \<and> holds V s k')"
  have k: "allocator_sound P" "changes_dir P V" "holds V s (kern w)"
    using assms(1) by (simp_all add: at_prompt_def shell_kernel_def)
  have room: "heap_place P (heap w) (live w) (Suc (str_len path)) \<noteq> None"
    by (rule at_prompt_room [OF assms(1)]) (use assms(2) in simp)
  have "\<exists>r k'. ecall P SYSCALL_CHDIR [p, ?n, 0, 0, 0, 0] m (kern w) = kernel_answer r m k' \<and> ?Q r k'"
    if "cstr_at m p (takeWhile (\<lambda>b. b \<noteq> 0) (as_bytes path))" for p m
    by (rule changes_dirE [OF k(2,3) that [folded bs], where n = ?n])
      (auto simp: kernel_answer_def split: option.splits intro: exI [of _ "Inr 0"] exI [of _ "Inl ENOENT"])
  from path_call_runs [where Q = ?Q and n = SYSCALL_CHDIR and args = "\<lambda>p. [p, ?n, 0, 0, 0, 0]", OF k(1) room this]
  obtain r w' where "chdir P path w = Some (Value r, w')" "?Q r (kern w')" "live w' = live w" "heap w' = heap w"
    unfolding chdir_def by blast
  then show ?thesis by (intro exI [of _ r] exI [of _ w']) (auto split: option.splits)
qed

lemma at_prompt_holds:
  assumes "at_prompt P V lim s w" "holds V s' (kern w')" "live w' = live w" "heap w' = heap w"
    "v_inp V (kern w') = v_inp V (kern w)" "v_out V (kern w') = v_out V (kern w) @ bs"
  shows "at_prompt P V lim s' w' \<and> prints (v_inp V) (v_out V) bs w w'"
  using assms at_prompt_after [OF assms(1-4)] by (simp add: talks_def)

lemma str_len_cd: "str_len (str ''cd '') = 3"
  by (simp add: len_utf8_def utf8_encode_ascii)

lemma serves_cd:
  assumes "at_prompt P V lim s w" "starts_with (str ''cd '') l" "str_len l \<le> lim"
    and bs: "bs = takeWhile (\<lambda>b. b \<noteq> 0) (as_bytes (trim (drop 3 l)))"
  shows "case v_resolve V (sh_dir s) bs of
      Some d' \<Rightarrow> serves P V lim l [] (s\<lparr>sh_dir := d'\<rparr>) w
    | None \<Rightarrow> serves P V lim l (failed ENOENT) s w"
proof -
  let ?path = "trim (drop 3 l)"
  have "l = str ''cd '' @ drop 3 l"
    using assms(2) append_take_drop_id [of 3 l] by (simp add: starts_with_def numeral_3_eq_3)
  then have "str_len l = 3 + str_len (drop 3 l)"
    by (metis (no_types) str_len_simps(3) str_len_cd)
  then have "str_len ?path < lim" using assms(3) str_len_trim [of "drop 3 l"] by linarith
  from chdir_prompt [OF assms(1) this bs] obtain r v where
    run: "chdir P ?path w = Some (Value r, v)" and fr: "live v = live w" "heap v = heap w"
      "v_inp V (kern v) = v_inp V (kern w)" "v_out V (kern v) = v_out V (kern w)"
    and out: "case v_resolve V (sh_dir s) bs of
       Some d' \<Rightarrow> (\<exists>x. r = Inr x) \<and> holds V (s\<lparr>sh_dir := d'\<rparr>) (kern v)
     | None \<Rightarrow> r = Inl ENOENT \<and> holds V s (kern v)" by blast
  note frame = at_prompt_holds [OF assms(1) _ fr(1,2,3), of _ "[]", simplified, OF _ fr(4)]
  show ?thesis
  proof (cases "v_resolve V (sh_dir s) bs")
    case None
    with run out have "serve_command P l w = Some (Value (Inl ENOENT), v)"
      by (simp add: serve_cd_eq [OF assms(2)] rust_simps)
    note serves_Err [OF this, of V lim s "[]"]
    moreover have "at_prompt P V lim s v \<and> prints (v_inp V) (v_out V) [] w v"
      by (rule frame) (use out None in simp)
    ultimately show ?thesis using None by simp
  next
    case (Some d')
    with run out have "serve_command P l w = Some (Value (Inr ()), v)"
      by (auto simp: serve_cd_eq [OF assms(2)] rust_simps)
    note serves_Ok [OF this, of V lim "s\<lparr>sh_dir := d'\<rparr>" "[]"]
    moreover have "at_prompt P V lim (s\<lparr>sh_dir := d'\<rparr>) v \<and> prints (v_inp V) (v_out V) [] w v"
      by (rule frame) (use out Some in simp)
    ultimately show ?thesis using Some by simp
  qed
qed

lemma serve_exec_eq:
  assumes "stays P l" "\<not> starts_with (str ''cd '') l" "\<not> starts_with (str ''help'') l"
  shows "serve_command P l = serve_exec P l"
  using assms by (simp add: serve_command_def stays_def fun_eq_iff del: str_simps)

lemma serves_refused:
  assumes "at_prompt P V lim s w" "stays P l" "\<not> starts_with (str ''cd '') l" "\<not> starts_with (str ''help'') l"
    and "parse P l = Inr (Inl e)"
  shows "serves P V lim l (failed ENOEXEC) s w"
proof -
  have "serve_command P l w = Some (Value (Inl ENOEXEC), w)"
    unfolding serve_exec_eq [OF assms(2-4)]
    by (simp add: serve_exec_def assms(5) lift_checked_def map_err_def try_then_def andthen_def ret_def)
  from serves_Err [OF this assms(1), of "[]"] show ?thesis by (simp add: talks_def)
qed

text \<open>The parent of a program: one wait, which runs the next job.\<close>

text \<open>
  The parent of \<open>execute\<close>, in two steps: the fork, after which it waits for the job with a buffer for the
  exit code, and the answer of that wait, which is the first job of the state or its absence.
\<close>

lemma execute_forks:
  assumes "forks P V" and "holds V s (kern w)"
  obtains pid p v where "execute P c w = try_then (waitpid P pid p) (\<lambda>_. andthen (read_buffer p 8)
      (\<lambda>bytes. ret (Inr (of_nat (from_le bytes))))) v"
    and "holds V s (kern v)" and "prints (v_inp V) (v_out V) [] w v"
proof -
  obtain pid k where f: "ecall P SYSCALL_FORK [0, 0, 0, 0, 0, 0] (mem w) (kern w) = Resume pid 0 (mem w) k" "pid \<noteq> 0"
    "holds V s k" "v_inp V k = v_inp V (kern w)" "v_out V k = v_out V (kern w)"
    by (rule forksE [OF assms])
  let ?w1 = "w\<lparr>mem := mem w, kern := k, trace := trace w @ [logged SYSCALL_FORK [0, 0, 0, 0, 0, 0] w]\<rparr>"
  have fork: "fork P w = Some (Value (Inr pid), ?w1)"
    unfolding fork_def by (rule do_syscall_Ok [OF f(1)])
  obtain p where p: "p = place P (length (trace ?w1)) 8" by blast
  show thesis
  proof (rule that [of pid p "?w1\<lparr>mem := store_bytes (mem w) p (to_le 8 0)\<rparr>"])
    show "execute P c w = try_then (waitpid P pid p) (\<lambda>_. andthen (read_buffer p 8)
        (\<lambda>bytes. ret (Inr (of_nat (from_le bytes))))) (?w1\<lparr>mem := store_bytes (mem w) p (to_le 8 0)\<rparr>)"
      using fork f(2) p by (simp add: execute_def parent_def with_data_def Let_def try_then_simps(1) del: to_le.simps)
  qed (use f in \<open>simp_all add: talks_def del: to_le.simps\<close>)
qed

lemma waitpid_prompt:
  assumes "waits P V" and "holds V s (kern v)"
  shows "\<exists>r w'. try_then (waitpid P pid p) (\<lambda>_. andthen (read_buffer p 8)
        (\<lambda>bytes. ret (Inr (of_nat (from_le bytes))))) v = Some (Value r, w') \<and>
    holds V (s\<lparr>sh_jobs := tl (sh_jobs s)\<rparr>) (kern w') \<and>
    (case sh_jobs s of
       (shown, code) # rest \<Rightarrow> r = Inr code \<and> prints (v_inp V) (v_out V) shown v w'
     | [] \<Rightarrow> r = Inl ECHILD \<and> prints (v_inp V) (v_out V) [] v w')"
proof -
  let ?m = "mem v"
  obtain k r where q: "v_inp V k = v_inp V (kern v)" "holds V (s\<lparr>sh_jobs := tl (sh_jobs s)\<rparr>) k"
    and call: "case sh_jobs s of
       (shown, code) # rest \<Rightarrow>
         ecall P SYSCALL_WAITPID [pid, p, 0, 0, 0, 0] ?m (kern v) = Resume r 0 (store_bytes ?m p (to_le 8 (unat code))) k \<and>
         v_out V k = v_out V (kern v) @ shown
     | [] \<Rightarrow> ecall P SYSCALL_WAITPID [pid, p, 0, 0, 0, 0] ?m (kern v) = Resume (- errornum_code ECHILD) 1 ?m k \<and>
         v_out V k = v_out V (kern v)"
    by (rule waitsE [OF assms])
  let ?t = "trace v @ [logged SYSCALL_WAITPID [pid, p, 0, 0, 0, 0] v]"
  show ?thesis
  proof (cases "sh_jobs s")
    case Nil
    let ?u = "v\<lparr>mem := ?m, kern := k, trace := ?t\<rparr>"
    have "waitpid P pid p v = Some (Value (Inl ECHILD), ?u)"
      using do_syscall_Err [of P SYSCALL_WAITPID "[pid, p, 0, 0, 0, 0]" v ECHILD 1 ?m k] call Nil
      by (simp add: waitpid_def)
    then have "try_then (waitpid P pid p) (\<lambda>_. andthen (read_buffer p 8)
        (\<lambda>bytes. ret (Inr (of_nat (from_le bytes))))) v = Some (Value (Inl ECHILD), ?u)"
      by (rule try_then_simps)
    then show ?thesis
      by (intro exI [of _ "Inl ECHILD"] exI [of _ ?u]) (use q call Nil in \<open>simp add: talks_def\<close>)
  next
    case (Cons job rest)
    obtain shown code where job: "job = (shown, code)" by (cases job)
    let ?m2 = "store_bytes ?m p (to_le 8 (unat code))"
    let ?u = "v\<lparr>mem := ?m2, kern := k, trace := ?t\<rparr>"
    have "waitpid P pid p v = Some (Value (Inr r), ?u)"
      unfolding waitpid_def by (rule do_syscall_Ok) (use call Cons job in simp)
    moreover have "load_bytes ?m2 p 8 = to_le 8 (unat code)" by (rule load_store_bytes) simp_all
    ultimately have "try_then (waitpid P pid p) (\<lambda>_. andthen (read_buffer p 8)
        (\<lambda>bytes. ret (Inr (of_nat (from_le bytes))))) v = Some (Value (Inr code), ?u)"
      by (simp add: try_then_simps(1) andthen_def read_buffer_def ret_def del: to_le.simps)
    then show ?thesis
      by (intro exI [of _ "Inr code"] exI [of _ ?u]) (use q call Cons job in \<open>simp add: talks_def del: to_le.simps\<close>)
  qed
qed

lemma execute_prompt:
  assumes "at_prompt P V lim s w"
  shows "\<exists>r w'. execute P c w = Some (Value r, w') \<and> at_prompt P V lim (s\<lparr>sh_jobs := tl (sh_jobs s)\<rparr>) w' \<and>
    (case sh_jobs s of
       (shown, code) # rest \<Rightarrow> r = Inr code \<and> prints (v_inp V) (v_out V) shown w w'
     | [] \<Rightarrow> r = Inl ECHILD \<and> prints (v_inp V) (v_out V) [] w w')"
proof -
  have k: "forks P V" "waits P V" "holds V s (kern w)"
    using assms by (simp_all add: at_prompt_def shell_kernel_def)
  obtain pid p v where ex: "execute P c w = try_then (waitpid P pid p) (\<lambda>_. andthen (read_buffer p 8)
      (\<lambda>bytes. ret (Inr (of_nat (from_le bytes))))) v"
    and v: "holds V s (kern v)" "prints (v_inp V) (v_out V) [] w v"
    by (rule execute_forks [OF k(1,3)])
  from waitpid_prompt [OF k(2) v(1), of pid p] obtain r w' where
    r: "execute P c w = Some (Value r, w')" "holds V (s\<lparr>sh_jobs := tl (sh_jobs s)\<rparr>) (kern w')"
    and answer: "case sh_jobs s of
       (shown, code) # rest \<Rightarrow> r = Inr code \<and> prints (v_inp V) (v_out V) shown v w'
     | [] \<Rightarrow> r = Inl ECHILD \<and> prints (v_inp V) (v_out V) [] v w'" unfolding ex by blast
  have said: "case sh_jobs s of
       (shown, code) # rest \<Rightarrow> r = Inr code \<and> prints (v_inp V) (v_out V) shown w w'
     | [] \<Rightarrow> r = Inl ECHILD \<and> prints (v_inp V) (v_out V) [] w w'"
    using answer v(2) by (simp add: talks_def split: list.splits prod.splits)
  have "at_prompt P V lim (s\<lparr>sh_jobs := tl (sh_jobs s)\<rparr>) w'"
    using said r(2) by (cases "sh_jobs s") (auto simp: talks_def intro: at_prompt_after [OF assms])
  with r(1) said show ?thesis by blast
qed

lemma serves_program:
  assumes pr: "at_prompt P V lim s w" and "stays P l" "\<not> starts_with (str ''cd '') l"
    "\<not> starts_with (str ''help'') l" and c: "parse P l = Inr (Inr c)"
  shows "case sh_jobs s of
      (shown, code) # rest \<Rightarrow> serves P V lim l (shown @ exited code) (s\<lparr>sh_jobs := rest\<rparr>) w
    | [] \<Rightarrow> serves P V lim l (failed ECHILD) s w"
proof -
  from execute_prompt [OF pr, of c] obtain r v where run: "execute P c w = Some (Value r, v)"
    and v: "at_prompt P V lim (s\<lparr>sh_jobs := tl (sh_jobs s)\<rparr>) v"
    and out: "case sh_jobs s of
       (shown, code) # rest \<Rightarrow> r = Inr code \<and> prints (v_inp V) (v_out V) shown w v
     | [] \<Rightarrow> r = Inl ECHILD \<and> prints (v_inp V) (v_out V) [] w v" by blast
  have eq: "serve_command P l w = try_then (execute P c) (\<lambda>code.
      andthen (println_macro P [Lit (str ''Program exited with code ''), Arg (display_isize code), Lit (str ''.'')])
        (\<lambda>_. ret (Inr ()))) w"
    unfolding serve_exec_eq [OF assms(2-4)]
    by (simp add: serve_exec_def c lift_checked_def map_err_def try_then_def [of "andthen _ _"] andthen_def ret_def
        del: str_simps)
  show ?thesis
  proof (cases "sh_jobs s")
    case Nil
    with run out have run': "serve_command P l w = Some (Value (Inl ECHILD), v)"
      unfolding eq by (simp add: try_then_simps)
    have "s\<lparr>sh_jobs := tl (sh_jobs s)\<rparr> = s" using Nil by (cases s) simp
    then have "at_prompt P V lim s v" using v by (simp only:)
    from serves_Err [OF run' this, of "[]"] out Nil show ?thesis by simp
  next
    case (Cons job rest)
    obtain shown code where job: "job = (shown, code)" by (cases job)
    from print_exited_console [OF at_prompt_console [OF v], of code] obtain u where
      u: "println_macro P [Lit (str ''Program exited with code ''), Arg (display_isize code), Lit (str ''.'')] v
        = Some (Value (), u)" "on_console P (holds V (s\<lparr>sh_jobs := tl (sh_jobs s)\<rparr>)) (v_inp V) (v_out V) u"
        "prints (v_inp V) (v_out V) (exited code) v u" by blast
    have "serve_command P l w = Some (Value (Inr ()), u)"
      unfolding eq using run out Cons job u(1) by (simp add: try_then_simps andthen_simps ret_def del: str_simps)
    moreover have "at_prompt P V lim (s\<lparr>sh_jobs := rest\<rparr>) u" using at_prompt_talks [OF v u(2,3)] Cons by simp
    moreover have "prints (v_inp V) (v_out V) (shown @ exited code) w u"
      using out Cons job u(3) by (simp add: talks_def)
    ultimately show ?thesis using Cons job by (simp add: serves_Ok)
  qed
qed

text \<open>Every line the shell survives is answered as the abstract shell answers it.\<close>

lemma serves_answer:
  assumes "at_prompt P V lim s w" "stays P l" "str_len l \<le> lim"
  shows "case answer P (v_resolve V) l s of (bs, s') \<Rightarrow> serves P V lim l bs s' w"
proof -
  consider "starts_with (str ''cd '') l"
    | "\<not> starts_with (str ''cd '') l" "starts_with (str ''help'') l"
    | "\<not> starts_with (str ''cd '') l" "\<not> starts_with (str ''help'') l" by blast
  then show ?thesis
  proof cases
    case 1
    from serves_cd [OF assms(1) 1 assms(3) refl] 1 show ?thesis
      by (simp add: answer_def del: str_simps split: option.splits)
  next
    case 2
    with serves_help [OF assms(1) 2(2)] show ?thesis by (simp add: answer_def del: str_simps)
  next
    case 3
    from assms(2) consider e where "parse P l = Inr (Inl e)" | c where "parse P l = Inr (Inr c)"
      by (cases "parse P l"; cases "projr (parse P l)") (auto simp: stays_def)
    then show ?thesis
    proof cases
      case 1
      with serves_refused [OF assms(1,2) 3 1] 3 show ?thesis by (simp add: answer_def del: str_simps)
    next
      case 2
      from serves_program [OF assms(1) assms(2) 3 2] 2 3 show ?thesis
        by (auto simp: answer_def simp del: str_simps split: list.splits)
    qed
  qed
qed

section \<open>Whole sessions\<close>

text \<open>A line as it is typed: characters and delete keys, not too long for the buffers.\<close>

definition typed :: "'k platform \<Rightarrow> nat \<Rightarrow> rstr \<Rightarrow> bool" where
  "typed P lim l \<longleftrightarrow> line_text l \<and> stays P (foldl key [] l) \<and> str_len (foldl key [] l) \<le> lim"

definition keyboard :: "rstr list \<Rightarrow> u8 list" where
  "keyboard ls = as_bytes (concat (map (\<lambda>l. l @ [10]) ls))"

lemma keyboard_simps [simp]:
  "keyboard [] = []" "keyboard (l # ls) = as_bytes (l @ [10]) @ keyboard ls"
  by (simp_all add: keyboard_def)

lemma prompt_console:
  assumes "at_prompt P V lim s w" "16 \<le> lim"
  shows "\<exists>w'. print_header P w = Some (Value (), w') \<and> at_prompt P V lim (tick s) w' \<and>
    prints (v_inp V) (v_out V) (as_bytes (prompt_text P (sh_dir s) (reading s))) w w'"
proof -
  have "holds V s (kern w)" using assms(1) by (simp add: at_prompt_def)
  from print_header_prompt [OF at_prompt_kernel [OF assms(1)] this at_prompt_room [OF assms]] obtain v where
    v: "print_header P w = Some (Value (), v)" "on_console P (holds V (tick s)) (v_inp V) (v_out V) v"
      "prints (v_inp V) (v_out V) (as_bytes (prompt_text P (sh_dir s) (reading s))) w v" by blast
  have "at_prompt P V lim (tick s) v"
    by (rule at_prompt_after [OF assms(1)]) (use v(2,3) in \<open>simp_all add: on_console_def talks_def\<close>)
  with v show ?thesis by blast
qed

lemma lines_exchange:
  assumes "at_prompt P V lim s w" "16 \<le> lim" "list_all (typed P lim) ls"
    and "v_inp V (kern w) = keyboard ls @ rest" "exchange P (v_resolve V) ls s = (bs, s')"
  shows "\<exists>w'. at_prompt P V lim s' w' \<and> talks (v_inp V) (v_out V) rest bs w w' \<and> shell_loop P w = shell_loop P w' \<and>
    (\<forall>lines v. session P w' lines v \<longrightarrow> session P w (map (foldl key []) ls @ lines) v)"
  using assms(1,3-5)
proof (induction ls arbitrary: s w bs)
  case Nil
  then show ?case by (intro exI [of _ w]) (simp add: talks_def)
next
  case (Cons l ls)
  let ?l = "foldl key [] l"
  from prompt_console [OF Cons.prems(1) assms(2)] obtain w1 where
    w1: "print_header P w = Some (Value (), w1)" "at_prompt P V lim (tick s) w1"
      "prints (v_inp V) (v_out V) (as_bytes (prompt_text P (sh_dir s) (reading s))) w w1" by blast
  from Cons.prems(2) have l: "line_text l" "stays P ?l" "str_len ?l \<le> lim" by (simp_all add: typed_def)
  have "v_inp V (kern w1) = as_bytes (l @ [10]) @ (keyboard ls @ rest)" using Cons.prems(3) w1(3) by (simp add: talks_def)
  from get_line_text [OF at_prompt_console [OF w1(2)] this l(1)] obtain w2 where
    w2: "get_line P w1 = Some (Value (Inr ?l), w2)" "on_console P (holds V (tick s)) (v_inp V) (v_out V) w2"
      "talks (v_inp V) (v_out V) (keyboard ls @ rest) (echo_keys [] l @ [10]) w1 w2" by auto
  obtain shown s1 where a: "answer P (v_resolve V) ?l (tick s) = (shown, s1)" by (cases "answer P (v_resolve V) ?l (tick s)")
  from serves_answer [OF at_prompt_talks [OF w1(2) w2(2,3)] l(2,3)] a
  have "serves P V lim ?l shown s1 w2" by simp
  then obtain r w3 w4 where w4: "serve_command P ?l w2 = Some (Value r, w3)" "report_error P r w3 = Some (Value (), w4)"
    "at_prompt P V lim s1 w4" "prints (v_inp V) (v_out V) shown w2 w4" unfolding serves_def by blast
  obtain texts where d: "exchange P (v_resolve V) ls s1 = (texts, s')"
    and bs: "bs = as_bytes (prompt_text P (sh_dir s) (reading s)) @ echo_keys [] l @ [10] @ shown @ texts"
    using Cons.prems(4) a by (cases "exchange P (v_resolve V) ls s1") auto
  have "v_inp V (kern w4) = keyboard ls @ rest" using w4(4) w2(3) by (simp add: talks_def)
  from Cons.IH [OF w4(3) _ this d] Cons.prems(2) obtain w5 where
    w5: "at_prompt P V lim s' w5" "talks (v_inp V) (v_out V) rest texts w4 w5" "shell_loop P w4 = shell_loop P w5"
    and rest: "\<forall>lines v. session P w5 lines v \<longrightarrow> session P w4 (map (foldl key []) ls @ lines) v" by auto
  have "session P w (map (foldl key []) (l # ls) @ lines) v" if "session P w5 lines v" for lines v
    using session_line [OF w1(1) w2(1) w4(1,2) rest [rule_format, OF that]] by simp
  moreover have "talks (v_inp V) (v_out V) rest bs w w5"
    using w1(3) w2(3) w4(4) w5(2) by (simp add: talks_def bs)
  moreover have "shell_loop P w = shell_loop P w5"
    using shell_loop_line [OF w1(1) w2(1) w4(1,2)] w5(3) by simp
  ultimately show ?case using w5(1) by blast
qed

lemma session_dialogue:
  assumes "at_prompt P V lim s w" "16 \<le> lim" "list_all (typed P lim) ls"
    and "v_inp V (kern w) = keyboard ls" "dialogue P (v_resolve V) ls s = (bs, s')"
  shows "\<exists>w'. session P w (map (foldl key []) ls) w' \<and> at_prompt P V lim s' w' \<and>
    talks (v_inp V) (v_out V) [] bs w w'"
proof -
  obtain texts s1 where x: "exchange P (v_resolve V) ls s = (texts, s1)" by (cases "exchange P (v_resolve V) ls s")
  with assms(5) have bs: "bs = texts @ as_bytes (prompt_text P (sh_dir s1) (reading s1))" "s' = tick s1"
    by (simp_all add: dialogue_def)
  have "v_inp V (kern w) = keyboard ls @ []" using assms(4) by simp
  from lines_exchange [OF assms(1-3) this x] obtain u where
    u: "at_prompt P V lim s1 u" "talks (v_inp V) (v_out V) [] texts w u"
    and rest: "\<forall>lines v. session P u lines v \<longrightarrow> session P w (map (foldl key []) ls @ lines) v" by blast
  from prompt_console [OF u(1) assms(2)] obtain w1 where
    w1: "print_header P u = Some (Value (), w1)" "at_prompt P V lim (tick s1) w1"
      "prints (v_inp V) (v_out V) (as_bytes (prompt_text P (sh_dir s1) (reading s1))) u w1" by blast
  with u(2) have "v_inp V (kern w1) = as_bytes []" by (simp add: talks_def)
  from get_line_unfinished [OF at_prompt_console [OF w1(2)] this] obtain w2 where
    w2: "get_line P w1 = Some (Value (Inl EEOF), w2)" "on_console P (holds V (tick s1)) (v_inp V) (v_out V) w2"
      "talks (v_inp V) (v_out V) [] [] w1 w2" by (auto simp: line_text_def)
  have "session P w (map (foldl key []) ls) w2"
    using rest [rule_format, OF session_end [OF w1(1) w2(1)]] by simp
  moreover have "at_prompt P V lim s' w2" unfolding bs(2) by (rule at_prompt_talks [OF w1(2) w2(2,3)])
  moreover have "talks (v_inp V) (v_out V) [] bs w w2"
    using u(2) w1(3) w2(3) by (simp add: talks_def bs(1))
  ultimately show ?thesis by blast
qed

text \<open>
  Typed lines and then one more, \<open>e\<close>: the loop comes to serve it, and what does not come back from it ends
  the loop.
\<close>

lemma lines_then:
  assumes "at_prompt P V lim s w" "16 \<le> lim" "list_all (typed P lim) ls" "line_text e"
    and "v_inp V (kern w) = keyboard (ls @ [e]) @ rest" "exchange P (v_resolve V) ls s = (bs, s')"
  shows "\<exists>w'. at_prompt P V lim (tick s') w' \<and>
    talks (v_inp V) (v_out V) rest (bs @ as_bytes (prompt_text P (sh_dir s') (reading s')) @ echo_keys [] e @ [10]) w w' \<and>
    (\<forall>v. serve_command P (foldl key [] e) w' = Some (Gone, v) \<longrightarrow> shell_loop P w = Some (Gone, v)) \<and>
    (\<forall>i v. serve_command P (foldl key [] e) w' = Some (Panicked i, v) \<longrightarrow> shell_loop P w = Some (Panicked i, v))"
proof -
  have "v_inp V (kern w) = keyboard ls @ (as_bytes (e @ [10]) @ rest)" using assms(5) by (simp add: keyboard_def)
  from lines_exchange [OF assms(1-3) this assms(6)] obtain u where
    u: "at_prompt P V lim s' u" "talks (v_inp V) (v_out V) (as_bytes (e @ [10]) @ rest) bs w u"
      "shell_loop P w = shell_loop P u" by blast
  from prompt_console [OF u(1) assms(2)] obtain w1 where
    w1: "print_header P u = Some (Value (), w1)" "at_prompt P V lim (tick s') w1"
      "prints (v_inp V) (v_out V) (as_bytes (prompt_text P (sh_dir s') (reading s'))) u w1" by blast
  have "v_inp V (kern w1) = as_bytes (e @ [10]) @ rest" using u(2) w1(3) by (simp add: talks_def)
  from get_line_text [OF at_prompt_console [OF w1(2)] this assms(4)] obtain w2 where
    w2: "get_line P w1 = Some (Value (Inr (foldl key [] e)), w2)"
      "on_console P (holds V (tick s')) (v_inp V) (v_out V) w2"
      "talks (v_inp V) (v_out V) rest (echo_keys [] e @ [10]) w1 w2" by auto
  have "talks (v_inp V) (v_out V) rest
      (bs @ as_bytes (prompt_text P (sh_dir s') (reading s')) @ echo_keys [] e @ [10]) w w2"
    using u(2) w1(3) w2(3) by (simp add: talks_def)
  with at_prompt_talks [OF w1(2) w2(2,3)] u(3) shell_loop_last [OF w1(1) w2(1)] show ?thesis by metis
qed

definition greeting :: "u8 list" where
  "greeting = as_bytes (crlf (str ''[shell] hello world!''))"

definition farewell :: "u8 list" where
  "farewell = as_bytes (crlf (str ''Cannot read further input. Exiting.''))"

text \<open>
  \<open>main\<close> once the input is in place: \<open>w1\<close> is the world after the greeting, \<open>w2\<close> the one in which descriptor
  0 delivers the lines, the same one when the shell has no argument.
\<close>

lemma shell_main_dialogue:
  assumes greeted: "println_macro P [Lit (str ''[shell] hello world!'')] w = Some (Value (), w1)"
    "v_out V (kern w1) = v_out V (kern w) @ greeting"
    and input: "(if 1 < argc then remap_stdin P argv else ret ()) w1 = Some (Value (), w2)"
    "v_out V (kern w2) = v_out V (kern w1)" "at_prompt P V lim s w2" "v_inp V (kern w2) = keyboard ls"
    and "16 \<le> lim" "list_all (typed P lim) ls" "dialogue P (v_resolve V) ls s = (bs, s')"
  shows "\<exists>w'. shell_main P argc argv w = Some (Value 0, w') \<and> holds V s' (kern w') \<and> v_inp V (kern w') = [] \<and>
    v_out V (kern w') = v_out V (kern w) @ greeting @ bs @ farewell"
proof -
  have short: "length (str ''Cannot read further input. Exiting.'') < 2 ^ 59" by simp
  from session_dialogue [OF input(3) assms(7,8) input(4) assms(9)] obtain w3 where
    w3: "session P w2 (map (foldl key []) ls) w3" "at_prompt P V lim s' w3" "talks (v_inp V) (v_out V) [] bs w2 w3"
    by blast
  from println_console [OF at_prompt_console [OF w3(2)] short] obtain w4 where
    w4: "println_macro P [Lit (str ''Cannot read further input. Exiting.'')] w3 = Some (Value (), w4)"
      "on_console P (holds V s') (v_inp V) (v_out V) w4" "prints (v_inp V) (v_out V) farewell w3 w4"
    unfolding farewell_def by blast
  have "shell_main P argc argv w = Some (Value 0, w4)"
    using greeted(1) input(1) w4(1) session_shell_loop [OF w3(1)]
    by (simp only: shell_main_def andthen_simps ret_def)
  with greeted(2) input(2) w3(3) w4(2,3) show ?thesis by (simp add: talks_def on_console_def)
qed

lemma greeting_console:
  assumes "on_console P ready inp out w"
  shows "\<exists>w'. println_macro P [Lit (str ''[shell] hello world!'')] w = Some (Value (), w') \<and>
    on_console P ready inp out w' \<and> prints inp out greeting w w' \<and>
    mem w' = store_bytes (mem w) (place P (length (trace w)) (length greeting)) greeting"
  unfolding greeting_def by (rule println_literal_memory [OF assms]) simp_all

lemma shell_main_keyboard:
  assumes "at_prompt P V lim s w" "16 \<le> lim" "list_all (typed P lim) ls" "argc \<le> 1"
    and "v_inp V (kern w) = keyboard ls" "dialogue P (v_resolve V) ls s = (bs, s')"
  shows "\<exists>w'. shell_main P argc argv w = Some (Value 0, w') \<and> holds V s' (kern w') \<and> v_inp V (kern w') = [] \<and>
    v_out V (kern w') = v_out V (kern w) @ greeting @ bs @ farewell"
proof -
  from greeting_console [OF at_prompt_console [OF assms(1)]] obtain w1 where
    w1: "println_macro P [Lit (str ''[shell] hello world!'')] w = Some (Value (), w1)"
      "on_console P (holds V s) (v_inp V) (v_out V) w1" "prints (v_inp V) (v_out V) greeting w w1" by blast
  show ?thesis
    by (rule shell_main_dialogue [OF w1(1) _ _ refl at_prompt_talks [OF assms(1) w1(2,3)] _ assms(2,3,6)])
      (use w1(3) assms(4,5) in \<open>simp_all add: talks_def ret_def not_less [symmetric]\<close>)
qed

lemma shell_main_last:
  assumes "at_prompt P V lim s w" "16 \<le> lim" "list_all (typed P lim) ls" "line_text e" "argc \<le> 1"
    and "v_inp V (kern w) = keyboard (ls @ [e]) @ rest" "exchange P (v_resolve V) ls s = (bs, s')"
  shows "\<exists>w'. at_prompt P V lim (tick s') w' \<and> v_inp V (kern w') = rest \<and>
    v_out V (kern w') = v_out V (kern w) @ greeting @ bs @ as_bytes (prompt_text P (sh_dir s') (reading s'))
      @ echo_keys [] e @ [10] \<and>
    (\<forall>v. serve_command P (foldl key [] e) w' = Some (Gone, v) \<longrightarrow> shell_main P argc argv w = Some (Gone, v)) \<and>
    (\<forall>i v. serve_command P (foldl key [] e) w' = Some (Panicked i, v) \<longrightarrow>
      shell_main P argc argv w = Some (Panicked i, v))"
proof -
  from greeting_console [OF at_prompt_console [OF assms(1)]] obtain w1 where
    w1: "println_macro P [Lit (str ''[shell] hello world!'')] w = Some (Value (), w1)"
      "on_console P (holds V s) (v_inp V) (v_out V) w1" "prints (v_inp V) (v_out V) greeting w w1" by blast
  have "v_inp V (kern w1) = keyboard (ls @ [e]) @ rest" using assms(6) w1(3) by (simp add: talks_def)
  from lines_then [OF at_prompt_talks [OF assms(1) w1(2,3)] assms(2-4) this assms(7)] obtain w2 where
    w2: "at_prompt P V lim (tick s') w2"
      "talks (v_inp V) (v_out V) rest (bs @ as_bytes (prompt_text P (sh_dir s') (reading s')) @ echo_keys [] e @ [10]) w1 w2"
    and last: "\<forall>v. serve_command P (foldl key [] e) w2 = Some (Gone, v) \<longrightarrow> shell_loop P w1 = Some (Gone, v)"
      "\<forall>i v. serve_command P (foldl key [] e) w2 = Some (Panicked i, v) \<longrightarrow> shell_loop P w1 = Some (Panicked i, v)"
    by blast
  have main: "shell_main P argc argv w = andthen (shell_loop P) (\<lambda>_.
      andthen (println_macro P [Lit (str ''Cannot read further input. Exiting.'')]) (\<lambda>_. ret 0)) w1"
    using w1(1) assms(5) by (simp add: shell_main_def andthen_def [of "println_macro _ _"] andthen_def [of "ret ()"] ret_def
        not_less [symmetric] del: str_simps)
  have "shell_main P argc argv w = Some (Gone, v)" if "serve_command P (foldl key [] e) w2 = Some (Gone, v)" for v
    unfolding main using last(1) that by (simp add: andthen_simps(3) del: str_simps)
  moreover have "shell_main P argc argv w = Some (Panicked i, v)"
    if "serve_command P (foldl key [] e) w2 = Some (Panicked i, v)" for i v
    unfolding main using last(2) that by (simp add: andthen_simps(2) del: str_simps)
  moreover have "v_inp V (kern w2) = rest" "v_out V (kern w2) = v_out V (kern w) @ greeting @ bs
      @ as_bytes (prompt_text P (sh_dir s') (reading s')) @ echo_keys [] e @ [10]"
    using w1(3) w2(2) by (simp_all add: talks_def)
  ultimately show ?thesis using w2(1) by blast
qed

section \<open>Input from a file\<close>

text \<open>
  A kernel whose descriptor 0 can be closed, after which nothing but the console output is promised.
\<close>

definition closes_stdin :: "'k platform \<Rightarrow> ('k \<Rightarrow> bool) \<Rightarrow> ('k \<Rightarrow> bool) \<Rightarrow> ('k \<Rightarrow> u8 list) \<Rightarrow> bool" where
  "closes_stdin P before closed out \<longleftrightarrow>
     (\<forall>k m. before k \<longrightarrow> (\<exists>r k'. ecall P SYSCALL_CLOSE [0, 0, 0, 0, 0, 0] m k = Resume r 0 m k' \<and>
        closed k' \<and> out k' = out k))"

text \<open>\<open>remap_stdin\<close> after closing descriptor 0: it opens the path of its argument.\<close>

lemma remap_stdin_asks:
  assumes "closes_stdin P before closed out" "before (kern w)" "valid_str path"
    and "1 < length argv" "slice_bytes (mem w) (argv ! 1) = as_bytes path"
  obtains u c where "closed (kern u)" "out (kern u) = out (kern w)" "live u = live w" "heap u = heap w"
    and "trace u = trace w @ [c]" "plain_call SYSCALL_CLOSE [0, 0, 0, 0, 0, 0] c"
    and "remap_stdin P argv w = andthen (open_file P path om_READ) (\<lambda>r.
      andthen (unwrap_result errornum_debug shell_rs 297 r) (\<lambda>fd.
      if fd \<noteq> STDIN then panic_at shell_rs 299 ([str ''failed to redirect stdin. new fd = ''] @ fd_debug fd)
      else ret ())) u"
proof -
  from assms(1,2) obtain r k' where
    k': "ecall P SYSCALL_CLOSE [0, 0, 0, 0, 0, 0] (mem w) (kern w) = Resume r 0 (mem w) k'" "closed k'" "out k' = out (kern w)"
    unfolding closes_stdin_def by blast
  let ?c = "logged SYSCALL_CLOSE [0, 0, 0, 0, 0, 0] w"
  let ?u = "w\<lparr>mem := mem w, kern := k', trace := trace w @ [?c]\<rparr>"
  have close: "close P STDIN w = Some (Value (Inr r), ?u)"
    unfolding close_def STDIN_def file_descriptor.sel by (rule do_syscall_Ok [OF k'(1)])
  have arg: "read_arg shell_rs 297 argv 1 ?u = Some (Value (as_bytes path), ?u)"
    using assms(4,5) by (simp add: read_arg_def read_buffer_def slice_bytes_def)
  show thesis
  proof (rule that [of ?u ?c])
    show "remap_stdin P argv w = andthen (open_file P path om_READ) (\<lambda>r.
      andthen (unwrap_result errornum_debug shell_rs 297 r) (\<lambda>fd.
      if fd \<noteq> STDIN then panic_at shell_rs 299 ([str ''failed to redirect stdin. new fd = ''] @ fd_debug fd)
      else ret ())) ?u"
      using close arg
      by (simp add: remap_stdin_def andthen_simps(1) unwrap_result_def ret_def from_utf8_as_bytes [OF assms(3)] del: str_simps)
  qed (use k' in \<open>simp_all add: plain_call_def logged_def\<close>)
qed

lemma remap_stdin_opens:
  assumes "closes_stdin P before closed out" "before (kern w)"
    and "opens_file P 0 closed opened content out path bytes" "allocator_sound P"
    and "heap_place P (heap w) (live w) (Suc (str_len path)) \<noteq> None" "0 \<notin> set (as_bytes path)" "valid_str path"
    and "1 < length argv" "slice_bytes (mem w) (argv ! 1) = as_bytes path"
  shows "\<exists>w'. remap_stdin P argv w = Some (Value (), w') \<and> opened (kern w') \<and> content (kern w') = bytes \<and>
    out (kern w') = out (kern w) \<and> live w' = live w \<and> heap w' = heap w"
proof -
  obtain u where u: "closed (kern u)" "out (kern u) = out (kern w)" "live u = live w" "heap u = heap w"
    and remap: "remap_stdin P argv w = andthen (open_file P path om_READ) (\<lambda>r.
      andthen (unwrap_result errornum_debug shell_rs 297 r) (\<lambda>fd.
      if fd \<noteq> STDIN then panic_at shell_rs 299 ([str ''failed to redirect stdin. new fd = ''] @ fd_debug fd)
      else ret ())) u"
    by (rule remap_stdin_asks [OF assms(1,2,7-9)])
  have "heap_place P (heap u) (live u) (Suc (str_len path)) \<noteq> None" using u(3,4) assms(5) by simp
  from open_path [OF assms(3,4) u(1) this assms(6)] obtain w' where
    w': "open_file P path om_READ u = Some (Value (Inr (FileDecstiptor 0)), w')" "opened (kern w')"
      "content (kern w') = bytes" "out (kern w') = out (kern u)" "live w' = live u" "heap w' = heap u" by blast
  have "remap_stdin P argv w = Some (Value (), w')"
    unfolding remap using w'(1) by (simp add: andthen_def unwrap_result_def ret_def STDIN_def)
  with w' u show ?thesis by simp
qed

text \<open>The panic of \<open>remap_stdin\<close> when the kernel answers the opening with \<open>r\<close>: an error or another descriptor.\<close>

definition remap_panic :: "errornum + u64 \<Rightarrow> panic_info" where
  "remap_panic r = (case r of
       Inl e \<Rightarrow> shell_panic 297 [str ''called `Result::unwrap()` on an `Err` value'', str '': '', str (errornum_name e)]
     | Inr fd \<Rightarrow> shell_panic 299 ([str ''failed to redirect stdin. new fd = ''] @ fd_debug (FileDecstiptor fd)))"

lemma remap_stdin_panics:
  assumes "closes_stdin P before closed out" "before (kern w)"
    and "answers_open P closed after out path r" "r \<noteq> Inr 0" "allocator_sound P"
    and "heap_place P (heap w) (live w) (Suc (str_len path)) \<noteq> None" "0 \<notin> set (as_bytes path)" "valid_str path"
    and "1 < length argv" "slice_bytes (mem w) (argv ! 1) = as_bytes path"
  shows "\<exists>w' c a. remap_stdin P argv w = Some (Panicked (remap_panic r), w') \<and> after (kern w') \<and>
    out (kern w') = out (kern w) \<and> trace w' = trace w @ [c, a] \<and>
    plain_call SYSCALL_CLOSE [0, 0, 0, 0, 0, 0] c \<and> path_call SYSCALL_OPEN path [om_READ, 0, 0, 0, 0] a"
proof -
  obtain u c where u: "closed (kern u)" "out (kern u) = out (kern w)" "live u = live w" "heap u = heap w"
    and c: "trace u = trace w @ [c]" "plain_call SYSCALL_CLOSE [0, 0, 0, 0, 0, 0] c"
    and remap: "remap_stdin P argv w = andthen (open_file P path om_READ) (\<lambda>r.
      andthen (unwrap_result errornum_debug shell_rs 297 r) (\<lambda>fd.
      if fd \<noteq> STDIN then panic_at shell_rs 299 ([str ''failed to redirect stdin. new fd = ''] @ fd_debug fd)
      else ret ())) u"
    by (rule remap_stdin_asks [OF assms(1,2,8-10)])
  have "heap_place P (heap u) (live u) (Suc (str_len path)) \<noteq> None" using u(3,4) assms(6) by simp
  from open_answered [OF assms(3,5) u(1) this assms(7)] obtain w' p m where
    w': "open_file P path om_READ u = Some (Value (map_sum id fd_from r), w')" "after (kern w')"
      "out (kern w') = out (kern u)"
    and t: "trace w' = trace u @ [\<lparr>ev_number = SYSCALL_OPEN, ev_args = [p, om_READ, 0, 0, 0, 0], ev_mem = m\<rparr>]"
      "cstr_at m p (as_bytes path)" by blast
  let ?a = "\<lparr>ev_number = SYSCALL_OPEN, ev_args = [p, om_READ, 0, 0, 0, 0], ev_mem = m\<rparr>"
  have a: "path_call SYSCALL_OPEN path [om_READ, 0, 0, 0, 0] ?a"
    using t(2) by (simp add: path_call_def takeWhile_no_nul [OF assms(7)])
  have "remap_stdin P argv w = Some (Panicked (remap_panic r), w')"
    unfolding remap using w'(1) assms(4)
    by (cases r) (simp_all add: andthen_def unwrap_result_def ret_def STDIN_def fd_from_def panic_at_def remap_panic_def
        shell_panic_def errornum_debug_def del: str_simps)
  with w' u(2) c t(1) a show ?thesis
    by (intro exI [of _ w'] exI [of _ c] exI [of _ ?a]) simp
qed

lemma shell_main_script:
  assumes "at_prompt P V lim s w" "16 \<le> lim" "str_len path < lim" "list_all (typed P lim) ls"
    and "closes_stdin P (holds V s) closed (v_out V)"
    and "opens_file P 0 closed (holds V s) (v_inp V) (v_out V) path (keyboard ls)"
    and "0 \<notin> set (as_bytes path)" "valid_str path"
    and "1 < length argv" "argv ! 1 = (p, n)" "slice_bytes (mem w) (p, n) = as_bytes path"
    and "apart (place P (length (trace w)) (length greeting)) (length greeting) p (unat n)"
    and "dialogue P (v_resolve V) ls s = (bs, s')"
  shows "\<exists>w'. shell_main P 2 argv w = Some (Value 0, w') \<and> holds V s' (kern w') \<and> v_inp V (kern w') = [] \<and>
    v_out V (kern w') = v_out V (kern w) @ greeting @ bs @ farewell"
proof -
  from greeting_console [OF at_prompt_console [OF assms(1)]] obtain w1 where
    w1: "println_macro P [Lit (str ''[shell] hello world!'')] w = Some (Value (), w1)"
      "on_console P (holds V s) (v_inp V) (v_out V) w1" "prints (v_inp V) (v_out V) greeting w w1"
      "mem w1 = store_bytes (mem w) (place P (length (trace w)) (length greeting)) greeting" by blast
  note at = at_prompt_talks [OF assms(1) w1(2,3)]
  have a: "holds V s (kern w1)" "allocator_sound P" using at by (simp_all add: at_prompt_def)
  have room: "heap_place P (heap w1) (live w1) (Suc (str_len path)) \<noteq> None"
    by (rule at_prompt_room [OF at]) (use assms(3) in simp)
  have arg: "slice_bytes (mem w1) (argv ! 1) = as_bytes path"
    using assms(10-12) w1(4) by (simp add: slice_bytes_def load_store_apart)
  from remap_stdin_opens [OF assms(5) a(1) assms(6) a(2) room assms(7-9) arg] obtain w2 where
    w2: "remap_stdin P argv w1 = Some (Value (), w2)" "holds V s (kern w2)" "v_inp V (kern w2) = keyboard ls"
      "v_out V (kern w2) = v_out V (kern w1)" "live w2 = live w1" "heap w2 = heap w1" by blast
  show ?thesis
    by (rule shell_main_dialogue [OF w1(1) _ _ w2(4) at_prompt_after [OF at w2(2,5,6)] w2(3) assms(2,4,13)])
      (use w1(3) w2(1) in \<open>simp_all add: talks_def\<close>)
qed

lemma remap_report_small:
  assumes "length (source_path P shell_rs) < 2 ^ 32"
  shows "\<forall>s\<in>set (report_pieces P ''Shell'' (remap_panic r)). str_len s < 2 ^ 64"
proof -
  have "length (dec_digits (unat (fd :: u64))) < 4294967296" for fd
    using length_dec_digits [of "unat fd" 20] unat_u64_less [of fd] by simp
  moreover have "length (errornum_name e) < 4294967296" for e using errornum_name_short [of e] by simp
  moreover have "dec_digits 297 = str ''297''" "dec_digits 299 = str ''299''" by (simp_all add: dec_digits.simps)
  ultimately show ?thesis
    using assms by (intro small_report; cases r)
      (auto simp: remap_panic_def shell_panic_def fd_debug_def display_usize_def str_def)
qed

lemma shell_main_script_unavailable:
  assumes "console P ready inp out" "ready (kern w)" "closes_stdin P ready closed out"
    and "answers_open P closed after out path r" "r \<noteq> Inr 0" "allocator_sound P"
    and "heap_place P (heap w) (live w) (Suc (str_len path)) \<noteq> None" "0 \<notin> set (as_bytes path)" "valid_str path"
    and "1 < length argv" "argv ! 1 = (p, n)" "slice_bytes (mem w) (p, n) = as_bytes path"
    and "apart (place P (length (trace w)) (length greeting)) (length greeting) p (unat n)"
  shows "\<exists>w' ws c a. shell_main P 2 argv w = Some (Panicked (remap_panic r), w') \<and> after (kern w') \<and>
    out (kern w') = out (kern w) @ greeting \<and> trace w' = trace w @ ws @ [c, a] \<and> only_write_calls ws \<and>
    plain_call SYSCALL_CLOSE [0, 0, 0, 0, 0, 0] c \<and> path_call SYSCALL_OPEN path [om_READ, 0, 0, 0, 0] a"
proof -
  have "on_console P ready inp out w" using assms(1,2) by (simp add: on_console_def)
  from greeting_console [OF this] obtain w1 where
    w1: "println_macro P [Lit (str ''[shell] hello world!'')] w = Some (Value (), w1)"
      "on_console P ready inp out w1" "prints inp out greeting w w1"
      "mem w1 = store_bytes (mem w) (place P (length (trace w)) (length greeting)) greeting" by blast
  obtain ws where ws: "trace w1 = trace w @ ws" "only_write_calls ws"
    by (rule print_only_writes [OF w1(1) [unfolded println_macro_def]])
  have r1: "ready (kern w1)" using w1(2) by (simp add: on_console_def)
  have room: "heap_place P (heap w1) (live w1) (Suc (str_len path)) \<noteq> None"
    using assms(7) w1(3) by (simp add: talks_def)
  have arg: "slice_bytes (mem w1) (argv ! 1) = as_bytes path"
    using assms(11-13) w1(4) by (simp add: slice_bytes_def load_store_apart)
  from remap_stdin_panics [OF assms(3) r1 assms(4-6) room assms(8-10) arg] obtain w2 c a where
    w2: "remap_stdin P argv w1 = Some (Panicked (remap_panic r), w2)" "after (kern w2)" "out (kern w2) = out (kern w1)"
    and t: "trace w2 = trace w1 @ [c, a]" and ca: "plain_call SYSCALL_CLOSE [0, 0, 0, 0, 0, 0] c"
      "path_call SYSCALL_OPEN path [om_READ, 0, 0, 0, 0] a" by (elim exE conjE) (rule that)
  have "shell_main P 2 argv w = Some (Panicked (remap_panic r), w2)"
    using w1(1) w2(1) by (simp add: shell_main_def andthen_simps(1,2) del: str_simps)
  with w2(2,3) w1(3) t ws ca show ?thesis
    by (intro exI [of _ w2] exI [of _ ws] exI [of _ c] exI [of _ a]) (simp add: talks_def)
qed

end
