(* ===== verification/Cat.thy ===== *)
theory Cat
  imports Start Console Path_Calls
begin

text \<open>
  \<^verbatim>\<open>parch_utils/cat/src/main.rs\<close>: read a whole file in pieces of up to 128 bytes, print it. The
  reading loop is \<open>read_all\<close> over one \<open>read_chunk\<close> per round; an empty piece is the end of the file.
\<close>

abbreviation cat_rs :: string where
  "cat_rs \<equiv> ''parch_utils/cat/src/main.rs''"

section \<open>The program\<close>

definition spin :: "('k, 'a) rust" where
  "spin w = None"

definition cat_panic_handler :: "'k platform \<Rightarrow> panic_info \<Rightarrow> ('k, 'a) rust" where
  "cat_panic_handler P = handle_panic (panic_report P ''Shell'') spin"

definition read_chunk :: "'k platform \<Rightarrow> file_descriptor \<Rightarrow> ('k, rstr + u8 list) rust" where
  "read_chunk P fd =
     with_data P (replicate 128 0) (\<lambda>buffer.
       try_then (map_err (\<lambda>code. concat (str ''Read file failed with code '' # errornum_debug code))
           (read_fd P fd (buffer, 128))) (\<lambda>len.
       if len = 0 then ret (Inr [])
       else if 128 < len then
         panic_at cat_rs 38 ([str ''range end index ''] @ display_usize len
           @ [str '' out of range for slice of length '', dec_digits 128])
       else andthen (read_buffer buffer 128) (\<lambda>bytes. ret (Inr (take (unat len) bytes)))))"

partial_function (option) read_all ::
    "('k, rstr + u8 list) rust \<Rightarrow> u8 list \<Rightarrow> ('k, rstr + u8 list) rust" where
  "read_all chunk res w =
     try_then chunk (\<lambda>bytes. if bytes = [] then ret (Inr res) else read_all chunk (res @ bytes)) w"

definition rust_main :: "'k platform \<Rightarrow> u64 \<Rightarrow> slice list \<Rightarrow> ('k, rstr + unit) rust" where
  "rust_main P argc argv =
     (if argc \<noteq> 2 then
        (if argc = 0 then panic_at cat_rs 25 [str ''attempt to subtract with overflow'']
         else ret (Inl (concat ([str ''Cat only accept 1 argument, but ''] @ display_usize (argc - 1)
                  @ [str '' was received.'']))))
      else
        andthen (read_arg cat_rs 27 argv 1) (\<lambda>path_bytes.
        try_then (ret (map_sum (\<lambda>_. str ''Illegal utf-8 byte sequence'') id (from_utf8 path_bytes))) (\<lambda>path.
        try_then (map_err (\<lambda>code. concat (str ''Failed to open file, syscall return '' # errornum_debug code))
            (open_file P path om_READ)) (\<lambda>fd.
        try_then (read_all (read_chunk P fd) []) (\<lambda>res.
        andthen (println_macro P [Arg [from_utf8_lossy res], Lit (10 # str ''========== EOF =========='')]) (\<lambda>_.
        ret (Inr ())))))))"

definition cat_main :: "'k platform \<Rightarrow> u64 \<Rightarrow> slice list \<Rightarrow> ('k, u64) rust" where
  "cat_main P argc argv =
     andthen (rust_main P argc argv) (\<lambda>res.
     case res of
       Inl msg \<Rightarrow> andthen (println_macro P [Lit (str ''Cat failed, ''), Arg [msg]]) (\<lambda>_. ret (- 1))
     | Inr _ \<Rightarrow> ret 0)"

definition cat_program :: "'k platform \<Rightarrow> u64 \<Rightarrow> addr \<Rightarrow> ('k, 'a) rust" where
  "cat_program P argc argv_raw =
     catch_panic (start P (cat_main P) argc argv_raw) (cat_panic_handler P)"

section \<open>Reading a whole file\<close>

text \<open>
  The interface of the loop: a source that hands out non-empty pieces of what is pending, in order; when
  nothing is left it hands out an empty one, or fails with the message \<open>failure\<close> if it has one.
\<close>

locale chunk_source = world_frame R
  for R :: "'k world \<Rightarrow> 'k world \<Rightarrow> bool" +
  fixes chunk :: "('k, rstr + u8 list) rust"
    and ok :: "'k world \<Rightarrow> bool"
    and pending :: "'k world \<Rightarrow> u8 list"
    and failure :: "rstr option"
  assumes next_chunk: "ok w \<Longrightarrow>
      \<exists>r w'. chunk w = Some (Value r, w') \<and> ok w' \<and> R w w' \<and>
        (case r of
           Inr bs \<Rightarrow> pending w = bs @ pending w' \<and> (bs = [] \<longrightarrow> pending w = [] \<and> failure = None)
         | Inl msg \<Rightarrow> pending w = [] \<and> pending w' = [] \<and> failure = Some msg)"
begin

lemma read_all_spec:
  assumes "ok w"
  shows "\<exists>w'. read_all chunk res w
      = Some (Value (case failure of None \<Rightarrow> Inr (res @ pending w) | Some msg \<Rightarrow> Inl msg), w') \<and>
    ok w' \<and> pending w' = [] \<and> R w w'"
  using assms
proof (induction "length (pending w)" arbitrary: res w rule: less_induct)
  case less
  from next_chunk [OF less.prems] obtain r w1 where
    w1: "chunk w = Some (Value r, w1)" "ok w1" "R w w1" and
    r: "case r of Inr bs \<Rightarrow> pending w = bs @ pending w1 \<and> (bs = [] \<longrightarrow> pending w = [] \<and> failure = None)
      | Inl msg \<Rightarrow> pending w = [] \<and> pending w1 = [] \<and> failure = Some msg" by blast
  consider (stop) msg where "r = Inl msg" | (last) "r = Inr []" | (piece) bs where "r = Inr bs" "bs \<noteq> []"
    by (cases r) blast+
  then show ?case
  proof cases
    case stop
    with w1 r show ?thesis by (subst read_all.simps) (auto simp: rust_simps)
  next
    case last
    with w1 r show ?thesis by (subst read_all.simps) (auto simp: rust_simps)
  next
    case piece
    with r have p: "pending w = bs @ pending w1" by simp
    with piece(2) have "length (pending w1) < length (pending w)" by simp
    from less.hyps [OF this w1(2), of "res @ bs"] obtain w2 where
      "read_all chunk (res @ bs) w1
        = Some (Value (case failure of None \<Rightarrow> Inr (res @ bs @ pending w1) | Some msg \<Rightarrow> Inl msg), w2)" "ok w2"
      "pending w2 = []" "R w1 w2" unfolding append_assoc by blast
    with w1 p piece trans [OF w1(3)] show ?thesis
      by (subst read_all.simps, cases failure) (auto simp: rust_simps)
  qed
qed

end

text \<open>
  A file open for reading at descriptor \<open>fd\<close>: a read of up to \<open>n\<close> bytes gives some of the bytes that
  are left, at least one while there are any. Then it gives none, or the error \<open>failure\<close> if there is one.
\<close>

definition reads_piece ::
    "'k platform \<Rightarrow> u64 \<Rightarrow> ('k \<Rightarrow> bool) \<Rightarrow> ('k \<Rightarrow> u8 list) \<Rightarrow> ('k \<Rightarrow> u8 list) \<Rightarrow> memory \<Rightarrow> addr \<Rightarrow> nat \<Rightarrow> 'k \<Rightarrow> bool" where
  "reads_piece P fd opened content out m p n k \<longleftrightarrow>
     (\<exists>k'. ecall P SYSCALL_READ [fd, p, 128, 0, 0, 0] m k
         = Resume (of_nat n) 0 (store_bytes m p (take n (content k))) k' \<and>
       opened k' \<and> content k' = drop n (content k) \<and> out k' = out k)"

definition reads_file ::
    "'k platform \<Rightarrow> u64 \<Rightarrow> ('k \<Rightarrow> bool) \<Rightarrow> ('k \<Rightarrow> u8 list) \<Rightarrow> ('k \<Rightarrow> u8 list) \<Rightarrow> errornum option \<Rightarrow> bool" where
  "reads_file P fd opened content out failure \<longleftrightarrow>
     (\<forall>k m p. opened k \<longrightarrow>
        (content k \<noteq> [] \<or> failure = None \<longrightarrow> (\<exists>n. n \<le> 128 \<and> n \<le> length (content k) \<and> (n = 0 \<longrightarrow> content k = []) \<and>
           reads_piece P fd opened content out m p n k)) \<and>
        (\<forall>e. content k = [] \<and> failure = Some e \<longrightarrow>
           (\<exists>k'. ecall P SYSCALL_READ [fd, p, 128, 0, 0, 0] m k = kernel_answer (Inl e) m k' \<and>
             opened k' \<and> content k' = [] \<and> out k' = out k)))"

definition on_file ::
    "'k platform \<Rightarrow> u64 \<Rightarrow> ('k \<Rightarrow> bool) \<Rightarrow> ('k \<Rightarrow> u8 list) \<Rightarrow> ('k \<Rightarrow> u8 list) \<Rightarrow> errornum option \<Rightarrow> 'k world \<Rightarrow> bool" where
  "on_file P fd opened content out failure w \<longleftrightarrow> reads_file P fd opened content out failure \<and> opened (kern w)"

lemma take_load_store:
  assumes "length bs \<le> n" "n \<le> 2 ^ 64"
  shows "take (length bs) (load_bytes (store_bytes m p bs) p n) = bs"
  unfolding load_bytes_take [OF refl assms(1), symmetric] using assms by simp

lemma read_chunk_piece:
  assumes "\<And>m p. \<exists>n. n \<le> 128 \<and> n \<le> length (content (kern w)) \<and> (n = 0 \<longrightarrow> content (kern w) = []) \<and>
    reads_piece P fd opened content out m p n (kern w)"
  shows "\<exists>bs w'. read_chunk P (FileDecstiptor fd) w = Some (Value (Inr bs), w') \<and>
    opened (kern w') \<and> content (kern w) = bs @ content (kern w') \<and> (bs = [] \<longrightarrow> content (kern w) = []) \<and>
    quiet out w w'"
proof -
  let ?p = "place P (length (trace w)) 128"
  let ?m = "store_bytes (mem w) ?p (replicate 128 0)"
  from assms [of ?m ?p] obtain n k' where n: "n \<le> 128" "n \<le> length (content (kern w))"
      "n = 0 \<longrightarrow> content (kern w) = []"
    and k: "ecall P SYSCALL_READ [fd, ?p, 128, 0, 0, 0] ?m (kern w)
        = Resume (of_nat n) 0 (store_bytes ?m ?p (take n (content (kern w)))) k'"
      "opened k'" "content k' = drop n (content (kern w))" "out k' = out (kern w)"
    unfolding reads_piece_def by blast
  have u: "unat (of_nat n :: u64) = n" using n(1) by (intro unat_of_nat_u64) simp
  have z: "(of_nat n :: u64) = 0 \<longleftrightarrow> n = 0" unfolding unat_eq_0 [symmetric] u ..
  have le: "\<not> (128 :: u64) < of_nat n" using u n(1) by (simp add: word_less_nat_alt)
  have "take n (load_bytes (store_bytes ?m ?p (take n (content (kern w)))) ?p 128)
      = take n (content (kern w))"
    using take_load_store [of "take n (content (kern w))" 128 ?m ?p] n by simp
  with n k u z le show ?thesis
    by (auto simp: read_chunk_def with_data_def Let_def read_fd_def read_raw_def map_err_def
        rust_simps read_buffer_def quiet_def)
qed

text \<open>The message of a read that fails.\<close>

definition read_failed :: "errornum \<Rightarrow> rstr" where
  "read_failed e = str ''Read file failed with code '' @ str (errornum_name e)"

lemma read_chunk_fails:
  assumes "\<And>m p. \<exists>k'. ecall P SYSCALL_READ [fd, p, 128, 0, 0, 0] m (kern w) = kernel_answer (Inl e) m k' \<and>
    opened k' \<and> content k' = [] \<and> out k' = out (kern w)"
  shows "\<exists>w'. read_chunk P (FileDecstiptor fd) w = Some (Value (Inl (read_failed e)), w') \<and>
    opened (kern w') \<and> content (kern w') = [] \<and> quiet out w w'"
proof -
  let ?p = "place P (length (trace w)) 128"
  let ?m = "store_bytes (mem w) ?p (replicate 128 0)"
  from assms [of ?p ?m] obtain k' where
    k: "ecall P SYSCALL_READ [fd, ?p, 128, 0, 0, 0] ?m (kern w) = Resume (- errornum_code e) 1 ?m k'"
      "opened k'" "content k' = []" "out k' = out (kern w)" by (auto simp: kernel_answer_def)
  then show ?thesis
    by (simp add: read_chunk_def with_data_def Let_def read_fd_def read_raw_def map_err_def
        rust_simps quiet_def read_failed_def errornum_debug_def del: str_simps errornum_code.simps)
qed

lemma read_chunk_file:
  assumes "on_file P fd opened content out failure w"
  shows "\<exists>r w'. read_chunk P (FileDecstiptor fd) w = Some (Value r, w') \<and>
    on_file P fd opened content out failure w' \<and> quiet out w w' \<and>
    (case r of
       Inr bs \<Rightarrow> content (kern w) = bs @ content (kern w') \<and>
         (bs = [] \<longrightarrow> content (kern w) = [] \<and> map_option read_failed failure = None)
     | Inl msg \<Rightarrow> content (kern w) = [] \<and> content (kern w') = [] \<and> map_option read_failed failure = Some msg)"
proof (cases "content (kern w) = [] \<and> failure \<noteq> None")
  case True
  then obtain e where e: "failure = Some e" and c: "content (kern w) = []" by blast
  have "\<exists>k'. ecall P SYSCALL_READ [fd, p, 128, 0, 0, 0] m (kern w) = kernel_answer (Inl e) m k' \<and>
    opened k' \<and> content k' = [] \<and> out k' = out (kern w)" for m p
    using assms c e unfolding on_file_def reads_file_def by blast
  from read_chunk_fails [OF this] assms e c show ?thesis by (auto simp: on_file_def)
next
  case False
  have "\<exists>n. n \<le> 128 \<and> n \<le> length (content (kern w)) \<and> (n = 0 \<longrightarrow> content (kern w) = []) \<and>
    reads_piece P fd opened content out m p n (kern w)" for m p
    using assms False unfolding on_file_def reads_file_def by blast
  from read_chunk_piece [OF this] obtain bs w' where
    w': "read_chunk P (FileDecstiptor fd) w = Some (Value (Inr bs), w')" "opened (kern w')"
      "content (kern w) = bs @ content (kern w')" "bs = [] \<longrightarrow> content (kern w) = []" "quiet out w w'" by blast
  show ?thesis
    by (rule exI [of _ "Inr bs"], rule exI [of _ w']) (use w' False assms in \<open>auto simp: on_file_def\<close>)
qed

interpretation catfile: chunk_source "quiet out" "read_chunk P (FileDecstiptor fd)"
    "on_file P fd opened content out failure" "\<lambda>w. content (kern w)" "map_option read_failed failure"
  for P :: "'k platform" and fd opened content out failure
  using world_frame_quiet [of out] read_chunk_file
  by (auto simp: chunk_source_def chunk_source_axioms_def)

end
