(* ===== verification/Mkdir.thy ===== *)
theory Mkdir
  imports Start
begin

text \<open>
  \<^verbatim>\<open>parch_utils/mkdir/src/main.rs\<close>: create one directory with the default permissions.
\<close>

abbreviation mkdir_rs :: string where
  "mkdir_rs \<equiv> ''parch_utils/mkdir/src/main.rs''"

definition mkdir_panic_handler :: "'k platform \<Rightarrow> panic_info \<Rightarrow> ('k, 'a) rust" where
  "mkdir_panic_handler P = handle_panic (panic_report P ''Mkdir'') (exit P (- 1))"

definition mkdir_main :: "'k platform \<Rightarrow> u64 \<Rightarrow> slice list \<Rightarrow> ('k, u64) rust" where
  "mkdir_main P argc argv =
     (if argc \<noteq> 2 then panic_at mkdir_rs 25 [str ''Mkdir requires exactly 1 arguments.'']
      else
        andthen (read_arg mkdir_rs 27 argv 1) (\<lambda>bytes.
        andthen (unwrap_result utf8_error_debug mkdir_rs 27 (from_utf8 bytes)) (\<lambda>path.
        andthen (mkdir P path (permission_default P)) (\<lambda>r.
        andthen (unwrap_result errornum_debug mkdir_rs 28 r) (\<lambda>_. ret 0)))))"

definition mkdir_program :: "'k platform \<Rightarrow> u64 \<Rightarrow> addr \<Rightarrow> ('k, 'a) rust" where
  "mkdir_program P argc argv_raw =
     catch_panic (start P (mkdir_main P) argc argv_raw) (mkdir_panic_handler P)"

end
