(* ===== verification/Reference_Kernel.thy ===== *)
theory Reference_Kernel
  imports Shell_Session Cat Mkdir
begin

text \<open>
  A small concrete kernel, allocator and placement, on which the contracts the properties rest on
  (\<open>allocator_sound\<close>, \<open>flags_union\<close>, \<open>console\<close>, \<open>reads_file\<close>, \<open>prompt_kernel\<close>, \<open>shell_kernel\<close>, \<open>deaf\<close>) hold, with
  variants: \<open>deaf_platform\<close> refuses writes, \<open>bad_disk\<close> fails reads at the end of the file, \<open>no_files\<close> opens nothing. It is
  not part of the program; it shows that the hypotheses of the properties can be met and gives them concrete inputs.
\<close>

section \<open>A bump allocator\<close>

definition bump_end :: "nat \<Rightarrow> (addr \<times> nat) list \<Rightarrow> nat" where
  "bump_end s blocks = fold (\<lambda>(p, n) e. max (unat p + n) e) blocks s"

definition bump_place :: "(addr \<times> nat) option \<Rightarrow> (addr \<times> nat) list \<Rightarrow> nat \<Rightarrow> addr option" where
  "bump_place region blocks n =
     (case region of
        None \<Rightarrow> None
      | Some (s, len) \<Rightarrow>
          let e = bump_end (unat s) blocks
          in if s \<noteq> 0 \<and> e + n \<le> unat s + len \<and> e + n < 2 ^ 64 then Some (of_nat e) else None)"

lemma bump_end_bounds: "s \<le> bump_end s blocks \<and> (\<forall>(p, n) \<in> set blocks. unat p + n \<le> bump_end s blocks)"
  unfolding bump_end_def
proof (induction blocks arbitrary: s)
  case Nil
  then show ?case by simp
next
  case (Cons b blocks)
  obtain p n where b: "b = (p, n)" by (cases b)
  from Cons.IH [of "max (unat p + n) s"] show ?case by (auto simp: b)
qed

lemma bump_place_sound:
  assumes "bump_place r blocks n = Some p"
  shows "p \<noteq> 0 \<and> fits p n \<and> list_all (disjoint (p, n)) blocks \<and>
    (\<exists>s k. r = Some (s, k) \<and> unat s \<le> unat p \<and> unat p + n \<le> unat s + k)"
proof -
  from assms obtain s k where r: "r = Some (s, k)" and s: "s \<noteq> 0"
    and e: "bump_end (unat s) blocks + n \<le> unat s + k" "bump_end (unat s) blocks + n < 2 ^ 64"
    and p: "p = of_nat (bump_end (unat s) blocks)"
    by (auto simp: bump_place_def Let_def split: option.splits if_splits)
  from e(2) have u: "unat p = bump_end (unat s) blocks"
    unfolding p by (intro unat_of_nat_u64) simp
  note b = bump_end_bounds [of "unat s" blocks]
  from s have "0 < unat s" by (simp add: unat_gt_0)
  with b u have "p \<noteq> 0" by auto
  moreover have "list_all (disjoint (p, n)) blocks"
    using b u by (auto simp: list_all_iff disjoint_def)
  ultimately show ?thesis using e b u r by (auto simp: fits_def)
qed

section \<open>The kernel\<close>

text \<open>
  Its state: console input and output, the bytes left in the file (descriptor 3; without bytes
  it does not open), the answer of
  \<open>fork\<close>, whether \<open>exec\<close> finds a program, the current directory, the programs still to run, the
  readings of the clock (descriptor 5) and whether descriptor 0 is open.
\<close>

record machine_state =
  con_in :: "u8 list"
  con_out :: "u8 list"
  file_rest :: "u8 list"
  fork_answer :: u64
  has_program :: bool
  directory :: rstr
  pending :: "job list"
  times :: "u64 list"
  stdin_open :: bool

text \<open>The lines in the file that becomes the input when descriptor 0 was closed before.\<close>

definition ref_script :: "rstr list" where
  "ref_script = [str ''cd a'', str ''a | b'']"

definition script_bytes :: "u8 list" where
  "script_bytes = concat (map (\<lambda>l. as_bytes (l @ [10])) ref_script)"

definition fail_with :: "errornum \<Rightarrow> memory \<Rightarrow> machine_state \<Rightarrow> machine_state ecall_result" where
  "fail_with e m k = Resume (- errornum_code e) 1 m k"

definition ref_read :: "u64 list \<Rightarrow> memory \<Rightarrow> machine_state \<Rightarrow> machine_state ecall_result" where
  "ref_read args m k =
     (let n = min (unat (args ! 2)) 128 in
      if args ! 0 = 0 then
        Resume (of_nat (length (take n (con_in k)))) 0 (store_bytes m (args ! 1) (take n (con_in k)))
          (k\<lparr>con_in := drop n (con_in k)\<rparr>)
      else if args ! 0 = 3 then
        Resume (of_nat (length (take n (file_rest k)))) 0 (store_bytes m (args ! 1) (take n (file_rest k)))
          (k\<lparr>file_rest := drop n (file_rest k)\<rparr>)
      else if args ! 0 = 5 then Resume 8 0 (store_bytes m (args ! 1) (to_le 8 (unat (hd (times k))))) k
      else fail_with EBADFD m k)"

definition ref_ecall :: "u64 \<Rightarrow> u64 list \<Rightarrow> memory \<Rightarrow> machine_state \<Rightarrow> machine_state ecall_result" where
  "ref_ecall n args m k =
     (if n = SYSCALL_READ then ref_read args m k
      else if n = SYSCALL_WRITE then
        Resume (args ! 2) 0 m (k\<lparr>con_out := con_out k @ load_bytes m (args ! 1) (unat (args ! 2))\<rparr>)
      else if n = SYSCALL_OPEN then
        (if m (args ! 0) = 97 \<or> m (args ! 0) = 99 then
           (if stdin_open k then if file_rest k = [] then fail_with ENOENT m k else Resume 3 0 m k
            else Resume 0 0 m (k\<lparr>con_in := script_bytes, stdin_open := True\<rparr>))
         else if times k \<noteq> [] then Resume 5 0 m k
         else fail_with ENOENT m k)
      else if n = SYSCALL_CLOSE then 
        Resume 0 0 m (if args ! 0 = 5 then k\<lparr>times := tl (times k)\<rparr>
          else if args ! 0 = 0 then k\<lparr>con_in := [], stdin_open := False\<rparr> else k)
      else if n = SYSCALL_FORK then Resume (fork_answer k) 0 m k
      else if n = SYSCALL_EXEC then (if has_program k then Vanish k else fail_with ENOENT m k)
      else if n = SYSCALL_EXIT then Vanish k
      else if n = SYSCALL_WAITPID then
        (case pending k of
           [] \<Rightarrow> fail_with ECHILD m k
         | (shown, code) # rest \<Rightarrow> Resume (args ! 0) 0 (store_bytes m (args ! 1) (to_le 8 (unat code)))
             (k\<lparr>con_out := con_out k @ shown, pending := rest\<rparr>))
      else if n = SYSCALL_GETCWD then Resume 1 0 (store_bytes m (args ! 0) (as_bytes (directory k))) k
      else if n = SYSCALL_CHDIR then
        (if m (args ! 0) = 97 \<and> m (args ! 0 + 1) = 0 then Resume 0 0 m (k\<lparr>directory := str ''/a''\<rparr>)
         else fail_with ENOENT m k)
      else Resume 0 0 m k)"

definition ref_platform :: "machine_state platform" where
  "ref_platform =
     \<lparr>ecall = ref_ecall, heap_place = bump_place, place = (\<lambda>_ _. 0x10000), heap_space = 0x80000,
      usize_or = (OR), u16_or = (OR), time_format = (\<lambda>_ _ _. []), layout_debug = (\<lambda>_ _. []),
      source_path = str, slice_error = (\<lambda>_ _. [])\<rparr>"

text \<open>The same machine with a console that refuses every write.\<close>

definition deaf_platform :: "machine_state platform" where
  "deaf_platform = ref_platform\<lparr>ecall := \<lambda>n args m k.
     if n = SYSCALL_WRITE then fail_with EBADFD m k else ref_ecall n args m k\<rparr>"

definition ref_state :: "u8 list \<Rightarrow> machine_state" where
  "ref_state inp = \<lparr>con_in = inp, con_out = [], file_rest = [104, 105], fork_answer = 7,
     has_program = False, directory = [47], pending = [([], 42)], times = [], stdin_open = True\<rparr>"

definition ref_world :: "u8 list \<Rightarrow> machine_state world" where
  "ref_world inp =
     \<lparr>mem = (\<lambda>_. 0), heap = Some (0x80000, HEAP_SIZE), live = [], kern = ref_state inp, trace = []\<rparr>"

lemma ref_platform_simps [simp]:
  "ecall ref_platform = ref_ecall" "heap_place ref_platform = bump_place"
  "place ref_platform = (\<lambda>_ _. 0x10000)" "heap_space ref_platform = 0x80000"
  "usize_or ref_platform = (OR)" "u16_or ref_platform = (OR)"
  "source_path ref_platform = str"
  by (simp_all add: ref_platform_def)

lemma ref_world_simps [simp]:
  "mem (ref_world i) = (\<lambda>_. 0)" "heap (ref_world i) = Some (0x80000, HEAP_SIZE)"
  "live (ref_world i) = []" "kern (ref_world i) = ref_state i" "trace (ref_world i) = []"
  by (simp_all add: ref_world_def)

lemma ref_state_simps [simp]:
  "con_in (ref_state i) = i" "con_out (ref_state i) = []" "file_rest (ref_state i) = [104, 105]"
  "fork_answer (ref_state i) = 7" "has_program (ref_state i) = False" "directory (ref_state i) = [47]"
  "pending (ref_state i) = [([], 42)]" "times (ref_state i) = []"
  "stdin_open (ref_state i)"
  by (simp_all add: ref_state_def)

lemma ref_without_clock: "(ref_world i)\<lparr>kern := (ref_state i)\<lparr>times := []\<rparr>\<rparr> = ref_world i"
  by (simp add: ref_world_def ref_state_def)

section \<open>Its contracts\<close>

lemma ref_allocator: "allocator_sound ref_platform"
  unfolding allocator_sound_def ref_platform_simps using bump_place_sound by blast

lemma ref_flags: "flags_union ref_platform"
  by (simp add: flags_union_def)

lemma store_bytes_Nil [simp]: "store_bytes m p [] = m"
  by (simp add: store_bytes_def)

text \<open>
  The contracts hold under every invariant on what console calls leave alone: the answer of \<open>fork\<close>, the
  presence of a program, the directory, the programs to run and the clock.
\<close>

definition answers :: "(u64 \<Rightarrow> bool \<Rightarrow> rstr \<Rightarrow> job list \<Rightarrow> u64 list \<Rightarrow> bool) \<Rightarrow> machine_state \<Rightarrow> bool" where
  "answers I k \<longleftrightarrow> I (fork_answer k) (has_program k) (directory k) (pending k) (times k)"

lemma ref_console_answers: "console ref_platform (answers I) con_in con_out"
  unfolding console_def ref_platform_simps
proof (intro conjI allI impI)
  fix k :: machine_state and m p
  assume "answers I k"
  then show "\<exists>k'. ref_ecall SYSCALL_READ [0, p, 1, 0, 0, 0] m k
      = (case con_in k of [] \<Rightarrow> Resume 0 0 m k' | b # bs \<Rightarrow> Resume 1 0 (m(p := b)) k') \<and>
      answers I k' \<and> con_in k' = tl (con_in k) \<and> con_out k' = con_out k"
    by (cases "con_in k")
      (auto simp: ref_ecall_def ref_read_def Let_def answers_def intro!: exI [of _ "k\<lparr>con_in := tl (con_in k)\<rparr>"])
next
  fix k :: machine_state and m p n
  assume "answers I k"
  then show "\<exists>k'. ref_ecall SYSCALL_WRITE [1, p, n, 0, 0, 0] m k = Resume n 0 m k' \<and> answers I k' \<and>
      con_in k' = con_in k \<and> con_out k' = con_out k @ load_bytes m p (unat n)"
    by (simp add: ref_ecall_def syscall_num_defs answers_def)
qed

lemma answers_any: "answers (\<lambda>_ _ _ _ _. True) = (\<lambda>_. True)"
  by (simp add: answers_def fun_eq_iff)

lemma ref_console: "console ref_platform (\<lambda>_. True) con_in con_out"
  by (rule ref_console_answers [of "\<lambda>_ _ _ _ _. True", unfolded answers_any])

lemma ref_on_console: "on_console ref_platform (\<lambda>_. True) con_in con_out w"
  by (simp add: on_console_def ref_console)

lemma ref_reads_piece:
  "reads_piece ref_platform 3 (\<lambda>_. True) file_rest con_out m p (length (take 128 (file_rest k))) k"
proof -
  let ?n = "length (take 128 (file_rest k))"
  have "ref_ecall SYSCALL_READ [3, p, 128, 0, 0, 0] m k
      = Resume (of_nat ?n) 0 (store_bytes m p (take ?n (file_rest k))) (k\<lparr>file_rest := drop ?n (file_rest k)\<rparr>)"
    by (cases "length (file_rest k) \<le> 128") (simp_all add: ref_ecall_def ref_read_def Let_def min_def)
  then show ?thesis
    unfolding reads_piece_def ref_platform_simps
    by (intro exI [of _ "k\<lparr>file_rest := drop ?n (file_rest k)\<rparr>"]) simp
qed

lemma ref_reads_file: "reads_file ref_platform 3 (\<lambda>_. True) file_rest con_out None"
proof -
  have "length (take 128 xs) \<le> 128" "length (take 128 xs) \<le> length xs" "length (take 128 xs) = 0 \<longrightarrow> xs = []"
    for xs :: "u8 list" by (simp_all add: min_def)
  then show ?thesis unfolding reads_file_def using ref_reads_piece by blast
qed

text \<open>The same machine with a disk on which reading the file fails at its end.\<close>

definition bad_disk :: "machine_state platform" where
  "bad_disk = ref_platform\<lparr>ecall := \<lambda>n args m k.
     if n = SYSCALL_READ \<and> args ! 0 = 3 \<and> file_rest k = [] then fail_with EIO m k else ref_ecall n args m k\<rparr>"

lemma bad_disk_allocator: "allocator_sound bad_disk"
  using ref_allocator by (simp add: allocator_sound_def bad_disk_def)

lemma bad_disk_console: "console bad_disk (\<lambda>_. True) con_in con_out"
  using ref_console by (simp add: console_def bad_disk_def syscall_num_defs)

lemma bad_disk_reads: "reads_file bad_disk 3 (\<lambda>_. True) file_rest con_out (Some EIO)"
  unfolding reads_file_def
proof (intro allI impI conjI)
  fix k :: machine_state and m p
  assume "file_rest k \<noteq> [] \<or> Some EIO = None"
  then have k: "file_rest k \<noteq> []" by simp
  then have "reads_piece bad_disk 3 (\<lambda>_. True) file_rest con_out m p (length (take 128 (file_rest k))) k"
    using ref_reads_piece [of m p k] by (simp add: reads_piece_def bad_disk_def)
  with k show "\<exists>n. n \<le> 128 \<and> n \<le> length (file_rest k) \<and> (n = 0 \<longrightarrow> file_rest k = []) \<and>
      reads_piece bad_disk 3 (\<lambda>_. True) file_rest con_out m p n k"
    by (intro exI [of _ "length (take 128 (file_rest k))"]) simp
next
  fix k :: machine_state and m p e
  assume "file_rest k = [] \<and> Some EIO = Some e"
  then show "\<exists>k'. ecall bad_disk SYSCALL_READ [3, p, 128, 0, 0, 0] m k = kernel_answer (Inl e) m k' \<and>
      True \<and> file_rest k' = [] \<and> con_out k' = con_out k"
    by (auto simp: bad_disk_def fail_with_def kernel_answer_def)
qed

text \<open>The same machine without files: no path opens.\<close>

definition no_files :: "machine_state platform" where
  "no_files = ref_platform\<lparr>ecall := \<lambda>n args m k.
     if n = SYSCALL_OPEN then fail_with ENOENT m k else ref_ecall n args m k\<rparr>"

lemma no_files_contracts:
  "allocator_sound no_files" "console no_files (\<lambda>_. True) con_in con_out" "closes_stdin no_files (\<lambda>_. True) (\<lambda>_. True) con_out"
  "answers_open no_files (\<lambda>_. True) (\<lambda>_. True) con_out path (Inl ENOENT)"
proof -
  show "allocator_sound no_files" using ref_allocator by (simp add: allocator_sound_def no_files_def)
  show "console no_files (\<lambda>_. True) con_in con_out"
    using ref_console by (simp add: console_def no_files_def syscall_num_defs)
  show "closes_stdin no_files (\<lambda>_. True) (\<lambda>_. True) con_out"
    by (simp add: closes_stdin_def no_files_def ref_ecall_def syscall_num_defs)
  show "answers_open no_files (\<lambda>_. True) (\<lambda>_. True) con_out path (Inl ENOENT)"
    by (simp add: answers_open_def no_files_def fail_with_def kernel_answer_def)
qed

lemma rtc_open:
  assumes "load_bytes m p 16 = as_bytes rtc_path @ [0]"
  shows "m p = 47"
  using assms by (simp add: load_bytes_def rtc_path_def utf8_encode_ascii upt_rec)

lemma ref_no_clock:
  assumes "\<And>k. answers I k \<Longrightarrow> times k = []"
  shows "no_clock ref_platform (answers I) (answers I) con_in con_out"
  unfolding no_clock_def ref_platform_simps
proof (intro allI impI)
  fix k :: machine_state and m p
  assume h: "answers I k \<and> load_bytes m p 16 = as_bytes rtc_path @ [0]"
  with assms rtc_open have "times k = []" "m p = 47" by blast+
  with h show "\<exists>e k'. ref_ecall SYSCALL_OPEN [p, om_READ, 0, 0, 0, 0] m k = Resume (- errornum_code e) 1 m k' \<and>
      answers I k' \<and> con_in k' = con_in k \<and> con_out k' = con_out k"
    by (auto simp: ref_ecall_def syscall_num_defs fail_with_def simp del: errornum_code.simps)
qed

lemma ref_clock_at:
  assumes i: "\<And>k. answers I k \<Longrightarrow> \<exists>us. times k = t # us \<and> answers J (k\<lparr>times := us\<rparr>)"
    and short: "str_len (time_text ref_platform t) < 2 ^ 64"
  shows "clock_at ref_platform (answers I) (\<lambda>fd k. fd = 5 \<and> answers I k) (answers J) con_in con_out t"
  unfolding clock_at_def ref_platform_simps
proof (intro conjI allI impI short)
  fix k :: machine_state and m p
  assume h: "answers I k \<and> load_bytes m p 16 = as_bytes rtc_path @ [0]"
  with i rtc_open show "\<exists>fd k'. ref_ecall SYSCALL_OPEN [p, om_READ, 0, 0, 0, 0] m k = Resume fd 0 m k' \<and>
      (fd = 5 \<and> answers I k') \<and> con_in k' = con_in k \<and> con_out k' = con_out k"
    by (fastforce simp: ref_ecall_def syscall_num_defs)
next
  fix fd :: u64 and k :: machine_state and m p
  assume h: "fd = 5 \<and> answers I k"
  with i have "hd (times k) = t" by fastforce
  with h show "\<exists>k'. ref_ecall SYSCALL_READ [fd, p, 8, 0, 0, 0] m k = Resume 8 0 (store_bytes m p (to_le 8 (unat t))) k' \<and>
      (fd = 5 \<and> answers I k') \<and> con_in k' = con_in k \<and> con_out k' = con_out k"
    by (simp add: ref_ecall_def ref_read_def syscall_num_defs del: to_le.simps)
next
  fix fd :: u64 and k :: machine_state and m
  assume h: "fd = 5 \<and> answers I k"
  with i obtain us where "times k = t # us" "answers J (k\<lparr>times := us\<rparr>)" by blast
  with h show "\<exists>r k'. ref_ecall SYSCALL_CLOSE [fd, 0, 0, 0, 0, 0] m k = Resume r 0 m k' \<and>
      answers J k' \<and> con_in k' = con_in k \<and> con_out k' = con_out k"
    by (simp add: ref_ecall_def syscall_num_defs)
qed

lemma ref_prompt_answers:
  assumes "\<And>f h d j ts. I f h d j ts \<Longrightarrow> d = path" and "good_dir path"
    and "case clock of None \<Rightarrow> (\<forall>f h d j ts. I f h d j ts \<longrightarrow> ts = []) \<and> J = I
      | Some t \<Rightarrow> str_len (time_text ref_platform t) < 2 ^ 64 \<and>
          (\<forall>f h d j ts. I f h d j ts \<longrightarrow> (\<exists>us. ts = t # us \<and> J f h d j us))"
  shows "prompt_kernel ref_platform (answers I) (answers J) con_in con_out path clock"
  unfolding prompt_kernel_def ref_platform_simps
proof (intro conjI allI impI ref_console_answers)
  show "valid_str path" "str_len path \<le> 1024" using assms(2) by (simp_all only: good_dir_def)
next
  fix k :: machine_state and m p
  assume k: "answers I k"
  with assms(1) have "directory k = path" unfolding answers_def by blast
  with k show "\<exists>n k'. ref_ecall SYSCALL_GETCWD [p, 1024, 0, 0, 0, 0] m k
      = Resume n 0 (store_bytes m p (as_bytes path)) k' \<and> answers I k' \<and> con_in k' = con_in k \<and> con_out k' = con_out k"
    by (simp add: ref_ecall_def syscall_num_defs)
next
  show "case clock of None \<Rightarrow> no_clock ref_platform (answers I) (answers J) con_in con_out
      | Some t \<Rightarrow> \<exists>opened. clock_at ref_platform (answers I) opened (answers J) con_in con_out t"
  proof (cases clock)
    case None
    with assms(3) have i: "\<And>k. answers I k \<Longrightarrow> times k = []" "J = I" by (auto simp: answers_def)
    show ?thesis unfolding None option.case i(2) by (rule ref_no_clock) (rule i(1))
  next
    case (Some t)
    with assms(3) have short: "str_len (time_text ref_platform t) < 2 ^ 64"
      and i: "\<And>k. answers I k \<Longrightarrow> \<exists>us. times k = t # us \<and> answers J (k\<lparr>times := us\<rparr>)"
      by (auto simp: answers_def)
    show ?thesis unfolding Some option.case by (rule exI) (rule ref_clock_at [OF i short])
  qed
qed

lemma good_dir_root: "good_dir [47]" "good_dir (str ''/a'')"
  by (simp_all add: good_dir_def is_scalar_def str_len_def utf8_encode_ascii)

text \<open>The shell's view of this kernel.\<close>

definition ref_resolve :: "rstr \<Rightarrow> u8 list \<Rightarrow> rstr option" where
  "ref_resolve d bs = (if bs = [97] then Some (str ''/a'') else None)"

definition ref_view :: "machine_state shell_view" where
  "ref_view = \<lparr>v_ready = (\<lambda>k. fork_answer k \<noteq> 0), v_inp = con_in, v_out = con_out, v_cwd = directory,
     v_jobs = pending, v_times = times, v_resolve = ref_resolve\<rparr>"

lemma ref_view_simps [simp]:
  "v_ready ref_view = (\<lambda>k. fork_answer k \<noteq> 0)" "v_inp ref_view = con_in" "v_out ref_view = con_out"
  "v_cwd ref_view = directory" "v_jobs ref_view = pending" "v_times ref_view = times" "v_resolve ref_view = ref_resolve"
  by (simp_all add: ref_view_def)

lemma holds_answers:
  "holds ref_view s = answers (\<lambda>f h d j ts. f \<noteq> 0 \<and> d = sh_dir s \<and> j = sh_jobs s \<and> ts = sh_times s \<and>
     good_dir (sh_dir s))"
  by (simp add: holds_def answers_def fun_eq_iff)

lemma cstr_at_a:
  assumes "cstr_at m p bs"
  shows "m p = 97 \<and> m (p + 1) = 0 \<longleftrightarrow> bs = [97]"
proof -
  from assms have l: "load_bytes m p (Suc (length bs)) = bs @ [0]" and z: "0 \<notin> set bs" by (simp_all add: cstr_at_def)
  show ?thesis
  proof (cases bs)
    case Nil
    with l show ?thesis by (simp add: load_bytes_def)
  next
    case (Cons b cs)
    with l z show ?thesis by (cases cs) (auto simp: load_bytes_def upt_rec)
  qed
qed

lemma ref_changes_dir: "changes_dir ref_platform ref_view"
  unfolding changes_dir_def
proof (intro allI impI, elim conjE)
  fix s k m p n bs
  assume h: "holds ref_view s k" and c: "cstr_at m p bs"
  let ?k = "if bs = [97] then k\<lparr>directory := str ''/a''\<rparr> else k"
  show "\<exists>k'. v_inp ref_view k' = v_inp ref_view k \<and> v_out ref_view k' = v_out ref_view k \<and>
      (case v_resolve ref_view (sh_dir s) bs of
         Some d' \<Rightarrow> ecall ref_platform SYSCALL_CHDIR [p, n, 0, 0, 0, 0] m k = Resume 0 0 m k' \<and> holds ref_view (s\<lparr>sh_dir := d'\<rparr>) k'
       | None \<Rightarrow> ecall ref_platform SYSCALL_CHDIR [p, n, 0, 0, 0, 0] m k = Resume (- errornum_code ENOENT) 1 m k' \<and>
           holds ref_view s k')"
    using h cstr_at_a [OF c] good_dir_root
    by (intro exI [of _ ?k]) (auto simp: ref_ecall_def syscall_num_defs fail_with_def ref_resolve_def holds_def)
qed

lemma ref_forks: "forks ref_platform ref_view"
  unfolding forks_def by (auto simp: ref_ecall_def syscall_num_defs holds_def)

lemma ref_waits: "waits ref_platform ref_view"
  unfolding waits_def
proof (intro allI impI)
  fix s k m pid p
  assume h: "holds ref_view s k"
  let ?k = "case sh_jobs s of [] \<Rightarrow> k | (shown, code) # rest \<Rightarrow> k\<lparr>con_out := con_out k @ shown, pending := rest\<rparr>"
  show "\<exists>k' r. v_inp ref_view k' = v_inp ref_view k \<and> holds ref_view (s\<lparr>sh_jobs := tl (sh_jobs s)\<rparr>) k' \<and>
      (case sh_jobs s of
         (shown, code) # rest \<Rightarrow>
           ecall ref_platform SYSCALL_WAITPID [pid, p, 0, 0, 0, 0] m k = Resume r 0 (store_bytes m p (to_le 8 (unat code))) k' \<and>
           v_out ref_view k' = v_out ref_view k @ shown
       | [] \<Rightarrow> ecall ref_platform SYSCALL_WAITPID [pid, p, 0, 0, 0, 0] m k = Resume (- errornum_code ECHILD) 1 m k' \<and>
           v_out ref_view k' = v_out ref_view k)"
    using h
    by (intro exI [of _ ?k] exI [of _ pid])
      (auto simp: ref_ecall_def syscall_num_defs fail_with_def holds_def split: list.splits simp del: to_le.simps)
qed

lemma ref_shell_kernel: "shell_kernel ref_platform ref_view"
  unfolding shell_kernel_def
proof (intro conjI allI impI)
  fix s :: shell_state
  assume g: "good_dir (sh_dir s)"
  show "prompt_kernel ref_platform (holds ref_view s) (holds ref_view (tick s)) (v_inp ref_view) (v_out ref_view)
      (sh_dir s) (reading s)"
    unfolding holds_answers ref_view_simps
    by (rule ref_prompt_answers)
      (use g in \<open>simp_all add: reading_def tick_def time_text_def ref_platform_def split: list.split\<close>)
qed (rule ref_changes_dir ref_forks ref_waits)+

lemma ref_prompt_kernel:
  "prompt_kernel ref_platform (answers (\<lambda>f h d j ts. d = [47] \<and> ts = [])) (answers (\<lambda>f h d j ts. d = [47] \<and> ts = []))
     con_in con_out [47] None"
  by (rule ref_prompt_answers) (simp_all add: good_dir_root del: str_simps)

lemma ref_heap: "heap_place ref_platform (heap (ref_world i)) (live (ref_world i)) 16 \<noteq> None"
  by (simp add: bump_place_def bump_end_def HEAP_SIZE_def)

lemma ref_at_prompt:
  assumes "lim \<le> 4096"
  shows "at_prompt ref_platform ref_view lim \<lparr>sh_dir = [47], sh_jobs = [([], 42)], sh_times = ts\<rparr>
    ((ref_world i)\<lparr>kern := (ref_state i)\<lparr>times := ts\<rparr>\<rparr>)"
  using assms good_dir_root(1) ref_shell_kernel ref_allocator
  by (simp add: at_prompt_def holds_def bump_place_def bump_end_def HEAP_SIZE_def)

lemmas ref_at_prompt_without_clock = ref_at_prompt [where ts = "[]", unfolded ref_without_clock]

lemma keyboard_script: "keyboard ref_script = script_bytes"
  by (simp add: ref_script_def script_bytes_def)

lemma ref_closes_stdin:
  "closes_stdin ref_platform (holds ref_view s) (\<lambda>k. holds ref_view s k \<and> \<not> stdin_open k) con_out"
  by (simp add: closes_stdin_def ref_ecall_def syscall_num_defs holds_def)

lemma cstr_at_first: "cstr_at m p (b # bs) \<Longrightarrow> m p = b"
  by (simp add: cstr_at_def load_bytes_def upt_rec)

lemma ref_opens_script:
  "opens_file ref_platform 0 (\<lambda>k. holds ref_view s k \<and> \<not> stdin_open k) (holds ref_view s) con_in con_out
     (str ''cat'') (keyboard ref_script)"
  unfolding opens_file_def
proof (intro allI impI)
  fix k :: machine_state and m p
  assume h: "(holds ref_view s k \<and> \<not> stdin_open k) \<and> cstr_at m p (as_bytes (str ''cat''))"
  then have "m p = 99" by (auto simp: utf8_encode_ascii dest: cstr_at_first)
  with h show "\<exists>k'. ecall ref_platform SYSCALL_OPEN [p, om_READ, 0, 0, 0, 0] m k = Resume 0 0 m k' \<and>
      holds ref_view s k' \<and> con_in k' = keyboard ref_script \<and> con_out k' = con_out k"
    by (simp add: ref_ecall_def syscall_num_defs holds_def keyboard_script)
qed

lemma deaf_deaf: "deaf deaf_platform"
  unfolding deaf_def deaf_platform_def 
  by (simp add: fail_with_def errno.code_inj del: errornum_code.simps)

definition chars :: "string \<Rightarrow> u8 list" where
  "chars s = as_bytes (str s)"

lemma ref_exec:
  assumes "heap v = Some (0x80000, HEAP_SIZE)" "live v = []" "\<not> has_program (kern v)"
  shows "\<exists>w'. exec ref_platform (str ''p'') [str ''x''] v = Some (Value (Inl ENOENT), w') \<and> trace w' \<noteq> trace v"
proof -
  have n: "do_syscall ref_platform args SYSCALL_EXEC u
      = Some (Value (Inl ENOENT), u\<lparr>trace := trace u @ [logged SYSCALL_EXEC args u]\<rparr>)"
    if "kern u = kern v" for args u
    using do_syscall_Err [of ref_platform SYSCALL_EXEC args u ENOENT 1 "mem u" "kern u"] that assms(3)
    by (simp add: ref_ecall_def syscall_num_defs fail_with_def)
  show ?thesis
    by (simp add: exec_def exec_raw_def with_vec_def with_ptr_vec_def with_block_def bump_place_def
        bump_end_def HEAP_SIZE_def utf8_encode_ascii andthen_def ret_def Let_def n assms del: to_le.simps)
qed

section \<open>Arguments of a program\<close>

text \<open>An argument block with \<open>n\<close> arguments "cat": the table at 0x1000, the string at 0x2000.\<close>

definition arg_memory :: "nat \<Rightarrow> memory" where
  "arg_memory n = store_bytes (store_bytes (\<lambda>_. 0) 0x2000 (chars ''cat'')) 0x1000
     (concat (map (\<lambda>p :: addr. to_le 8 (unat p)) (replicate n 0x2000 @ [0])))"

definition arg_world :: "nat \<Rightarrow> machine_state world" where
  "arg_world n = (ref_world [])\<lparr>mem := arg_memory n\<rparr>"

lemma chars_cat: "chars ''cat'' = [99, 97, 116]"
  by (simp add: chars_def utf8_encode_ascii)

lemma arg_memory_string: "n \<le> 100 \<Longrightarrow> cstr_at (arg_memory n) 0x2000 (chars ''cat'')"
  by (simp add: cstr_at_def fits_def load_bytes_def chars_cat arg_memory_def store_bytes_def upt_rec
      length_ptr_bytes del: to_le.simps map_append concat_append map_replicate)

lemma arg_memory_table:
  assumes "n \<le> 100"
  shows "load_bytes (arg_memory n) 0x1000 (8 * (n + 1)) 
    = concat (map (\<lambda>p :: addr. to_le 8 (unat p)) (replicate n 0x2000 @ [0]))"
proof -
  have "length (concat (map (\<lambda>p :: addr. to_le 8 (unat p)) (replicate n 0x2000 @ [0]))) = 8 * (n + 1)"
    by (simp only: length_ptr_bytes) simp
  then show ?thesis unfolding arg_memory_def by (intro load_store_bytes) (use assms in simp_all)
qed

lemma argv_arg_memory:
  assumes "n \<le> 100"
  shows "argv_at (arg_memory n) 0x1000 (replicate n (chars ''cat''))"
  using arg_memory_table [OF assms] arg_memory_string [OF assms]
  unfolding argv_at_def by (intro exI [of _ "replicate n 0x2000"]) (simp add: list_all2_conv_all_nth)

lemma mem_arg_world:
  assumes "n \<le> 100"
  shows "(mem (arg_world n))(place ref_platform (length (trace (arg_world n))) 1 := 0) = arg_memory n"
proof -
  from assms have "(arg_memory n)(0x10000 := 0) = arg_memory n"
    by (intro fun_upd_idem)
      (simp add: arg_memory_def store_bytes_def chars_cat length_ptr_bytes
         del: to_le.simps map_append concat_append map_replicate)
  then show ?thesis by (simp add: arg_world_def)
qed

lemma argv_arg_world:
  "n \<le> 100 \<Longrightarrow> argv_at ((mem (arg_world n))(place ref_platform (length (trace (arg_world n))) 1 := 0))
     0x1000 (replicate n (chars ''cat''))"
  unfolding mem_arg_world by (rule argv_arg_memory)

lemma argv_arg_pointer:
  assumes "n \<le> 100" "i < n"
  shows "load_bytes ((mem (arg_world n))(place ref_platform (length (trace (arg_world n))) 1 := 0))
     (0x1000 + 8 * of_nat i) 8 = to_le 8 (unat (0x2000 :: addr))"
  unfolding mem_arg_world [OF assms(1)]
  using load_table [where m = "arg_memory n" and ap = "0x1000" and ptrs = "replicate n 0x2000 @ [0 :: addr]" and i = i] arg_memory_table [OF assms(1)] assms(2)
  by (simp add: nth_append del: to_le.simps map_append concat_append)

lemma argv_two_cats:
  "argv_at ((mem (arg_world 2))(place ref_platform (length (trace (arg_world 2))) 1 := 0)) 0x1000
     [chars ''cat'', as_bytes (str ''cat'')]"
  using argv_arg_world [of 2] by (simp add: numeral_2_eq_2 chars_def del: str_simps)

lemma room_for_cat:
  "heap_place ref_platform (Some (heap_space ref_platform, HEAP_SIZE)) (live (arg_world 2)) (Suc (str_len (str ''cat''))) \<noteq> None"
  by (simp add: arg_world_def bump_place_def bump_end_def HEAP_SIZE_def str_len_def utf8_encode_ascii)

end
