(* ===== verification/Shell_Props.thy ===== *)
theory Shell_Props
  imports Reference_Kernel
begin

text \<open>
  The properties of the shell: its parser, \<open>execute\<close> in both processes, the dispatch of command lines,
  whole sessions, and its panic handler. Each witness applies its property to concrete input.
\<close>

section \<open>The parser\<close>

text \<open>
  C3. Writing a command down and parsing the line gives the command back: path, arguments and at most
  one redirection to a file.
\<close>

theorem parse_roundtrip:
  assumes "showable c"
  shows "parse P (show_command c) = Inr (Inr c)"
  by (rule parse_show_command [OF assms])

theorem parse_roundtrip_witness:
  "parse ref_platform (str ''cat -n < in'') = Inr (Inr (Command (str ''cat'') [str ''-n''] (File (str ''in'')) Default))"
proof -
  let ?c = "Command (str ''cat'') [str ''-n''] (File (str ''in'')) Default"
  have "showable ?c"
    by (simp add: showable_def is_word_def is_path_def trim_def is_whitespace_def)
  from parse_roundtrip [OF this, of ref_platform] show ?thesis by simp
qed

text \<open>
  C31. No pipeline parses: the right side of \<open>split_at\<close> still begins with the pipe symbol, so its own left
  side is empty. Once the part before the first pipe is read, the answer is \<open>ParseErr\<close>, and the command
  is refused with \<open>ENOEXEC\<close> before any system call, the world unchanged.
\<close>

theorem pipeline_never_parses:
  assumes "124 \<notin> set l"
  shows "parse P (l @ 124 # r) = (case parse P (trim l) of Inl i \<Rightarrow> Inl i | Inr _ \<Rightarrow> Inr (Inl ParseErr)) \<and>
    serve_exec P (l @ 124 # r) w
      = (case parse P (trim l) of Inl i \<Rightarrow> Some (Panicked i, w) | Inr _ \<Rightarrow> Some (Value (Inl ENOEXEC), w))"
proof
  show p: "parse P (l @ 124 # r) = (case parse P (trim l) of Inl i \<Rightarrow> Inl i | Inr _ \<Rightarrow> Inr (Inl ParseErr))"
    by (rule parse_with_pipe [OF assms])
  show "serve_exec P (l @ 124 # r) w
      = (case parse P (trim l) of Inl i \<Rightarrow> Some (Panicked i, w) | Inr _ \<Rightarrow> Some (Value (Inl ENOEXEC), w))"
    unfolding serve_exec_def p
    by (simp add: lift_checked_def map_err_def try_then_def andthen_def ret_def split: sum.split)
qed

theorem pipeline_never_parses_witness:
  "parse ref_platform (str ''ls | wc'') = Inr (Inl ParseErr) \<and>
   serve_exec ref_platform (str ''ls | wc'') (ref_world []) = Some (Value (Inl ENOEXEC), ref_world [])"
proof -
  have p: "parse ref_platform (unwords [str ''ls'']) = Inr (Inr (Command (str ''ls'') [] Default Default))"
    by (simp add: parse_no_pipe redirections_none build_command_def tokens_def io_of_def trim_def is_whitespace_def)
  have t: "trim (str ''ls '') = str ''ls''" by (simp add: trim_def is_whitespace_def)
  have "124 \<notin> set (str ''ls '')" by simp
  from pipeline_never_parses [OF this, of ref_platform "str '' wc''" "ref_world []"] p show ?thesis unfolding t by simp
qed

text \<open>
  A line with both redirections panics: the second split position is one byte too far, so the path
  carries the second symbol and the remainder, unless it happens to double that symbol, fails
  the \<open>strip_prefix\<close> whose answer is unwrapped.
\<close>

lemma both_redirections_panic:
  assumes "{60, 62, 124} \<inter> set e = {}" and "62 \<notin> set i" and "124 \<notin> set i" and "124 \<notin> set out"
    and "\<forall>t. out \<noteq> 62 # t"
  shows "parse P (e @ 60 # i @ 62 # out)
    = Inl (shell_panic 158 [str ''called `Option::unwrap()` on a `None` value''])"
proof -
  have "124 \<notin> set (e @ 60 # i @ 62 # out)" "60 \<notin> set e" "62 \<notin> set e" using assms by auto
  then show ?thesis
    using assms(2,5) by (auto simp: parse_no_pipe redirections_in_out split: list.splits simp del: str_simps)
qed

text \<open>
  C12. The parser panics nowhere else: a panic means that the line has both redirection symbols, and its
  place is one of the two unwraps after the second split. Every other split and unwrap is safe.
\<close>

theorem parse_panic_sites:
  assumes "parse P cmd = Inl i"
  shows "60 \<in> set cmd \<and> 62 \<in> set cmd \<and> (pi_line i = 158 \<or> pi_line i = 164)"
  by (rule parse_panic [OF assms])

theorem parse_panic_sites_witness:
  "\<exists>i. parse ref_platform (str ''a>b<c'') = Inl i \<and> 60 \<in> set (str ''a>b<c'') \<and> pi_line i = 164"
proof -
  have "redirections ref_platform (str ''a'' @ 62 # str ''b'' @ 60 # str ''c'')
      = Inl (shell_panic 164 [str ''called `Option::unwrap()` on a `None` value''])"
    by (subst redirections_out_in) simp_all
  then have "parse ref_platform (str ''a>b<c'') = Inl (shell_panic 164 [str ''called `Option::unwrap()` on a `None` value''])"
    by (simp add: parse_no_pipe)
  with parse_panic_sites [OF this] show ?thesis by (auto simp: shell_panic_def)
qed

text \<open>
  C13. A parsed command is well formed: path and arguments are non-empty words without space or
  redirection symbol, and neither side is ever piped into another command.
\<close>

theorem parse_result_wf:
  assumes "parse P cmd = Inr (Inr c)"
  shows "wf_command c"
  by (rule parse_Ok_wf [OF assms])

theorem parse_result_wf_witness:
  "parse ref_platform (str ''ls /'') = Inr (Inr (Command (str ''ls'') [str ''/''] Default Default)) \<and>
   wf_command (Command (str ''ls'') [str ''/''] Default Default)"
proof -
  have "parse ref_platform (str ''ls /'') = Inr (Inr (Command (str ''ls'') [str ''/''] Default Default))"
    by (simp add: parse_no_pipe redirections_none build_command_def tokens_def io_of_def trim_def is_whitespace_def)
  with parse_result_wf [OF this] show ?thesis by blast
qed

section \<open>Running a command\<close>

text \<open>
  C8. The parent side of \<open>execute\<close>: one fork, one wait for exactly the process it made, and the answer is
  the exit code the kernel wrote at the address it was given.
\<close>

theorem parent_returns_exit_code:
  assumes "ecall P SYSCALL_FORK [0, 0, 0, 0, 0, 0] (mem w) (kern w) = Resume pid 0 m1 k1" and "pid \<noteq> 0"
    and "p = place P (Suc (length (trace w))) 8"
    and "ecall P SYSCALL_WAITPID [pid, p, 0, 0, 0, 0] (store_bytes m1 p (to_le 8 0)) k1
      = Resume r 0 (store_bytes m2 p (to_le 8 (unat code))) k2"
  shows "\<exists>w'. execute P c w = Some (Value (Inr code), w') \<and> kern w' = k2 \<and>
    makes [SYSCALL_FORK, SYSCALL_WAITPID] w w'"
proof -
  let ?w1 = "w\<lparr>mem := m1, kern := k1, trace := trace w @ [logged SYSCALL_FORK [0, 0, 0, 0, 0, 0] w]\<rparr>"
  let ?v = "?w1\<lparr>mem := store_bytes m1 p (to_le 8 0)\<rparr>"
  have fork: "fork P w = Some (Value (Inr pid), ?w1)"
    using assms(1) by (simp add: fork_def rust_simps)
  have wait: "waitpid P pid p ?v = Some (Value (Inr r), ?v\<lparr>mem := store_bytes m2 p (to_le 8 (unat code)),
      kern := k2, trace := trace ?v @ [logged SYSCALL_WAITPID [pid, p, 0, 0, 0, 0] ?v]\<rparr>)"
    using assms(4) by (simp add: waitpid_def rust_simps)
  have "load_bytes (store_bytes m2 p (to_le 8 (unat code))) p 8 = to_le 8 (unat code)"
    by (rule load_store_bytes) simp_all
  moreover have "place P (length (trace ?w1)) (length (to_le 8 0)) = p" using assms(3) by simp
  ultimately show ?thesis
    using assms(2) fork wait
    by (simp add: execute_def parent_def with_data_def Let_def try_then_def andthen_def read_buffer_def
        ret_def makes_def logged_def del: to_le.simps)
qed

theorem parent_returns_exit_code_witness:
  "\<exists>w'. execute ref_platform (Command (str ''p'') [] Default Default) (ref_world []) = Some (Value (Inr 42), w')"
proof -
  have f: "ecall ref_platform SYSCALL_FORK [0, 0, 0, 0, 0, 0] (mem (ref_world [])) (kern (ref_world []))
      = Resume 7 0 (\<lambda>_. 0) (ref_state [])" by (simp add: ref_ecall_def syscall_num_defs)
  have u: "unat (42 :: u64) = 42" by simp
  have w: "ecall ref_platform SYSCALL_WAITPID [7, 0x10000, 0, 0, 0, 0] (store_bytes (\<lambda>_. 0) 0x10000 (to_le 8 0)) (ref_state [])
      = Resume 7 0 (store_bytes (store_bytes (\<lambda>_. 0) 0x10000 (to_le 8 0)) 0x10000 (to_le 8 (unat (42 :: u64))))
          ((ref_state [])\<lparr>con_out := [], pending := []\<rparr>)"
    unfolding u by (simp add: ref_ecall_def syscall_num_defs del: to_le.simps)
  have p: "0x10000 = place ref_platform (Suc (length (trace (ref_world [])))) 8" by simp
  from parent_returns_exit_code [OF f _ p w] show ?thesis by auto
qed



text \<open>
  C32. A child whose \<open>exec\<close> fails does not end: the error is reported and the forked process goes back
  to the prompt, a second shell in the main loop of the first one, reading the same input.
\<close>

theorem failed_exec_child_continues:
  assumes "print_header P w = Some (Value (), w1)" and "get_line P w1 = Some (Value (Inr line), w2)"
    and "\<forall>b\<in>{''cd '', ''help'', ''exit'', ''shutdown'', ''reboot''}. \<not> starts_with (str b) line"
    and "parse P line = Inr (Inr (Command path argv Default Default))"
    and "fork P w2 = Some (Value (Inr 0), w3)" and "exec P path argv w3 = Some (Value (Inl e), w4)"
    and "report_error P (Inl e) w4 = Some (Value (), w5)"
  shows "shell_loop P w = shell_loop P w5"
proof -
  have "execute P (Command path argv Default Default) w2 = Some (Value (Inl e), w4)"
    using assms(5,6) by (simp add: execute_def child_def try_then_def andthen_def ret_def)
  with assms(3,4) have "serve_command P line w2 = Some (Value (Inl e), w4)"
    by (simp add: serve_command_def serve_exec_def lift_checked_def map_err_def try_then_def andthen_def ret_def
        del: str_simps)
  with assms(1,2,7) show ?thesis by (subst shell_loop.simps) (simp add: andthen_def)
qed

definition child_world :: "machine_state world" where
  "child_world = (ref_world [])\<lparr>kern := (ref_state (chars ''p x'' @ [10]))\<lparr>fork_answer := 0\<rparr>\<rparr>"

lemma child_world_prompt:
  obtains w1 w2 where "print_header ref_platform child_world = Some (Value (), w1)"
    and "get_line ref_platform w1 = Some (Value (Inr (str ''p x'')), w2)"
    and "on_console ref_platform (answers (\<lambda>f h d j ts. f = 0 \<and> \<not> h \<and> d = [47] \<and> ts = [])) con_in con_out w2"
    and "live w2 = []" and "heap w2 = Some (0x80000, HEAP_SIZE)"
proof -
  let ?ready = "answers (\<lambda>f h d j ts. f = 0 \<and> \<not> h \<and> d = [47] \<and> ts = [])"
  have k: "prompt_kernel ref_platform ?ready ?ready con_in con_out [47] None"
    by (rule ref_prompt_answers) (simp_all add: good_dir_root del: str_simps split del: option.split)
  have "?ready (kern child_world)" by (simp add: answers_def child_world_def)
  moreover have "heap_place ref_platform (heap child_world) (live child_world) 16 \<noteq> None"
    using ref_heap [of "[]"] by (simp add: child_world_def)
  ultimately obtain w1 where w1: "print_header ref_platform child_world = Some (Value (), w1)"
    "on_console ref_platform ?ready con_in con_out w1" "prints con_in con_out (as_bytes (prompt_text ref_platform [47] None)) child_world w1"
    using print_header_prompt [OF k] by blast
  have i: "con_in (kern w1) = as_bytes (str ''p x'' @ [10]) @ []"
    using w1(3) by (simp add: talks_def child_world_def chars_def utf8_encode_ascii)
  have t: "line_text (str ''p x'')" "foldl key [] (str ''p x'') = str ''p x''"
    by (simp_all add: line_text_def is_scalar_def key_def)
  from get_line_text [OF w1(2) i t(1), unfolded t(2)] obtain w2 where
    "get_line ref_platform w1 = Some (Value (Inr (str ''p x'')), w2)"
    "on_console ref_platform ?ready con_in con_out w2" "live w2 = live w1" "heap w2 = heap w1"
    unfolding talks_def by blast
  with w1 that show thesis by (simp add: talks_def child_world_def del: str_simps)
qed

theorem failed_exec_child_continues_witness:
  "\<exists>w'. shell_loop ref_platform child_world = shell_loop ref_platform w' \<and> live w' = []"
proof -
  obtain w1 w2 where w: "print_header ref_platform child_world = Some (Value (), w1)"
    "get_line ref_platform w1 = Some (Value (Inr (str ''p x'')), w2)"
    "on_console ref_platform (answers (\<lambda>f h d j ts. f = 0 \<and> \<not> h \<and> d = [47] \<and> ts = [])) con_in con_out w2"
    "live w2 = []" "heap w2 = Some (0x80000, HEAP_SIZE)" by (rule child_world_prompt)
  have p: "parse ref_platform (str ''p x'') = Inr (Inr (Command (str ''p'') [str ''x''] Default Default))"
    by (simp add: parse_no_pipe redirections_none build_command_def tokens_def io_of_def trim_def is_whitespace_def)
  have b: "\<forall>b\<in>{''cd '', ''help'', ''exit'', ''shutdown'', ''reboot''}. \<not> starts_with (str b) (str ''p x'')"
    by (simp add: starts_with_def)
  let ?w3 = "w2\<lparr>trace := trace w2 @ [logged SYSCALL_FORK [0, 0, 0, 0, 0, 0] w2]\<rparr>"
  have k: "fork_answer (kern w2) = 0" "\<not> has_program (kern w2)"
    using w(3) by (simp_all add: on_console_def answers_def)
  then have f: "fork ref_platform w2 = Some (Value (Inr 0), ?w3)"
    by (simp add: fork_def do_syscall_def ref_ecall_def syscall_num_defs ret_def Let_def logged_def)
  from ref_exec [of ?w3] w(4,5) k obtain w4 where
    e: "exec ref_platform (str ''p'') [str ''x''] ?w3 = Some (Value (Inl ENOENT), w4)" "live w4 = []"
    using held_exec [of ref_platform "str ''p''" "[str ''x'']"] unfolding keeps_def by fastforce
  obtain w5 where r: "report_error ref_platform (Inl ENOENT) w4 = Some (Value (), w5)" "live w5 = []"
  proof -
    have "\<forall>s\<in>set (fmt_pieces ([Lit (str ''Command failed with ''), Arg (errornum_debug ENOENT), Lit (str ''.'')] @ [Lit [13, 10]])).
        str_len s < 2 ^ 64" by (simp add: errornum_debug_def str_len_def utf8_encode_ascii)
    from print_console [OF ref_on_console this, of w4] that e(2) show thesis
      by (auto simp: report_error_def println_macro_def talks_def simp del: str_simps)
  qed
  from failed_exec_child_continues [OF w(1,2) b p f e(1) r(1)] r(2) show ?thesis by blast
qed

text \<open>An output of kind \<open>Cmd\<close> is ignored: the child goes straight to \<open>exec\<close>.\<close>

lemma piped_output_ignored:
  "child P (Command path argv Default (Cmd c)) = child P (Command path argv Default Default)"
  by (simp add: child_def)

section \<open>Command lines\<close>

text \<open>
  C27. \<open>cd\<close> hands the kernel the rest of the line without surrounding whitespace, as a C string, with
  its length, and makes no other call.
\<close>

theorem cd_changes_directory:
  assumes "allocator_sound P" and "serve_command P (str ''cd '' @ arg) w = Some (oc, w')" and "trace w' \<noteq> trace w"
  shows "\<exists>p m. trace w' = trace w @ [\<lparr>ev_number = SYSCALL_CHDIR,
      ev_args = [p, of_nat (str_len (trim arg)), 0, 0, 0, 0], ev_mem = m\<rparr>] \<and>
    cstr_at m p (takeWhile (\<lambda>b. b \<noteq> 0) (as_bytes (trim arg)))"
proof -
  have strip: "strip_prefix (str ''cd '') (str ''cd '' @ arg) = Some arg"
    and is_cd: "starts_with (str ''cd '') (str ''cd '' @ arg)" by (rule starts_with_append)+
  have "serve_command P (str ''cd '' @ arg) w = try_then (chdir P (trim arg)) (\<lambda>_. ret (Inr ())) w"
    unfolding serve_command_def serve_cd_def strip if_P [OF is_cd]
    by (simp add: andthen_def unwrap_option_def ret_def)
  from trans [OF this [symmetric] assms(2)] obtain oc' v where
    "chdir P (trim arg) w = Some (oc', v)" and t: "trace v = trace w'"
    by (auto simp: try_then_Some_iff ret_def)
  then have run: "with_vec P (as_bytes (trim arg) @ [0]) (\<lambda>arr. andthen (do_syscall P
      [arr, of_nat (length (as_bytes (trim arg))), 0, 0, 0, 0] SYSCALL_CHDIR) ret) w = Some (oc', v)"
    by (simp add: chdir_def)
  from t assms(3) have ne: "trace v \<noteq> trace w" by simp
  show ?thesis
    by (rule path_call_logged [OF assms(1) owned_Nil run _ ne]) (auto simp: ret_def str_len_def t)
qed

lemma ref_cd: "\<exists>w'. serve_command ref_platform (str ''cd '' @ str '' a'') (ref_world []) = Some (Value (Inr ()), w')
    \<and> trace w' \<noteq> []"
  by (simp add: serve_command_def serve_cd_def starts_with_def strip_prefix_def trim_def is_whitespace_def
      chdir_def with_vec_def with_block_def bump_place_def bump_end_def HEAP_SIZE_def utf8_encode_ascii store_bytes_def
      do_syscall_def ref_ecall_def syscall_num_defs try_then_def andthen_def unwrap_option_def ret_def Let_def)

theorem cd_changes_directory_witness:
  "\<exists>w' p m. serve_command ref_platform (str ''cd '' @ str '' a'') (ref_world []) = Some (Value (Inr ()), w') \<and>
     trace w' = [\<lparr>ev_number = SYSCALL_CHDIR, ev_args = [p, 1, 0, 0, 0, 0], ev_mem = m\<rparr>] \<and>
     cstr_at m p (chars ''a'')"
proof -
  from ref_cd obtain w' where w': "serve_command ref_platform (str ''cd '' @ str '' a'') (ref_world [])
      = Some (Value (Inr ()), w')" "trace w' \<noteq> trace (ref_world [])" by auto
  have t: "trim (str '' a'') = str ''a''" by (simp add: trim_def is_whitespace_def)
  have n: "str_len (str ''a'') = 1" "takeWhile (\<lambda>b. b \<noteq> 0) (as_bytes (str ''a'')) = chars ''a''"
    by (simp_all add: str_len_def chars_def utf8_encode_ascii)
  from cd_changes_directory [OF ref_allocator w', unfolded t n] w'(1) show ?thesis
    by (auto simp del: str_simps)
qed






text \<open>
  Every line that begins with "exit", whatever follows, leaves the shell: it says "Bye." and ends the
  process with code 0; the rest of the input stays unread.
\<close>

lemma exit_prefix_leaves:
  fixes P :: "'k platform"
  assumes "on_console P ready inp out w" and "\<And>m k. ecall P SYSCALL_EXIT [0, 0, 0, 0, 0, 0] m k = Vanish k"
  shows "\<exists>w' es m. serve_command P (str ''exit'' @ rest) w = Some (Gone, w') \<and>
    out (kern w') = out (kern w) @ as_bytes (str ''Bye.'' @ [13, 10]) \<and> inp (kern w') = inp (kern w) \<and>
    trace w' = es @ [\<lparr>ev_number = SYSCALL_EXIT, ev_args = [0, 0, 0, 0, 0, 0], ev_mem = m\<rparr>]"
proof -
  have "\<not> starts_with (str ''cd '') (str ''exit'' @ rest)" "\<not> starts_with (str ''help'') (str ''exit'' @ rest)"
    "starts_with (str ''exit'') (str ''exit'' @ rest)" by (simp_all add: starts_with_def)
  then have c: "serve_command P (str ''exit'' @ rest) w = serve_exit P (str ''exit'' @ rest) w"
    by (simp add: serve_command_def del: str_simps)
  have short: "length (str ''Bye.'') < 2 ^ 59" by simp
  from println_console [OF assms(1) short] obtain u where
    u: "println_macro P [Lit (str ''Bye.'')] w = Some (Value (), u)" "prints inp out (as_bytes (crlf (str ''Bye.''))) w u"
    by blast
  let ?v = "u\<lparr>kern := kern u, trace := trace u @ [logged SYSCALL_EXIT [0, 0, 0, 0, 0, 0] u]\<rparr>"
  have run: "serve_command P (str ''exit'' @ rest) w = Some (Gone, ?v)"
    unfolding c serve_exit_def using u(1) exit_vanish [of P 0 u, OF assms(2)]
    by (simp add: andthen_def del: str_simps)
  show ?thesis
    by (rule exI [of _ ?v]) (use run u(2) in \<open>simp add: talks_def crlf_def logged_def\<close>)
qed

section \<open>Sessions\<close>




section \<open>Panics\<close>

text \<open>
  C30. The panic handler prints program, place and message of the panic and leaves the program with -1.
\<close>

theorem panic_handler_exits:
  fixes P :: "'k platform"
  assumes "on_console P ready inp out w" and "\<forall>s\<in>set (report_pieces P ''Shell'' i). str_len s < 2 ^ 64"
    and "\<And>m k. ecall P SYSCALL_EXIT [- 1, 0, 0, 0, 0, 0] m k = Vanish k"
  shows "\<exists>w'. panic_handler P i w = Some (Gone :: 'r outcome, w') \<and>
    out (kern w') = out (kern w) @ as_bytes (panic_text P ''Shell'' i)"
  unfolding panic_handler_def using panic_exit_console [OF assms] by (auto simp: talks_def)

theorem panic_handler_exits_witness:
  "\<exists>w'. panic_handler ref_platform (shell_panic 158 [str ''boom'']) (ref_world []) = Some (Gone :: unit outcome, w') \<and>
     con_out (kern w') = chars ''Shell panicked at parch_utils/shell/src/main.rs:158, boom'' @ [13, 10]"
proof -
  have d: "dec_digits 158 = str ''158''" by (simp add: dec_digits.simps)
  have s: "\<forall>s\<in>set (report_pieces ref_platform ''Shell'' (shell_panic 158 [str ''boom''])). str_len s < 2 ^ 64"
    by (simp add: report_pieces_def shell_panic_def d str_len_def utf8_encode_ascii)
  have "\<And>m k. ecall ref_platform SYSCALL_EXIT [- 1, 0, 0, 0, 0, 0] m k = Vanish k"
    by (simp add: ref_ecall_def syscall_num_defs)
  from panic_handler_exits [OF ref_on_console s this, of "ref_world []"] show ?thesis
    by (simp add: panic_text_def shell_panic_def d chars_def utf8_encode_ascii)
qed

text \<open>
  C33. When writes to descriptor 1 fail, for instance after the shell closed it for a redirection, the
  handler never ends: its own print panics and enters it again.
\<close>

theorem panic_handler_diverges:
  assumes "deaf P"
  shows "panic_handler P i w = None"
  unfolding panic_handler_def
proof (rule handle_panic_diverges, intro allI)
  fix j v
  have "report_pieces P ''Shell'' j \<noteq> []"
    unfolding report_pieces_def by (rule fmt_pieces_Lit_nonempty) simp
  from deaf_print [OF assms this] show "\<exists>k v'. panic_report P ''Shell'' j v = Some (Panicked k, v')"
    unfolding panic_report_pieces .
qed

theorem panic_handler_diverges_witness:
  "panic_handler deaf_platform (shell_panic 158 []) (ref_world []) = (None :: (unit outcome \<times> _) option)"
  by (rule panic_handler_diverges [OF deaf_deaf])

end
