(* ===== verification/Utils_Props.thy ===== *)
theory Utils_Props
  imports Reference_Kernel
begin

text \<open>
  The properties of \<open>cat\<close> and \<open>mkdir\<close>, with their witnesses on the reference kernel.
\<close>

section \<open>cat\<close>


lemma read_arg_slice:
  "i < length argv \<Longrightarrow> slice_bytes (mem w) (argv ! i) = bytes \<Longrightarrow> read_arg f l argv i w = Some (Value bytes, w)"
  by (simp add: read_arg_def read_buffer_def slice_bytes_def)





text \<open>An error of \<open>rust_main\<close> is reported on the console, and the code is -1.\<close>

lemma cat_main_fails:
  assumes "rust_main P argc argv v = Some (Value (Inl msg), w1)" and "length msg < 2 ^ 59"
    and on: "on_console P ready inp out w1"
  shows "\<exists>w2 es. cat_main P argc argv v = Some (Value (- 1), w2) \<and> trace w2 = trace w1 @ es \<and> only_write_calls es \<and>
    out (kern w2) = out (kern w1) @ as_bytes (str ''Cat failed, '' @ msg @ [13, 10])"
proof -
  let ?fmt = "[Lit (str ''Cat failed, ''), Arg [msg]]"
  have "\<forall>t\<in>set (fmt_pieces (?fmt @ [Lit [13, 10]])). length t < 2 ^ 59" using assms(2) by (simp add: str_def)
  from println_pieces_console [OF on this] obtain w2 where
    w2: "println_macro P ?fmt w1 = Some (Value (), w2)"
      "prints inp out (as_bytes (crlf (concat (map part_text ?fmt)))) w1 w2" by blast
  obtain es where es: "trace w2 = trace w1 @ es" "only_write_calls es"
    by (rule print_only_writes [OF w2(1) [unfolded println_macro_def]])
  have "cat_main P argc argv v = Some (Value (- 1), w2)"
    using assms(1) w2(1) by (simp add: cat_main_def andthen_def ret_def del: str_simps)
  then show ?thesis
    by (intro exI [of _ w2] exI [of _ es]) (use w2(2) es in \<open>simp add: talks_def crlf_def del: str_simps\<close>)
qed

lemma rust_main_opens:
  assumes "1 < length argv" "slice_bytes (mem v) (argv ! 1) = as_bytes path" "valid_str path"
  shows "rust_main P 2 argv v
    = try_then (map_err (\<lambda>code. concat (str ''Failed to open file, syscall return '' # errornum_debug code))
        (open_file P path om_READ)) (\<lambda>fd.
      try_then (read_all (read_chunk P fd) []) (\<lambda>res.
      andthen (println_macro P [Arg [from_utf8_lossy res], Lit (10 # str ''========== EOF =========='')]) (\<lambda>_.
      ret (Inr ())))) v"
proof -
  have "read_arg cat_rs 27 argv 1 v = Some (Value (as_bytes path), v)" by (rule read_arg_slice [OF assms(1,2)])
  then show ?thesis
    by (simp add: rust_main_def from_utf8_as_bytes [OF assms(3)] andthen_def [of "read_arg _ _ _ _"]
        try_then_def [of "ret _"] ret_def [of "Inr path"] andthen_def [of "\<lambda>w. Some (Value (Inr path), w)"] del: str_simps)
qed

lemma cat_main_refused:
  assumes "open_file P path om_READ v = Some (Value (Inl e), w1)"
    and "1 < length argv" "slice_bytes (mem v) (argv ! 1) = as_bytes path" "valid_str path"
    and on: "on_console P ready inp out w1"
  shows "\<exists>w2 es. cat_main P 2 argv v = Some (Value (- 1), w2) \<and> trace w2 = trace w1 @ es \<and> only_write_calls es \<and>
    out (kern w2) = out (kern w1) @ as_bytes (str ''Cat failed, '' @ str ''Failed to open file, syscall return '' @ str (errornum_name e) @ [13, 10])"
proof -
  have "rust_main P 2 argv v
      = Some (Value (Inl (str ''Failed to open file, syscall return '' @ str (errornum_name e))), w1)"
    unfolding rust_main_opens [OF assms(2-4)] using assms(1)
    by (simp add: try_then_def map_err_def andthen_def ret_def errornum_debug_def del: str_simps)
  from cat_main_fails [OF this _ on] errornum_name_short [of e] show ?thesis by (simp add: str_def)
qed

text \<open>
  C23. \<open>cat\<close> on a path the kernel does not open: it prints the error by name, with no file text and no end mark,
  and leaves with -1; the path it asked for was its argument.
\<close>

theorem cat_reports_open_failure:
  fixes P :: "'k platform"
  assumes "argv_at ((mem w)(place P (length (trace w)) 1 := 0)) ap [name, as_bytes path]" and "valid_str path"
    and "answers_open P before ready out path (Inl e)" and "before (kern w)" and "console P ready inp out"
    and "allocator_sound P"
    and "heap_place P (Some (heap_space P, HEAP_SIZE)) (live w) (Suc (str_len path)) \<noteq> None"
    and "\<And>m k. ecall P SYSCALL_EXIT [- 1, 0, 0, 0, 0, 0] m k = Vanish k"
  shows "\<exists>w' a es x. cat_program P 2 ap w = Some (Gone :: 'r outcome, w') \<and>
    out (kern w') = out (kern w)
      @ as_bytes (str ''Cat failed, '' @ str ''Failed to open file, syscall return '' @ str (errornum_name e) @ [13, 10]) \<and>
    trace w' = trace w @ a # es @ [x] \<and> only_write_calls es \<and> path_call SYSCALL_OPEN path [om_READ, 0, 0, 0, 0] a \<and>
    plain_call SYSCALL_EXIT [- 1, 0, 0, 0, 0, 0] x"
proof -
  let ?z = "place P (length (trace w)) 1"
  let ?v = "w\<lparr>mem := (mem w)(?z := 0), heap := Some (heap_space P, HEAP_SIZE)\<rparr>"
  obtain argv p where arg: "1 < length argv" "slice_bytes (mem ?v) (argv ! 1) = as_bytes path"
    and s: "(start P (cat_main P) 2 ap w :: ('r outcome \<times> _) option) = andthen (cat_main P 2 argv) (exit P) ?v"
    by (rule start_argument [OF assms(1)])
  have nul: "0 \<notin> set (as_bytes path)" by (rule argument_no_nul [OF assms(1)])
  from open_answered [OF assms(3,6), of ?v] assms(4,7) nul obtain w1 p m where
    w1: "open_file P path om_READ ?v = Some (Value (Inl e), w1)" "ready (kern w1)" "out (kern w1) = out (kern w)"
    and a: "trace w1 = trace w @ [\<lparr>ev_number = SYSCALL_OPEN, ev_args = [p, om_READ, 0, 0, 0, 0], ev_mem = m\<rparr>]"
      "cstr_at m p (as_bytes path)" by auto
  have "on_console P ready inp out w1" using w1(2) assms(5) by (simp add: on_console_def)
  from cat_main_refused [OF w1(1) arg assms(2) this] obtain w2 es where
    w2: "cat_main P 2 argv ?v = Some (Value (- 1), w2)" "trace w2 = trace w1 @ es" "out (kern w2) = out (kern w1)
      @ as_bytes (str ''Cat failed, '' @ str ''Failed to open file, syscall return '' @ str (errornum_name e) @ [13, 10])"
      and only: "only_write_calls es" by blast
  from program_leaves [where h = "cat_panic_handler P", OF s w2(1) assms(8)] obtain w3 x where
    w3: "cat_program P 2 ap w = Some (Gone :: 'r outcome, w3)" "kern w3 = kern w2" "trace w3 = trace w2 @ [x]"
      "plain_call SYSCALL_EXIT [- 1, 0, 0, 0, 0, 0] x" unfolding cat_program_def by blast
  let ?a = "\<lparr>ev_number = SYSCALL_OPEN, ev_args = [p, om_READ, 0, 0, 0, 0], ev_mem = m\<rparr>"
  have "path_call SYSCALL_OPEN path [om_READ, 0, 0, 0, 0] ?a" using a(2) nul by (simp add: path_call_def takeWhile_no_nul)
  note call = this
  show ?thesis
    by (rule exI [of _ w3], rule exI [of _ ?a], rule exI [of _ es], rule exI [of _ x])
      (use call only w1(3) w2(2,3) a(1) w3 in \<open>simp del: str_simps\<close>)
qed

lemma ref_refuses:
  "answers_open ref_platform (\<lambda>k. file_rest k = [] \<and> stdin_open k) (\<lambda>_. True) con_out (str ''cat'') (Inl ENOENT)"
  unfolding answers_open_def
proof (intro allI impI)
  fix k :: machine_state and m p
  assume h: "(file_rest k = [] \<and> stdin_open k) \<and> cstr_at m p (as_bytes (str ''cat''))"
  then have "m p = 99" by (auto simp: utf8_encode_ascii dest: cstr_at_first)
  with h show "\<exists>k'. ecall ref_platform SYSCALL_OPEN [p, om_READ, 0, 0, 0, 0] m k = kernel_answer (Inl ENOENT) m k' \<and>
      True \<and> con_out k' = con_out k"
    by (simp add: kernel_answer_def ref_ecall_def syscall_num_defs fail_with_def)
qed

theorem cat_reports_open_failure_witness:
  "\<exists>w'. cat_program ref_platform 2 0x1000 ((arg_world 2)\<lparr>kern := (ref_state [])\<lparr>file_rest := []\<rparr>\<rparr>)
     = Some (Gone :: unit outcome, w') \<and>
     con_out (kern w') = chars ''Cat failed, Failed to open file, syscall return ENOENT'' @ [13, 10]"
proof -
  let ?w = "(arg_world 2)\<lparr>kern := (ref_state [])\<lparr>file_rest := []\<rparr>\<rparr>"
  have a: "argv_at ((mem ?w)(place ref_platform (length (trace ?w)) 1 := 0)) 0x1000 [chars ''cat'', as_bytes (str ''cat'')]"
    using argv_two_cats by simp
  have h: "heap_place ref_platform (Some (heap_space ref_platform, HEAP_SIZE)) (live ?w) (Suc (str_len (str ''cat''))) \<noteq> None"
    using room_for_cat by simp
  have v: "valid_str (str ''cat'')" by (simp add: is_scalar_def)
  have b: "file_rest (kern ?w) = [] \<and> stdin_open (kern ?w)" "con_out (kern ?w) = []" by simp_all
  have e: "\<And>m k. ecall ref_platform SYSCALL_EXIT [- 1, 0, 0, 0, 0, 0] m k = Vanish k"
    by (simp add: ref_ecall_def syscall_num_defs)
  from cat_reports_open_failure [OF a v ref_refuses b(1) ref_console ref_allocator h e] obtain w' where
    "cat_program ref_platform 2 0x1000 ?w = Some (Gone :: unit outcome, w')"
    "con_out (kern w') = con_out (kern ?w)
      @ as_bytes (str ''Cat failed, '' @ str ''Failed to open file, syscall return '' @ str (errornum_name ENOENT) @ [13, 10])"
    by (elim exE conjE) (rule that)
  then show ?thesis unfolding b(2) by (simp add: chars_def utf8_encode_ascii)
qed









section \<open>mkdir\<close>

text \<open>
  A kernel that is asked for a directory with the permissions 0644: its answer \<open>r\<close>, a success or an error.
\<close>

definition answers_mkdir ::
    "'k platform \<Rightarrow> ('k \<Rightarrow> bool) \<Rightarrow> ('k \<Rightarrow> bool) \<Rightarrow> ('k \<Rightarrow> u8 list) \<Rightarrow> rstr \<Rightarrow> errornum + u64 \<Rightarrow> bool" where
  "answers_mkdir P before after out path r \<longleftrightarrow>
     (\<forall>k m p. before k \<and> cstr_at m p (as_bytes path) \<longrightarrow>
        (\<exists>k'. ecall P SYSCALL_MKDIR [p, 0x1A4, 0, 0, 0, 0] m k = kernel_answer r m k' \<and> after k' \<and> out k' = out k))"

definition mkdir_refused :: "errornum \<Rightarrow> panic_info" where
  "mkdir_refused e = \<lparr>pi_message = [str ''called `Result::unwrap()` on an `Err` value'', str '': '', str (errornum_name e)],
     pi_file = mkdir_rs, pi_line = 28\<rparr>"

lemma mkdir_asks:
  assumes "answers_mkdir P before after out path r" and "allocator_sound P" and "flags_union P" and "before (kern w)"
    and "heap_place P (heap w) (live w) (Suc (str_len path)) \<noteq> None" and "0 \<notin> set (as_bytes path)"
  shows "\<exists>w' e. mkdir P path (permission_default P) w = Some (Value r, w') \<and> after (kern w') \<and>
    out (kern w') = out (kern w) \<and> trace w' = trace w @ [e] \<and> path_call SYSCALL_MKDIR path [0x1A4, 0, 0, 0, 0] e"
proof -
  have perm: "(ucast (permission_default P) :: u64) = 0x1A4"
    using assms(3) by (simp add: permission_default_def flags_union_def permission_defs)
  let ?Q = "\<lambda>r' k'. r' = r \<and> after k' \<and> out k' = out (kern w)"
  have ask: "\<exists>r' k'. ecall P SYSCALL_MKDIR [p, 0x1A4, 0, 0, 0, 0] m (kern w) = kernel_answer r' m k' \<and> ?Q r' k'"
    if "cstr_at m p (takeWhile (\<lambda>b. b \<noteq> 0) (as_bytes path))" for p m
    using assms(1,4) that unfolding answers_mkdir_def takeWhile_no_nul [OF assms(6)] by blast
  obtain r' w' p m where
    run: "with_vec P (as_bytes path @ [0]) (\<lambda>arr. do_syscall P [arr, 0x1A4, 0, 0, 0, 0] SYSCALL_MKDIR) w = Some (Value r', w')"
    and q: "?Q r' (kern w')"
    and t: "trace w' = trace w @ [\<lparr>ev_number = SYSCALL_MKDIR, ev_args = [p, 0x1A4, 0, 0, 0, 0], ev_mem = m\<rparr>]"
      "cstr_at m p (takeWhile (\<lambda>b. b \<noteq> 0) (as_bytes path))"
    by (rule path_call_runs [where Q = ?Q and n = SYSCALL_MKDIR and args = "\<lambda>p. [p, 0x1A4, 0, 0, 0, 0]",
        OF assms(2,5) ask])
  let ?e = "\<lparr>ev_number = SYSCALL_MKDIR, ev_args = [p, 0x1A4, 0, 0, 0, 0], ev_mem = m\<rparr>"
  have e: "path_call SYSCALL_MKDIR path [0x1A4, 0, 0, 0, 0] ?e" using t(2) by (simp add: path_call_def)
  show ?thesis
    by (rule exI [of _ w'], rule exI [of _ ?e]) (use run q t(1) e in \<open>simp add: mkdir_def perm\<close>)
qed

lemma mkdir_main_runs:
  assumes "mkdir P path (permission_default P) w = Some (Value r, w')"
    and "1 < length argv" and "slice_bytes (mem w) (argv ! 1) = as_bytes path" and "valid_str path"
  shows "mkdir_main P 2 argv w
    = Some (case r of Inr _ \<Rightarrow> Value 0 | Inl e \<Rightarrow> Panicked (mkdir_refused e), w')"
proof -
  have "read_arg mkdir_rs 27 argv 1 w = Some (Value (as_bytes path), w)" by (rule read_arg_slice [OF assms(2,3)])
  then have "mkdir_main P 2 argv w = andthen (mkdir P path (permission_default P))
      (\<lambda>r. andthen (unwrap_result errornum_debug mkdir_rs 28 r) (\<lambda>_. ret 0)) w"
    by (simp add: mkdir_main_def andthen_def [of "read_arg _ _ _ _"] unwrap_result_def from_utf8_as_bytes [OF assms(4)])
  also have "\<dots> = andthen (unwrap_result errornum_debug mkdir_rs 28 r) (\<lambda>_. ret 0) w'"
    by (rule andthen_simps(1)) (rule assms(1))
  finally show ?thesis
    by (cases r) (simp_all add: andthen_def unwrap_result_def ret_def panic_at_def mkdir_refused_def errornum_debug_def
        del: str_simps)
qed

text \<open>
  C22. \<open>mkdir\<close> from its entry point to its exit: one system call with the path of its argument as a C string and
  the permission bits 0644, read and write for the owner and read for the others. If the kernel makes the
  directory the program leaves with code 0 and prints nothing; if it answers an error the program prints
  place and name of the error and leaves with -1.
\<close>

theorem mkdir_program_runs:
  fixes P :: "'k platform"
  assumes "argv_at ((mem w)(place P (length (trace w)) 1 := 0)) ap [name, as_bytes path]" and "valid_str path"
    and "answers_mkdir P before ready out path r" and "before (kern w)" and "console P ready inp out"
    and "allocator_sound P" and "flags_union P"
    and "heap_place P (Some (heap_space P, HEAP_SIZE)) (live w) (Suc (str_len path)) \<noteq> None"
    and "\<And>c m k. ecall P SYSCALL_EXIT [c, 0, 0, 0, 0, 0] m k = Vanish k"
    and "length (source_path P mkdir_rs) < 2 ^ 32"
  shows "\<exists>w' e es x. mkdir_program P 2 ap w = Some (Gone :: 'r outcome, w') \<and>
    trace w' = trace w @ e # es @ [x] \<and> only_write_calls es \<and> path_call SYSCALL_MKDIR path [0x1A4, 0, 0, 0, 0] e \<and>
    (case r of
       Inr _ \<Rightarrow> es = [] \<and> plain_call SYSCALL_EXIT [0, 0, 0, 0, 0, 0] x \<and> out (kern w') = out (kern w)
     | Inl err \<Rightarrow> plain_call SYSCALL_EXIT [- 1, 0, 0, 0, 0, 0] x \<and>
         out (kern w') = out (kern w) @ as_bytes (panic_text P ''Mkdir'' (mkdir_refused err)))"
proof -
  let ?z = "place P (length (trace w)) 1"
  let ?v = "w\<lparr>mem := (mem w)(?z := 0), heap := Some (heap_space P, HEAP_SIZE)\<rparr>"
  obtain argv p where arg: "1 < length argv" "slice_bytes (mem ?v) (argv ! 1) = as_bytes path"
    and s: "(start P (mkdir_main P) 2 ap w :: ('r outcome \<times> _) option) = andthen (mkdir_main P 2 argv) (exit P) ?v"
    by (rule start_argument [OF assms(1)])
  have nul: "0 \<notin> set (as_bytes path)" by (rule argument_no_nul [OF assms(1)])
  from mkdir_asks [OF assms(3,6,7), of ?v] assms(4,8) nul obtain w1 e where
    w1: "mkdir P path (permission_default P) ?v = Some (Value r, w1)" "ready (kern w1)" "out (kern w1) = out (kern w)"
      "trace w1 = trace w @ [e]" and e: "path_call SYSCALL_MKDIR path [0x1A4, 0, 0, 0, 0] e" by auto
  note main = mkdir_main_runs [OF w1(1) arg assms(2)]
  show ?thesis
  proof (cases r)
    case (Inr x)
    with main have "mkdir_main P 2 argv ?v = Some (Value 0, w1)" by simp
    from program_leaves [where h = "mkdir_panic_handler P", OF s this assms(9)] obtain w2 x where
      w2: "mkdir_program P 2 ap w = Some (Gone :: 'r outcome, w2)" "kern w2 = kern w1" "trace w2 = trace w1 @ [x]"
        "plain_call SYSCALL_EXIT [0, 0, 0, 0, 0, 0] x" unfolding mkdir_program_def by blast
    show ?thesis
      by (rule exI [of _ w2], rule exI [of _ e], rule exI [of _ "[]"], rule exI [of _ x]) (use w1 e Inr w2 in simp)
  next
    case (Inl err)
    have on: "on_console P ready inp out w1" using w1(2) assms(5) by (simp add: on_console_def)
    note errornum_name_short [of err]
    moreover have "dec_digits 28 = str ''28''" by (simp add: dec_digits.simps)
    ultimately have "\<forall>s\<in>set (report_pieces P ''Mkdir'' (mkdir_refused err)). str_len s < 2 ^ 64"
      using assms(10) by (intro small_report) (simp_all add: mkdir_refused_def str_def)
    from panic_exit_console [OF on this assms(9)] obtain w2 es x where
      w2: "mkdir_panic_handler P (mkdir_refused err) w1 = Some (Gone :: 'r outcome, w2)"
        "prints inp out (as_bytes (panic_text P ''Mkdir'' (mkdir_refused err))) w1 w2"
        "trace w2 = trace w1 @ es @ [x]" "plain_call SYSCALL_EXIT [- 1, 0, 0, 0, 0, 0] x" "only_write_calls es"
      unfolding mkdir_panic_handler_def by blast
    with s main Inl have "mkdir_program P 2 ap w = Some (Gone :: 'r outcome, w2)"
      by (simp add: mkdir_program_def catch_panic_def andthen_def)
    with w1 e w2 Inl show ?thesis
      by (intro exI [of _ w2] exI [of _ e] exI [of _ es] exI [of _ x]) (simp add: talks_def del: as_bytes_simps)
  qed
qed

lemma ref_answers_mkdir: "answers_mkdir ref_platform (\<lambda>_. True) (\<lambda>_. True) con_out path (Inr 0)"
  by (simp add: answers_mkdir_def kernel_answer_def ref_ecall_def syscall_num_defs)

theorem mkdir_program_runs_witness:
  "\<exists>w' e x. mkdir_program ref_platform 2 0x1000 (arg_world 2) = Some (Gone :: unit outcome, w') \<and>
     trace w' = [e, x] \<and> path_call SYSCALL_MKDIR (str ''cat'') [0x1A4, 0, 0, 0, 0] e"
proof -
  have a: "argv_at ((mem (arg_world 2))(place ref_platform (length (trace (arg_world 2))) 1 := 0)) 0x1000
      [chars ''cat'', as_bytes (str ''cat'')]" by (rule argv_two_cats)
  have h: "heap_place ref_platform (Some (heap_space ref_platform, HEAP_SIZE)) (live (arg_world 2)) (Suc (str_len (str ''cat''))) \<noteq> None"
    by (rule room_for_cat)
  have v: "valid_str (str ''cat'')" by (simp add: is_scalar_def)
  have e: "\<And>c m k. ecall ref_platform SYSCALL_EXIT [c, 0, 0, 0, 0, 0] m k = Vanish k"
    by (simp add: ref_ecall_def syscall_num_defs)
  have l: "length (source_path ref_platform mkdir_rs) < 2 ^ 32" by simp
  have t: "trace (arg_world 2) = []" by (simp add: arg_world_def)
  from mkdir_program_runs [OF a v ref_answers_mkdir TrueI ref_console ref_allocator ref_flags h e l] show ?thesis
    unfolding t by (simp del: str_simps) blast
qed

end
