(* ===== verification/Build_Script.thy ===== *)
theory Build_Script
  imports Syscall_Num
begin

text \<open>
  \<^verbatim>\<open>usrlib_rust/build.rs\<close>: the build script that writes \<^verbatim>\<open>syscall_num.rs\<close> from the records of
  \<^verbatim>\<open>syscall_num.csv\<close>. What the system and the crate \<open>csv\<close> answer is an argument: the errors of the two
  \<open>open\<close> calls, if any, and the results of the reader, one per record. Writing the file does not fail. The
  table itself is not in the repository; \<open>syscall_records\<close> is one from which the file in it is generated.
\<close>

definition to_ascii_uppercase :: "string \<Rightarrow> string" where
  "to_ascii_uppercase = map (\<lambda>c. let n = of_char c :: nat in if 97 \<le> n \<and> n \<le> 122 then char_of (n - 32) else c)"

definition pad_right :: "nat \<Rightarrow> string \<Rightarrow> string" where
  "pad_right n s = s @ replicate (n - length s) CHR '' ''"

definition pad_left :: "nat \<Rightarrow> string \<Rightarrow> string" where
  "pad_left n s = replicate (n - length s) CHR '' '' @ s"

definition newline :: string where
  "newline = [CHR 0x0A]"

definition syscall_line :: "string \<Rightarrow> string \<Rightarrow> string" where
  "syscall_line name num =
     ''pub const SYSCALL_'' @ pad_right 10 (to_ascii_uppercase name) @ '': usize = '' @ pad_left 3 num
       @ '';'' @ newline"

definition record_line :: "string \<Rightarrow> string \<Rightarrow> string" where
  "record_line name num = name @ '' => '' @ num @ newline"

text \<open>How a run ends: well, with the error a question mark returns, or with the panic of an \<open>unwrap\<close>.\<close>

datatype 'e build_end = Done | Io_Error 'e | Missing_Field

text \<open>The loop over the records: what goes to the standard output, what goes to the file, how it ends.\<close>

fun copy_records :: "('e + string list) list \<Rightarrow> string \<times> string \<times> 'e build_end" where
  "copy_records [] = ([], [], Done)"
| "copy_records (Inl e # results) = ([], [], Io_Error e)"
| "copy_records (Inr record # results) =
     (case record of
        name # num # _ \<Rightarrow>
          (let (shown, written, r) = copy_records results
           in (record_line name num @ shown, syscall_line name num @ written, r))
      | _ \<Rightarrow> ([], [], Missing_Field))"

text \<open>\<open>None\<close> for the file: it was not opened, and so is as it was before.\<close>

definition update_syscall_number ::
    "'e option \<Rightarrow> 'e option \<Rightarrow> ('e + string list) list \<Rightarrow> string \<times> string option \<times> 'e build_end" where
  "update_syscall_number open_fi open_fo results =
     (case open_fi of
        Some e \<Rightarrow> ([], None, Io_Error e)
      | None \<Rightarrow>
          (case open_fo of
             Some e \<Rightarrow> ([], None, Io_Error e)
           | None \<Rightarrow> (let (shown, written, r) = copy_records results in (shown, Some written, r))))"

text \<open>
  \<open>main\<close>: the last component tells whether it returns; if not, the \<open>unwrap\<close> of the result or of a missing
  field panics.
\<close>

definition build_main ::
    "'e option \<Rightarrow> 'e option \<Rightarrow> ('e + string list) list \<Rightarrow> string \<times> string option \<times> bool" where
  "build_main open_fi open_fo results =
     (case update_syscall_number open_fi open_fo results of (shown, file, r) \<Rightarrow>
        (''cargo:rerun-if-changed=./src/'' @ newline @ ''cargo:rerun-if-changed=../../syscall_num.csv'' @ newline @ shown,
         file, case r of Done \<Rightarrow> True | _ \<Rightarrow> False))"

section \<open>What the loop writes\<close>

definition good_record :: "'e + string list \<Rightarrow> bool" where
  "good_record result = (case result of Inr (name # num # _) \<Rightarrow> True | _ \<Rightarrow> False)"

definition line_of :: "'e + string list \<Rightarrow> string" where
  "line_of result = (case result of Inr (name # num # _) \<Rightarrow> syscall_line name num | _ \<Rightarrow> [])"

lemma copy_records_file:
  "fst (snd (copy_records results)) = concat (map line_of (takeWhile good_record results))"
  by (induction results rule: copy_records.induct)
    (auto simp: good_record_def line_of_def split: list.splits prod.splits)

lemma copy_records_done: "snd (snd (copy_records results)) = Done \<longleftrightarrow> list_all good_record results"
  by (induction results rule: copy_records.induct)
    (auto simp: good_record_def split: list.splits prod.splits)

lemma build_main_file:
  "\<exists>shown. build_main None None results
     = (shown, Some (concat (map line_of (takeWhile good_record results))), list_all good_record results)"
  using copy_records_file [of results] copy_records_done [of results]
  by (auto simp: build_main_def update_syscall_number_def split: prod.splits build_end.splits)

section \<open>The generated file\<close>

text \<open>The text of \<^verbatim>\<open>syscall_num.rs\<close> as it is in the repository.\<close>

definition syscall_num_rs :: string where
  "syscall_num_rs = concat (map (\<lambda>line. line @ newline)
    [''pub const SYSCALL_WRITE     : usize =   0;'',
     ''pub const SYSCALL_READ      : usize =   1;'',
     ''pub const SYSCALL_OPEN      : usize =   2;'',
     ''pub const SYSCALL_OPENAT    : usize =   3;'',
     ''pub const SYSCALL_CLOSE     : usize =   4;'',
     ''pub const SYSCALL_DUP       : usize =   5;'',
     ''pub const SYSCALL_FORK      : usize =   6;'',
     ''pub const SYSCALL_EXEC      : usize =   7;'',
     ''pub const SYSCALL_EXIT      : usize =   8;'',
     ''pub const SYSCALL_MMAP      : usize =   9;'',
     ''pub const SYSCALL_SIGNAL    : usize =  10;'',
     ''pub const SYSCALL_WAITPID   : usize =  11;'',
     ''pub const SYSCALL_SIGACTION : usize =  12;'',
     ''pub const SYSCALL_SIGRETURN : usize =  13;'',
     ''pub const SYSCALL_GETCWD    : usize =  14;'',
     ''pub const SYSCALL_CHDIR     : usize =  15;'',
     ''pub const SYSCALL_SBRK      : usize =  16;'',
     ''pub const SYSCALL_GETDENTS  : usize =  17;'',
     ''pub const SYSCALL_PIPE      : usize =  18;'',
     ''pub const SYSCALL_SYSSTAT   : usize =  19;'',
     ''pub const SYSCALL_MUNMAP    : usize =  20;'',
     ''pub const SYSCALL_MKDIR     : usize =  21;'',
     ''pub const SYSCALL_IOCTL     : usize =  22;'',
     ''pub const SYSCALL_DELETE    : usize =  23;'',
     ''pub const SYSCALL_SEEK      : usize =  24;'',
     ''pub const SYSCALL_TIME      : usize =  25;''])"

text \<open>Records it can be made from: the name of a call, its number in decimal.\<close>

definition syscall_records :: "(string \<times> string) list" where
  "syscall_records =
    [(''write'', ''0''),
     (''read'', ''1''),
     (''open'', ''2''),
     (''openat'', ''3''),
     (''close'', ''4''),
     (''dup'', ''5''),
     (''fork'', ''6''),
     (''exec'', ''7''),
     (''exit'', ''8''),
     (''mmap'', ''9''),
     (''signal'', ''10''),
     (''waitpid'', ''11''),
     (''sigaction'', ''12''),
     (''sigreturn'', ''13''),
     (''getcwd'', ''14''),
     (''chdir'', ''15''),
     (''sbrk'', ''16''),
     (''getdents'', ''17''),
     (''pipe'', ''18''),
     (''sysstat'', ''19''),
     (''munmap'', ''20''),
     (''mkdir'', ''21''),
     (''ioctl'', ''22''),
     (''delete'', ''23''),
     (''seek'', ''24''),
     (''time'', ''25'')]"

lemma records_make_file:
  "concat (map line_of (map (\<lambda>(name, num). Inr [name, num]) syscall_records)) = syscall_num_rs"
proof -
  have "concat (map (\<lambda>(name, num). syscall_line name num) syscall_records) = syscall_num_rs" by code_simp
  then show ?thesis by (simp add: line_of_def split_def comp_def)
qed

definition decimal :: "string \<Rightarrow> nat" where
  "decimal = foldl (\<lambda>n c. 10 * n + (of_char c - 48)) 0"

end
