(* ===== verification/Usrlib_Props.thy ===== *)
theory Usrlib_Props
  imports Reference_Kernel Build_Script
begin

text \<open>
  The properties of the user library: console input and output, the buffers handed to the kernel,
  process start, error numbers and system call numbers. Each witness applies its property on the
  reference kernel.
\<close>

section \<open>Facts used below\<close>


lemma no_overflow: "\<not> 4294967296 \<le> unat (push_bit 6 (buf :: u32)) + unat (ucast (b AND 0x3F :: u8) :: u32)"
  using accumulate(1) [of buf b] by simp

lemma decode_rest_panic:
  "decode_rest get n buf w = Some (Panicked i, w') \<Longrightarrow> \<exists>v. get v = Some (Panicked i, w')"
proof (induction n arbitrary: buf w)
  case 0
  then show ?case by (simp add: ret_def split: option.splits)
next
  case (Suc n)
  then show ?case
    by (auto simp: ret_def try_then_Some_iff Let_def no_overflow split: if_splits)
qed

section \<open>Console input\<close>

text \<open>
  C11. The bytes of any Unicode scalar value in UTF-8 come back from \<open>getchar_noecho\<close> as that
  character; exactly those bytes are consumed and nothing is printed.
\<close>

theorem getchar_utf8:
  assumes "on_console P ready inp out w" and "inp (kern w) = utf8_encode c @ rest" and "is_scalar c"
  shows "\<exists>w'. getchar_noecho P w = Some (Value (Inr c), w') \<and> inp (kern w') = rest \<and>
    out (kern w') = out (kern w)"
  using getchar_noecho_console [OF assms(1)] take_char_encode [OF assms(3), of rest]
  by (auto simp: assms(2) talks_def)

theorem getchar_utf8_witness:
  "\<exists>w'. getchar_noecho ref_platform (ref_world (utf8_encode 0x20AC @ [10])) = Some (Value (Inr 0x20AC), w') \<and>
    con_in (kern w') = [10] \<and> con_out (kern w') = con_out (kern (ref_world (utf8_encode 0x20AC @ [10])))"
  by (rule getchar_utf8 [OF ref_on_console]) (simp_all add: is_scalar_def)



text \<open>
  C35. The decoder itself never panics: neither its assertion on continuation bytes nor the checked
  addition of their bits can fail; a panic of \<open>getchar_noecho\<close> is one of the byte read below it.
\<close>

theorem getchar_no_own_panic:
  assumes "getchar_noecho P w = Some (Panicked i, w')"
  shows "\<exists>v. getbyte_noecho P v = Some (Panicked i, w')"
  using assms unfolding getchar_noecho_def decode_char_def
  by (auto simp: try_then_Some_iff ret_def split: if_splits option.splits dest: decode_rest_panic)

text \<open>A kernel whose read answers with an unknown error code makes the byte read panic.\<close>

definition broken_platform :: "machine_state platform" where
  "broken_platform = ref_platform\<lparr>ecall := \<lambda>n args m k. Resume 5 1 m k\<rparr>"

lemma unknown_code: "errornum_try_from (- 5) = Inl ENOSYS"
proof -
  have "- 5 \<noteq> errornum_code e" for e
  proof
    assume "- 5 = errornum_code e"
    with errornum_code_less [of e] have "(- 5 :: u64) < 0x8000000000000000" by simp
    then show False by simp
  qed
  then show ?thesis by (auto simp: errno.read_Inl_iff)
qed

theorem getchar_no_own_panic_witness:
  "\<exists>i w' v. getchar_noecho broken_platform (ref_world []) = Some (Panicked i, w') \<and>
     getbyte_noecho broken_platform v = Some (Panicked i, w')"
proof -
  have "\<exists>i w'. getbyte_noecho broken_platform (ref_world []) = Some (Panicked i, w')"
    by (simp add: getbyte_noecho_def with_data_def Let_def read_fd_def read_raw_def do_syscall_def
        broken_platform_def unknown_code unwrap_result_def panic_at_def try_then_def andthen_def)
  then obtain i w' where "getchar_noecho broken_platform (ref_world []) = Some (Panicked i, w')"
    by (auto simp: getchar_noecho_def decode_char_def rust_simps)
  with getchar_no_own_panic [OF this] show ?thesis by blast
qed

text \<open>
  An overlong two-byte form, which UTF-8 forbids, is accepted: after the lead bytes 0xC0 and
  0xC1 the decoder answers an ASCII character, while \<open>str::from_utf8\<close> rejects the same bytes.
\<close>

lemma getchar_overlong:
  assumes "on_console P ready inp out w"
    and "inp (kern w) = of_nat (0xC0 + k) # of_nat (0x80 + j) # rest" and "k < 2" and "j < 64"
  shows "(\<exists>w'. getchar_noecho P w = Some (Value (Inr (of_nat (k * 64 + j))), w') \<and> inp (kern w') = rest) \<and>
    (\<forall>s. from_utf8 [of_nat (0xC0 + k), of_nat (0x80 + j)] \<noteq> Inr s)"
proof
  have k: "k < 32" using assms(3) by simp
  have "unat (of_nat (k * 64 + j) :: u32) = k * 64 + j"
    by (rule unat_of_nat_u32) (use assms(3,4) in linarith)
  then have "is_scalar (of_nat (k * 64 + j))"
    unfolding is_scalar_unat using assms(3,4) by linarith
  with getchar_noecho_console [OF assms(1)] take_char_digits(2) [OF k assms(4), of rest]
  show "\<exists>w'. getchar_noecho P w = Some (Value (Inr (of_nat (k * 64 + j))), w') \<and> inp (kern w') = rest"
    unfolding assms(2) by (auto simp: talks_def simp del: take_char.simps of_nat_add of_nat_mult)
  have u: "unat (of_nat (0xC0 + k) :: u8) = 0xC0 + k"
    by (rule unat_of_nat_u8) (use assms(3) in linarith)
  have "utf8_next (of_nat (0xC0 + k)) [of_nat (0x80 + j)] = Inl (Some 1)"
    unfolding utf8_next_def Let_def u using assms(3) by simp
  then show "\<forall>s. from_utf8 [of_nat (0xC0 + k), of_nat (0x80 + j)] \<noteq> Inr s"
    by (simp add: from_utf8_def from_utf8_at.simps del: of_nat_add)
qed

text \<open>
  A byte that does not continue a sequence is swallowed with it: after a lead byte the next byte
  is consumed although it is no continuation byte, even when it is the line feed that ends a line.
\<close>

lemma getchar_swallows:
  assumes "on_console P ready inp out w" and "inp (kern w) = b # d # rest"
    and "0x80 \<le> b" and "b < 0xFE" and "\<not> is_cont d"
  shows "\<exists>w'. getchar_noecho P w = Some (Value (Inr replacement_char), w') \<and> inp (kern w') = rest"
proof -
  from assms(4) have "seq_length b \<noteq> None" by (simp add: seq_length_def)
  then obtain len where len: "seq_length b = Some len" by blast
  with seq_length_range obtain n where n: "len - 1 = Suc n" by (metis Suc_diff_Suc Suc_1 Suc_le_lessD)
  from assms(3) have "\<not> b < 0x80" by (simp add: not_less)
  with len n assms(5) have "take_char (b # d # rest) = Some (replacement_char, rest)" by simp
  with getchar_noecho_console [OF assms(1)] show ?thesis
    unfolding assms(2) by (auto simp: talks_def simp del: take_char.simps)
qed

section \<open>Lines and output\<close>

text \<open>
  C6. \<open>get_line\<close> on a typed line: it returns the characters with every delete applied to the one before
  it, consumes the line with its terminator and nothing more, echoes every key and rubs deleted
  characters out, and gives its buffers back.
\<close>

theorem get_line_edits:
  assumes "on_console P ready inp out w" and "inp (kern w) = as_bytes (s @ [nl]) @ rest"
    and "line_text s" and "nl = 13 \<or> nl = 10"
  shows "\<exists>w'. get_line P w = Some (Value (Inr (foldl key [] s)), w') \<and> inp (kern w') = rest \<and>
    out (kern w') = out (kern w) @ echo_keys [] s @ echo nl \<and> live w' = live w"
  using get_line_text [OF assms] by (auto simp: talks_def)

theorem get_line_edits_witness:
  "\<exists>w'. get_line ref_platform (ref_world (as_bytes (str ''lx'' @ [0x7F] @ str ''s'' @ [10]) @ [65]))
      = Some (Value (Inr (str ''ls'')), w') \<and> con_in (kern w') = [65]"
proof -
  let ?s = "str ''lx'' @ [0x7F] @ str ''s''"
  have "line_text ?s" "foldl key [] ?s = str ''ls''"
    by (simp_all add: line_text_def is_scalar_def key_def)
  then show ?thesis
    using get_line_edits [OF ref_on_console, of "ref_world (as_bytes (?s @ [10]) @ [65])" ?s 10 "[65]"]
    by auto
qed



text \<open>
  A last line without a terminator is lost: \<open>get_line\<close> consumes and echoes it and answers \<open>EEOF\<close>.
\<close>

lemma get_line_drops_partial:
  assumes "on_console P ready inp out w" and "inp (kern w) = as_bytes s" and "line_text s"
  shows "\<exists>w'. get_line P w = Some (Value (Inl EEOF), w') \<and> inp (kern w') = [] \<and>
    out (kern w') = out (kern w) @ echo_keys [] s"
  using get_line_unfinished [OF assms] by (auto simp: talks_def)

text \<open>
  C28. A formatted print writes the UTF-8 bytes of its pieces to the console, in order, and nothing
  else, and returns.
\<close>

theorem print_writes:
  assumes "on_console P ready inp out w" and "\<forall>s\<in>set (fmt_pieces fmt). str_len s < 2 ^ 64"
  shows "\<exists>w'. print_macro P fmt w = Some (Value (), w') \<and>
    out (kern w') = out (kern w) @ as_bytes (concat (map part_text fmt)) \<and> inp (kern w') = inp (kern w)"
  using print_console [OF assms] by (auto simp: print_macro_def talks_def)

theorem print_writes_witness:
  "\<exists>w'. print_macro ref_platform [Lit (str ''code ''), Arg (display_isize (- 1))] (ref_world []) = Some (Value (), w') \<and>
    con_out (kern w') = chars ''code -1''"
proof -
  have d: "display_isize (- 1) = [[45], [49]]"
    by (simp add: display_isize_def dec_digits.simps)
  have "\<forall>s\<in>set (fmt_pieces [Lit (str ''code ''), Arg (display_isize (- 1))]). str_len s < 2 ^ 64"
    by (simp add: d str_len_def utf8_encode_ascii)
  from print_writes [OF ref_on_console this, of "ref_world []"] show ?thesis
    by (auto simp: d chars_def)
qed

section \<open>What the kernel is handed\<close>

lemma path_event:
  assumes "allocator_sound P"
    and "with_vec P (as_bytes path @ [0]) (\<lambda>arr. andthen (do_syscall P (args arr) n) (\<lambda>x. ret (g x))) w = Some (oc, w')"
    and "trace w' \<noteq> trace w"
  shows "\<exists>p m. trace w' = trace w @ [\<lparr>ev_number = n, ev_args = args p, ev_mem = m\<rparr>] \<and>
    cstr_at m p (takeWhile (\<lambda>b. b \<noteq> 0) (as_bytes path)) \<and> p \<noteq> 0"
  by (rule path_call_logged [OF assms(1) owned_Nil assms(2) _ assms(3)]) (auto simp: ret_def)

text \<open>
  C21. \<open>open\<close> hands the kernel a non-null pointer to a C string in memory: the bytes of the path up to its
  first NUL, with the mode beside it, for every sound allocator; no other system call is made.
\<close>

theorem open_passes_path:
  assumes "allocator_sound P" and "open_file P path mode w = Some (oc, w')" and "trace w' \<noteq> trace w"
  shows "\<exists>p m. trace w' = trace w @ [\<lparr>ev_number = SYSCALL_OPEN, ev_args = [p, mode, 0, 0, 0, 0], ev_mem = m\<rparr>] \<and>
    cstr_at m p (takeWhile (\<lambda>b. b \<noteq> 0) (as_bytes path)) \<and> p \<noteq> 0"
proof -
  from assms(2) have "with_vec P (as_bytes path @ [0]) (\<lambda>arr.
      andthen (do_syscall P [arr, mode, 0, 0, 0, 0] SYSCALL_OPEN) (\<lambda>r. ret (map_sum id fd_from r))) w = Some (oc, w')"
    by (simp add: open_file_def map_ok_def)
  from path_event [OF assms(1) this assms(3)] show ?thesis .
qed

lemma ref_open: "\<exists>w'. open_file ref_platform (str ''a'') 1 (ref_world []) = Some (Value (Inr (FileDecstiptor 3)), w')
    \<and> trace w' \<noteq> []"
  by (simp add: open_file_def with_vec_def with_block_def bump_place_def bump_end_def HEAP_SIZE_def
      utf8_encode_ascii map_ok_def do_syscall_def ref_ecall_def syscall_num_defs store_bytes_def
      andthen_def ret_def Let_def fd_from_def)

theorem open_passes_path_witness:
  "\<exists>w' p m. open_file ref_platform (str ''a'') 1 (ref_world []) = Some (Value (Inr (FileDecstiptor 3)), w') \<and>
     trace w' = [\<lparr>ev_number = SYSCALL_OPEN, ev_args = [p, 1, 0, 0, 0, 0], ev_mem = m\<rparr>] \<and>
     cstr_at m p (chars ''a'')"
proof -
  from ref_open obtain w' where w': "open_file ref_platform (str ''a'') 1 (ref_world [])
      = Some (Value (Inr (FileDecstiptor 3)), w')" "trace w' \<noteq> trace (ref_world [])" by auto
  have "takeWhile (\<lambda>b. b \<noteq> 0) (as_bytes (str ''a'')) = chars ''a''" by (simp add: chars_def utf8_encode_ascii)
  with open_passes_path [OF ref_allocator w'] w'(1) show ?thesis by auto
qed

text \<open>
  C36. A path that does not fit the heap is never opened: the allocation error handler panics, no system
  call is made, the world is unchanged.
\<close>

theorem open_too_long_panics:
  assumes "allocator_sound P" and "heap w = Some (heap_space P, HEAP_SIZE)" and "HEAP_SIZE \<le> str_len path"
  shows "\<exists>msg. open_file P path mode w
    = Some (Panicked \<lparr>pi_message = str ''Heap allocation error on allocating layout '' # msg,
        pi_file = ''usrlib_rust/src/allocator.rs'', pi_line = 25\<rparr>, w)"
proof -
  have "heap_place P (heap w) (live w) (length (as_bytes path @ [0])) = None"
  proof (rule ccontr)
    assume "heap_place P (heap w) (live w) (length (as_bytes path @ [0])) \<noteq> None"
    then obtain p where "heap_place P (heap w) (live w) (length (as_bytes path @ [0])) = Some p" by blast
    with assms(1,2) have "unat (heap_space P) \<le> unat p"
      "unat p + length (as_bytes path @ [0]) \<le> unat (heap_space P) + HEAP_SIZE"
      unfolding allocator_sound_def by fastforce+
    with assms(3) show False by (simp add: str_len_def)
  qed
  then show ?thesis
    by (simp add: open_file_def with_vec_def with_block_def on_alloc_error_def panic_at_def)
qed

theorem open_too_long_panics_witness:
  "\<exists>i. open_file ref_platform (replicate HEAP_SIZE 97) 1 (ref_world []) = Some (Panicked i, ref_world []) \<and> pi_line i = 25"
proof -
  have "heap (ref_world []) = Some (heap_space ref_platform, HEAP_SIZE)" by simp
  moreover have "str_len (replicate n 97) = n" for n
    by (induction n) (simp_all add: len_utf8_def utf8_encode_ascii)
  ultimately show ?thesis
    using open_too_long_panics [OF ref_allocator, of "ref_world []" "replicate HEAP_SIZE 97" 1] by auto
qed

text \<open>
  C4. What \<open>exec\<close> writes is what \<open>_start\<close> reads: \<open>exec\<close> makes at most one system call, and in the memory
  of that call the kernel finds the path and a null-terminated table of C strings, and the argument
  loop of a starting program fills its slices with the arguments that were passed, each cut at its
  first NUL. This holds whatever the allocator did in between.
\<close>

theorem exec_start_roundtrip:
  assumes "allocator_sound P" and "exec P path argv w = Some (oc, w')" and "trace w' \<noteq> trace w"
    and "length argv \<le> length buf" and "args = map (\<lambda>s. takeWhile (\<lambda>b. b \<noteq> 0) (as_bytes s)) argv"
  shows "\<exists>pp ap m. trace w' = trace w @ [\<lparr>ev_number = SYSCALL_EXEC, ev_args = [pp, ap, 0, 0, 0, 0], ev_mem = m\<rparr>] \<and>
    cstr_at m pp (takeWhile (\<lambda>b. b \<noteq> 0) (as_bytes path)) \<and> argv_at m ap args \<and>
    (\<exists>slices. fill_argv ap [0..<length argv] buf (w'\<lparr>mem := m\<rparr>)
        = Some (Value (slices @ drop (length argv) buf), w'\<lparr>mem := m\<rparr>) \<and>
      map (slice_bytes m) slices = args)"
proof -
  from exec_logged [OF assms(1-3)] obtain pp ap m where
    t: "trace w' = trace w @ [\<lparr>ev_number = SYSCALL_EXEC, ev_args = [pp, ap, 0, 0, 0, 0], ev_mem = m\<rparr>]"
    and p: "cstr_at m pp (takeWhile (\<lambda>b. b \<noteq> 0) (as_bytes path))" and a: "argv_at m ap args"
    unfolding assms(5) by blast
  from a have "argv_at (mem (w'\<lparr>mem := m\<rparr>)) ap args" by simp
  from fill_argv_at [OF this, of buf] assms(4,5) t p a show ?thesis by auto
qed

theorem exec_start_roundtrip_witness:
  "\<exists>w' pp ap m slices. exec ref_platform (str ''p'') [str ''x''] (ref_world []) = Some (Value (Inl ENOENT), w') \<and>
     cstr_at m pp (chars ''p'') \<and> argv_at m ap [chars ''x''] \<and>
     fill_argv ap [0..<1] (replicate 16 (0x100, 1)) (w'\<lparr>mem := m\<rparr>)
       = Some (Value (slices @ replicate 15 (0x100, 1)), w'\<lparr>mem := m\<rparr>) \<and>
     map (slice_bytes m) slices = [chars ''x'']"
proof -
  from ref_exec [of "ref_world []"] obtain w' where w': "exec ref_platform (str ''p'') [str ''x''] (ref_world [])
      = Some (Value (Inl ENOENT), w')" "trace w' \<noteq> trace (ref_world [])" by auto
  have c: "[chars ''x''] = map (\<lambda>s. takeWhile (\<lambda>b. b \<noteq> 0) (as_bytes s)) [str ''x'']"
    "takeWhile (\<lambda>b. b \<noteq> 0) (as_bytes (str ''p'')) = chars ''p''"
    by (simp_all add: chars_def utf8_encode_ascii)
  have "length [str ''x''] \<le> length (replicate 16 (0x100 :: addr, 1 :: u64))" by simp
  note run = exec_start_roundtrip [OF ref_allocator w' this c(1), unfolded c(2) list.size drop_replicate]
  have "0 + Suc 0 = (1 :: nat)" "16 - (1 :: nat) = 15" by simp_all
  from run [unfolded this] w'(1) show ?thesis by (elim exE conjE) (intro exI conjI; assumption)
qed

section \<open>Process start\<close>

text \<open>
  C38. \<open>strlen\<close> ends exactly when there is a NUL byte to find: without one anywhere its loop runs forever.
\<close>

theorem strlen_ends_iff: "strlen s w = None \<longleftrightarrow> (\<forall>a. mem w a \<noteq> 0)"
proof
  assume none: "strlen s w = None"
  show "\<forall>a. mem w a \<noteq> 0"
  proof (intro allI notI)
    fix a
    assume "mem w a = 0"
    then have "mem w (s + of_nat (unat (a - s))) = 0" by simp
    then obtain n where n: "mem w (s + of_nat n) = 0" "\<forall>i<n. mem w (s + of_nat i) \<noteq> 0"
      using exists_least_iff [of "\<lambda>n. mem w (s + of_nat n) = 0"] by blast
    have "0 \<notin> set (load_bytes (mem w) s n)" using n(2) by (auto simp: load_bytes_def)
    moreover have "load_bytes (mem w) s (Suc n) = load_bytes (mem w) s n @ [0]"
      using n(1) by (simp add: load_bytes_def)
    ultimately have "strlen_loop (mem w) s = Some (s + of_nat n)"
      using strlen_loop_cstr [of "load_bytes (mem w) s n" "mem w" s] by simp
    with none show False by (simp add: strlen_def ret_def panic_at_def split: if_splits)
  qed
next
  assume "\<forall>a. mem w a \<noteq> 0"
  then have "strlen_loop (mem w) s = None" using strlen_loop_nul by (metis not_None_eq)
  then show "strlen s w = None" by (simp add: strlen_def)
qed

text \<open>
  C14. \<open>_start\<close> hands \<open>main\<close> one slice per argument with exactly the bytes of that argument, the rest of
  its sixteen slices filled with a default, after setting the heap up; it exits with \<open>main\<close>'s result.
\<close>

theorem start_passes_arguments:
  assumes "argv_at ((mem w)(place P (length (trace w)) 1 := 0)) ap args" and "length args \<le> 16"
  shows "\<exists>slices. map (slice_bytes ((mem w)(place P (length (trace w)) 1 := 0))) slices = args \<and>
    start P main (of_nat (length args)) ap w
      = andthen (main (of_nat (length args))
            (slices @ replicate (16 - length args) (place P (length (trace w)) 1, 1))) (exit P)
          (w\<lparr>mem := (mem w)(place P (length (trace w)) 1 := 0), heap := Some (heap_space P, HEAP_SIZE)\<rparr>)"
  by (rule start_runs [OF assms])

theorem start_passes_arguments_witness:
  "\<exists>slices w'. map (slice_bytes (mem w')) slices = [chars ''cat'', chars ''cat''] \<and>
     start ref_platform (\<lambda>_ _. ret 5) 2 0x1000 (arg_world 2) = (exit ref_platform 5 w' :: (unit outcome \<times> _) option)"
proof -
  have "length (replicate 2 (chars ''cat'')) \<le> 16" by simp
  from start_passes_arguments [OF argv_arg_world this, of "\<lambda>_ _. ret 5"] obtain slices where
    "map (slice_bytes ((mem (arg_world 2))(0x10000 := 0))) slices = replicate 2 (chars ''cat'')"
    "(start ref_platform (\<lambda>_ _. ret 5) 2 0x1000 (arg_world 2) :: (unit outcome \<times> _) option) = exit ref_platform 5
      ((arg_world 2)\<lparr>mem := (mem (arg_world 2))(0x10000 := 0), heap := Some (0x80000, HEAP_SIZE)\<rparr>)"
    by auto
  then show ?thesis
    by (intro exI [of _ slices] exI [of _ "(arg_world 2)\<lparr>mem := (mem (arg_world 2))(0x10000 := 0),
        heap := Some (0x80000, HEAP_SIZE)\<rparr>"]) (simp add: numeral_2_eq_2)
qed

text \<open>
  C37. With more than sixteen arguments \<open>_start\<close> panics at its own array, before the heap is set up and
  before \<open>main\<close> runs.
\<close>

theorem start_too_many_arguments:
  assumes "argv_at ((mem w)(place P (length (trace w)) 1 := 0)) ap args"
    and "16 < length args" and "length args < 2 ^ 64"
  shows "start P main (of_nat (length args)) ap w
    = Some (Panicked \<lparr>pi_message = [str ''index out of bounds: the len is '', dec_digits 16,
          str '' but the index is '', dec_digits 16], pi_file = lib_rs, pi_line = 43\<rparr>,
        w\<lparr>mem := (mem w)(place P (length (trace w)) 1 := 0)\<rparr>)"
proof -
  let ?z = "place P (length (trace w)) 1"
  let ?w = "w\<lparr>mem := (mem w)(?z := 0)\<rparr>"
  from assms(1) have "argv_at (mem ?w) ap args" by simp
  from fill_argv_too_many [OF this, of "replicate 16 (?z, 1)"] assms(2)
  have f: "fill_argv ap [0..<length args] (replicate 16 (?z, 1)) ?w
      = Some (Panicked \<lparr>pi_message = [str ''index out of bounds: the len is '', dec_digits 16,
          str '' but the index is '', dec_digits 16], pi_file = lib_rs, pi_line = 43\<rparr>, ?w)"
    by (simp only: length_replicate)
  have n: "unat (of_nat (length args) :: u64) = length args"
    using assms(3) by (intro unat_of_nat_u64) simp
  show ?thesis
    unfolding start_def with_data_def Let_def n using f by (simp add: andthen_def del: str_simps)
qed

theorem start_too_many_arguments_witness:
  "\<exists>i w'. start ref_platform (\<lambda>_ _. ret 5) 17 0x1000 (arg_world 17) = Some (Panicked i :: unit outcome, w') \<and>
     pi_line i = 43"
proof -
  have "16 < length (replicate 17 (chars ''cat''))" "length (replicate 17 (chars ''cat'')) < 2 ^ 64" by simp_all
  from start_too_many_arguments [OF argv_arg_world this, of "\<lambda>_ _. ret 5", where ?'b = unit] show ?thesis
    by (simp only: length_replicate) (simp del: str_simps)
qed

section \<open>Error numbers and system call numbers\<close>

text \<open>
  C20. The conversion of a number to an error number inverts the numbering: it succeeds exactly on the
  numbers of the enumeration, with the variant of that number.
\<close>

theorem errornum_roundtrip:
  "errornum_try_from (errornum_code e) = Inr e \<and> (errornum_try_from v = Inr e \<longleftrightarrow> v = errornum_code e)"
  by (simp add: errno.read_code errno.read_Inr_iff)

text \<open>
  C15. The answer of the stub: the kernel's value exactly when the second register is zero, an error
  exactly when the first register is the negated number of that error, a panic exactly when no error
  has that number; the call is recorded with its arguments and the memory it saw.
\<close>

theorem do_syscall_answers:
  assumes "ecall P n args (mem w) (kern w) = Resume a0 a1 m k"
  shows "\<exists>oc. do_syscall P args n w = Some (oc, w\<lparr>mem := m, kern := k,
        trace := trace w @ [\<lparr>ev_number = n, ev_args = args, ev_mem = mem w\<rparr>]\<rparr>) \<and>
    (\<forall>x. oc = Value (Inr x) \<longleftrightarrow> a1 = 0 \<and> x = a0) \<and>
    (\<forall>e. oc = Value (Inl e) \<longleftrightarrow> a1 \<noteq> 0 \<and> a0 = - errornum_code e) \<and>
    ((\<exists>i. oc = Panicked i) \<longleftrightarrow> a1 \<noteq> 0 \<and> a0 \<notin> range (\<lambda>e. - errornum_code e))"
proof -
  consider "a1 = 0" | e where "a1 \<noteq> 0" "a0 = - errornum_code e"
    | "a1 \<noteq> 0" "a0 \<notin> range (\<lambda>e. - errornum_code e)" by blast
  then show ?thesis
  proof cases
    case 1
    with assms show ?thesis by (auto simp: rust_simps logged_def)
  next
    case 2
    with assms show ?thesis by (auto simp: rust_simps logged_def errno.code_inj)
  next
    case 3
    then have "- a0 \<notin> range errornum_code" by (metis (no_types) image_iff minus_minus)
    then have "errornum_try_from (- a0) = Inl ENOSYS" by (simp add: errno.read_Inl_iff)
    with 3 assms show ?thesis
      by (auto simp: do_syscall_def Let_def panic_at_def andthen_def unwrap_result_def)
  qed
qed

theorem do_syscall_answers_witness:
  "\<exists>oc w'. do_syscall broken_platform [0, 0, 0, 0, 0, 0] SYSCALL_FORK (ref_world []) = Some (oc, w') \<and>
     (\<exists>i. oc = Panicked i)"
proof -
  have e: "ecall broken_platform SYSCALL_FORK [0, 0, 0, 0, 0, 0] (mem (ref_world [])) (kern (ref_world []))
      = Resume 5 1 (\<lambda>_. 0) (ref_state [])" by (simp add: broken_platform_def)
  have "5 \<notin> range (\<lambda>e. - errornum_code e)"
    using unknown_code by (auto simp: errno.read_Inl_iff)
  with do_syscall_answers [OF e] show ?thesis by fastforce
qed


section \<open>Counts the library ignores\<close>

lemma with_vec_length:
  assumes "with_vec P bs f w = Some (Value x, w')" and "\<And>p u u'. f p u = Some (Value x, u') \<Longrightarrow> Q x"
  shows "Q x"
  using assms by (auto simp: with_vec_def with_block_def andthen_Some_iff ret_def on_alloc_error_def panic_at_def
      split: if_splits option.splits)

text \<open>\<open>read_vec\<close> answers a vector of the requested length, however few bytes the kernel delivered.\<close>

lemma read_vec_ignores_count:
  assumes "read_vec P fd len w = Some (Value (Inr bs), w')"
  shows "length bs = unat len"
proof -
  let ?Q = "\<lambda>x :: errornum + u8 list. \<forall>bs. x = Inr bs \<longrightarrow> length bs = unat len"
  have "?Q x" if "try_then (read_fd P fd (p, len)) (\<lambda>_. andthen (read_buffer p (unat len)) (\<lambda>buf. ret (Inr buf))) u
      = Some (Value x, u')" for p u u' x
    using that by (auto simp: try_then_Some_iff andthen_Some_iff ret_def read_buffer_def)
  from with_vec_length [where Q = ?Q, OF assms [unfolded read_vec_def] this] show ?thesis by simp
qed

text \<open>\<open>openat\<close> puts the length of the path where the C interface has the flags, and the flags behind it.\<close>

lemma openat_registers:
  assumes "openat P fd path mode w = Some (oc, w')" and "trace w' \<noteq> trace w"
  shows "\<exists>p m. trace w' = trace w @ [\<lparr>ev_number = SYSCALL_OPENAT,
    ev_args = [fd_num fd, p, of_nat (str_len path), mode, 0, 0], ev_mem = m\<rparr>]"
proof (cases "heap_place P (heap w) (live w) (length (as_bytes path @ [0]))")
  case None
  with assms show ?thesis
    by (simp add: openat_def with_vec_def with_block_def on_alloc_error_def panic_at_def)
next
  case (Some p)
  with assms(1) obtain o1 v where
    "do_syscall P [fd_num fd, p, of_nat (length (as_bytes path)), mode, 0, 0] SYSCALL_OPENAT
      (w\<lparr>mem := store_bytes (mem w) p (as_bytes path @ [0]), live := (p, length (as_bytes path @ [0])) # live w\<rparr>) = Some (o1, v)"
    and "trace w' = trace v"
    by (auto simp: openat_def with_vec_def with_block_def andthen_Some_iff ret_def)
  then show ?thesis by (auto simp: logged_def str_len_def dest!: do_syscall_logged)
qed

text \<open>A short write is taken for a whole one: \<open>write_str\<close> succeeds after one call, whatever count comes back.\<close>

lemma write_str_ignores_count:
  assumes "p = place P (length (trace w)) (length (as_bytes s))" and "m = store_bytes (mem w) p (as_bytes s)"
    and "ecall P SYSCALL_WRITE [1, p, of_nat (length (as_bytes s)), 0, 0, 0] m (kern w) = Resume count 0 m' k"
  shows "\<exists>w'. write_str P s w = Some (Value (Inr ()), w') \<and> kern w' = k \<and>
    trace w' = trace w @ [logged SYSCALL_WRITE [1, p, of_nat (length (as_bytes s)), 0, 0, 0] (w\<lparr>mem := m\<rparr>)]"
proof -
  have "write_fd P STDOUT (p, of_nat (length (as_bytes s))) (w\<lparr>mem := m\<rparr>) = Some (Value (Inr count), w\<lparr>mem := m', kern := k,
      trace := trace w @ [logged SYSCALL_WRITE [1, p, of_nat (length (as_bytes s)), 0, 0, 0] (w\<lparr>mem := m\<rparr>)]\<rparr>)"
    using assms(3) do_syscall_Ok [of P SYSCALL_WRITE "[1, p, of_nat (length (as_bytes s)), 0, 0, 0]" "w\<lparr>mem := m\<rparr>"]
    by (simp add: write_fd_def write_raw_def STDOUT_def)
  then show ?thesis
    unfolding write_str_def with_data_def Let_def assms(1) [symmetric] assms(2) [symmetric]
    by (simp add: map_err_def try_then_def andthen_def ret_def)
qed

text \<open>
  C39. \<open>getcwd\<close> drops the length the kernel reports: whatever it is, the path comes back with NUL bytes
  behind it up to the 1024 bytes of the buffer, and they are part of the string.
\<close>

theorem getcwd_pads_path:
  assumes "p = place P (length (trace w)) 1024" and "m = store_bytes (mem w) p (replicate 1024 0)"
    and "ecall P SYSCALL_GETCWD [p, 1024, 0, 0, 0, 0] m (kern w) = Resume n 0 (store_bytes m p (as_bytes path)) k"
    and "valid_str path" and "str_len path \<le> 1024"
  shows "\<exists>s w'. getcwd P w = Some (Value (Inr s), w') \<and> s = path @ replicate (1024 - str_len path) 0 \<and>
    str_len s = 1024 \<and> kern w' = k"
  using getcwd_answer [OF assms] assms(5) by (auto simp: padded_def str_len_def)

theorem getcwd_pads_path_witness:
  "\<exists>w'. getcwd ref_platform (ref_world []) = Some (Value (Inr (47 # replicate 1023 0)), w')"
proof -
  let ?m = "store_bytes (mem (ref_world [])) 0x10000 (replicate 1024 0)"
  have e: "ecall ref_platform SYSCALL_GETCWD [0x10000, 1024, 0, 0, 0, 0] ?m (kern (ref_world []))
      = Resume 1 0 (store_bytes ?m 0x10000 (as_bytes [47])) (ref_state [])"
    by (simp add: ref_ecall_def syscall_num_defs)
  have p: "0x10000 = place ref_platform (length (trace (ref_world []))) 1024" "valid_str [47]" "str_len [47] \<le> 1024"
    by (simp_all add: is_scalar_def str_len_def utf8_encode_ascii)
  from getcwd_pads_path [OF p(1) refl e p(2,3)] show ?thesis by (auto simp: str_len_def utf8_encode_ascii)
qed

end
