(* ===== verification/Command_Debug.thy ===== *)
theory Command_Debug
  imports Command Fmt_Io
begin

text \<open>
  The trait implementations of \<open>IOType\<close> and \<open>Command\<close> in \<^verbatim>\<open>parch_utils/shell/src/main.rs\<close> that the shell
  never runs: \<open>Debug\<close>, whose text is given here, and \<open>PartialEq\<close>. The escaping of \<open>core\<close> for a string in
  \<open>Debug\<close> depends on its Unicode tables and is the argument \<open>str_debug\<close>.
\<close>

section \<open>Equality\<close>

text \<open>
  Two commands are equal when they are the same object: the comparison sees the addresses of the two
  references. The derived comparison of \<open>IOType\<close> compares the constructors and then the fields; \<open>p\<close> and \<open>q\<close>
  are the addresses of the fields of the two sides.
\<close>

definition command_eq :: "addr \<Rightarrow> addr \<Rightarrow> bool" where
  "command_eq self other \<longleftrightarrow> self = other"

fun io_type_eq :: "addr \<Rightarrow> addr \<Rightarrow> command io_type \<Rightarrow> command io_type \<Rightarrow> bool" where
  "io_type_eq p q Default Default \<longleftrightarrow> True"
| "io_type_eq p q (File a) (File b) \<longleftrightarrow> a = b"
| "io_type_eq p q (Cmd c) (Cmd d) \<longleftrightarrow> command_eq p q"
| "io_type_eq p q _ _ \<longleftrightarrow> False"

text \<open>The only comparisons of the parser are with \<open>Default\<close>; no address matters in them.\<close>

lemma io_type_eq_Default: "io_type_eq p q x Default \<longleftrightarrow> x = Default"
  by (cases x) simp_all

lemma io_type_eq_refl: "io_type_eq p p x x"
  by (cases x) (simp_all add: command_eq_def)

text \<open>The test of \<open>parse\<close> on the two sides of a pipe is that comparison.\<close>

lemma parse_compares:
  "\<not> io_type_eq p q (cmd_output l) Default \<or> \<not> io_type_eq p' q' (cmd_input r) Default
     \<longleftrightarrow> cmd_output l \<noteq> Default \<or> cmd_input r \<noteq> Default"
  by (simp add: io_type_eq_Default)

section \<open>Debug\<close>

definition debug_tuple :: "string \<Rightarrow> rstr \<Rightarrow> rstr" where
  "debug_tuple name field = str name @ str ''('' @ field @ str '')''"

fun io_type_debug :: "(rstr \<Rightarrow> rstr) \<Rightarrow> command io_type \<Rightarrow> rstr" where
  "io_type_debug str_debug Default = str ''Default''"
| "io_type_debug str_debug (File arg0) = debug_tuple ''File'' (str_debug arg0)"
| "io_type_debug str_debug (Cmd arg0) = debug_tuple ''Cmd'' (str_debug (exec_path arg0))"

definition writeln_text :: "fmt_part list \<Rightarrow> rstr" where
  "writeln_text fmt = concat (fmt_pieces (fmt @ [Lit [10]]))"

definition command_debug :: "(rstr \<Rightarrow> rstr) \<Rightarrow> command \<Rightarrow> rstr" where
  "command_debug str_debug self =
     writeln_text [Lit (str ''Command ''), Arg [exec_path self]] @
     writeln_text [Lit (str ''arguments:'')] @
     concat (map (\<lambda>a. writeln_text [Lit ([9] @ str [CHR 0x22]), Arg [a], Lit (str [CHR 0x22])]) (cmd_args self)) @
     writeln_text [Lit (str ''Input : ''), Arg [io_type_debug str_debug (cmd_input self)]] @
     writeln_text [Lit (str ''Output: ''), Arg [io_type_debug str_debug (cmd_output self)]]"

lemma command_debug_plain:
  "command_debug esc (Command path [] Default (File out)) =
     str ''Command '' @ path @ [10] @ str ''arguments:'' @ [10] @ str ''Input : Default'' @ [10] @
     str ''Output: File('' @ esc out @ str '')'' @ [10]"
  by (simp add: command_debug_def writeln_text_def debug_tuple_def)

end
