(* ===== verification/Spec2Isabelle.thy ===== *)
theory Spec2Isabelle
  imports Shell_Props Utils_Props Usrlib_Props Command_Debug
begin

text \<open>
  The user side of the ParchOS test bench: the Rust user library (\<^verbatim>\<open>src/usrlib_rust\<close>) and the programs
  built on it, the shell, \<^verbatim>\<open>cat\<close> and \<^verbatim>\<open>mkdir\<close> (\<^verbatim>\<open>src/parch_utils\<close>), modelled function by function.

  \<^bold>\<open>How the parts work together.\<close> The kernel starts a program at \<open>_start\<close>, which turns the argument block
  into slices, gives a static array to the heap allocator, calls the program's \<open>main\<close> and exits with its
  result. A program talks to the kernel only through \<open>do_syscall\<close>, one \<open>ecall\<close> with up to six registers; the
  wrappers put strings and tables into heap buffers and pass their addresses. Formatted output and
  character input sit on \<open>write\<close> and \<open>read\<close>. A panic anywhere enters the panic handler of the program.

  \<^bold>\<open>The embedding.\<close> A computation of type \<open>('k, 'a) rust\<close> (theory \<open>Machine\<close>) takes a world (byte memory,
  heap region, held heap blocks, kernel state, record of the system calls made) and gives \<open>None\<close> when it
  runs forever, or an outcome and a world: \<open>Value\<close>, \<open>Panicked\<close> with message, file and line, or \<open>Gone\<close> for a
  call that does not come back. A \<open>Result\<close> is a sum with the error on the left, the question mark is
  \<open>try_then\<close>, \<open>unwrap\<close> is a panic with its line. Machine integers are words; the checks of the debug
  profile (overflow, index bounds, slice bounds) are branches that panic. Loops are
  \<open>partial_function (option)\<close>, so that running forever is a value and no fuel is needed.

  \<^bold>\<open>Parameters.\<close> What the repository does not contain is a field of \<open>platform\<close>: the kernel (\<open>ecall\<close>), the
  buddy allocator (\<open>heap_place\<close>), where compiler and linker put stack data, statics and the heap array
  (\<open>place\<close>, \<open>heap_space\<close>), the operator of \<^verbatim>\<open>bitflags\<close>, the formatting of \<^verbatim>\<open>time\<close>, the texts of two
  library panics, the spelling of source paths. What the code relies on in them is stated as predicates
  that the properties name as hypotheses: \<open>allocator_sound\<close> (a block is in the region, not null, apart from
  every held block), \<open>flags_union\<close>, \<open>console\<close> (descriptor 0 delivers bytes, descriptor 1 takes them),
  \<open>opens_file\<close>, \<open>answers_open\<close>, \<open>reads_file\<close> (to the end of the file or to an error), \<open>closes_stdin\<close>,
  \<open>answers_mkdir\<close>, \<open>prompt_kernel\<close> (directory
  and clock), \<open>shell_kernel\<close> (directories, processes), \<open>deaf\<close>. The theory \<open>Reference_Kernel\<close> has one concrete
  kernel and allocator on which they hold, and variants of it without files, with a failing disk and with a
  console that refuses writes; the witnesses run there.

  \<^bold>\<open>Theories.\<close> The state and operations of each part of the source:

    \<^item> \<open>Prelude\<close>: word types, little-endian bytes, the collections \<open>rust_simps\<close>, \<open>string_simps\<close>, \<open>balanced_intros\<close>
    \<^item> \<open>Rust_Str\<close>, \<open>Str_Ops\<close>: \<open>char\<close>, \<open>str\<close>, UTF-8 and the string operations the programs call; the locale
      \<open>prefix_codec\<close> gives the round trips of a self-delimiting code, interpreted on UTF-8
    \<^item> \<open>Machine\<close>: memory, world, platform, the program monad, buffers; the locale \<open>world_frame\<close> carries a
      reflexive transitive relation through every composition of calls
    \<^item> \<open>Types\<close> (\<^verbatim>\<open>utils/types.rs\<close>), \<open>Error_Num\<close> (\<^verbatim>\<open>utils/error_num.rs\<close>, with the locale \<open>code_table\<close>),
      \<open>Syscall_Num\<close> (\<^verbatim>\<open>utils/syscall_num.rs\<close>), \<open>Build_Script\<close> (\<^verbatim>\<open>build.rs\<close>)
    \<^item> \<open>Allocator\<close> (\<^verbatim>\<open>allocator.rs\<close>), \<open>Syscall\<close> (\<^verbatim>\<open>syscall.rs\<close>), \<open>Buffers\<close>: what the kernel finds behind the
      pointers of a call
    \<^item> \<open>Path_Calls\<close>: calls with a path run forwards, files that open and files that do not
    \<^item> \<open>Fmt_Io\<close> (\<^verbatim>\<open>fmt_io.rs\<close>), \<open>Console\<close>: what its functions compute; the locale \<open>byte_source\<close> is the interface
      between the character decoder and the byte read, interpreted on \<open>getbyte_noecho\<close>
    \<^item> \<open>Start\<close> (\<^verbatim>\<open>lib.rs\<close>)
    \<^item> \<open>Command\<close> and \<open>Shell\<close> (\<^verbatim>\<open>shell/src/main.rs\<close>: parser; the rest), \<open>Command_Debug\<close> (its
      \<open>Debug\<close> and \<open>PartialEq\<close>), \<open>Shell_Facts\<close>: sessions, held blocks, order and contents of calls (the
      frame \<open>only_writes\<close>: printing makes no other call), the prompt,
      \<open>Shell_Session\<close>: an abstract shell and its refinement
    \<^item> \<open>Cat\<close> (\<^verbatim>\<open>cat/src/main.rs\<close>, the locale \<open>chunk_source\<close> for its reading loop, which ends or fails), \<open>Mkdir\<close> (\<^verbatim>\<open>mkdir/src/main.rs\<close>)
    \<^item> \<open>Usrlib_Props\<close>, \<open>Shell_Props\<close>, \<open>Utils_Props\<close> and this theory: the properties C1 to C40 and their witnesses

  \<^bold>\<open>What the lemmas show.\<close> Functional behaviour: \<open>getchar_noecho\<close> and \<open>get_line\<close> compute the pure functions
  \<open>take_char\<close> and \<open>line_spec\<close> on every input and always end on a console; the parser inverts the writing of
  commands; \<open>execute\<close>, \<open>cd\<close>, \<open>shutdown\<close>, \<open>cat\<close> and \<open>mkdir\<close> make exactly the calls they should, with the
  strings in place. Refinement: whole runs of the shell program, from the keyboard or from
  a script, to the end of the input, to an \<open>exit\<close> line or to a panic, show the dialogue of an abstract shell
  whose state is a directory, the programs to come and the clock readings to come. Error paths, from entry
  point to exit code: a script that does not open, a file that does not open or stops reading, a wrong number
  of arguments, a directory that is not made; each shows its message and makes no further call. Round trips: UTF-8, error
  numbers, \<open>exec\<close> to \<open>_start\<close>. Invariants: no heap block outlives its operation. Panics: the parser, the decoder
  and \<open>do_syscall\<close> panic exactly where stated. Termination: \<open>strlen\<close>, \<open>get_line\<close>, the panic handlers. Several
  properties prove that the code does not do what it means to: pipelines never parse, a line with both
  redirections kills the shell, a child whose \<open>exec\<close> fails becomes a second shell.

  \<^bold>\<open>Not modelled.\<close> The C library, its test programs and utilities and the C++ image tool. In the Rust part:
  \<open>Deref\<close> of \<open>Command\<close> (a field of a command is its selector), the escaping of strings in \<open>Debug\<close> (an argument
  of \<open>command_debug\<close>, which no code calls). Heap blocks of strings and vectors whose
  address the kernel never sees, and the spare capacity of growing vectors, are not counted as held, so running
  out of memory shows only in the buffers of system calls. A panic inside the panic handler enters it again
  without end, where a real stack would overflow. The build script's writes to its file do not fail.
\<close>

section \<open>Whole programs\<close>

text \<open>
  C1. The shell program refines the abstract shell: from its entry point it greets, runs the dialogue
  with the typed lines (prompt with the current directory and, where there is a clock, the time, echo, \<open>cd\<close>, help, programs with their exit codes,
  errors), says farewell at the end of the input and leaves with code 0; the console shows exactly that,
  and the kernel is left in the abstract shell's final state.
\<close>

theorem shell_program_runs_session:
  fixes P :: "'k platform"
  assumes "at_prompt P V lim s (w\<lparr>heap := Some (heap_space P, HEAP_SIZE)\<rparr>)" and "16 \<le> lim"
    and "argv_at ((mem w)(place P (length (trace w)) 1 := 0)) ap args" and "length args \<le> 1"
    and "list_all (typed P lim) ls" and "v_inp V (kern w) = keyboard ls"
    and "dialogue P (v_resolve V) ls s = (shown, s')"
    and "\<And>m k. ecall P SYSCALL_EXIT [0, 0, 0, 0, 0, 0] m k = Vanish k"
  shows "\<exists>w'. shell_program P (of_nat (length args)) ap w = Some (Gone :: 'r outcome, w') \<and>
    v_out V (kern w') = v_out V (kern w) @ greeting @ shown @ farewell \<and>
    v_inp V (kern w') = [] \<and> holds V s' (kern w')"
proof -
  let ?z = "place P (length (trace w)) 1"
  let ?v = "w\<lparr>mem := (mem w)(?z := 0), heap := Some (heap_space P, HEAP_SIZE)\<rparr>"
  have "length args \<le> 16" using assms(4) by simp
  from start_runs [OF assms(3) this, of "shell_main P"] obtain slices where
    s: "(start P (shell_main P) (of_nat (length args)) ap w :: ('r outcome \<times> _) option)
      = andthen (shell_main P (of_nat (length args)) (slices @ replicate (16 - length args) (?z, 1))) (exit P) ?v"
    by blast
  have "length args = 0 \<or> length args = 1" using assms(4) by linarith
  then have argc: "(of_nat (length args) :: u64) \<le> 1" by auto
  have pr: "at_prompt P V lim s ?v" using assms(1) by (simp add: at_prompt_def)
  have "v_inp V (kern ?v) = keyboard ls" using assms(6) by simp
  from shell_main_keyboard [OF pr assms(2,5) argc this assms(7)] obtain w1 where
    w1: "shell_main P (of_nat (length args)) (slices @ replicate (16 - length args) (?z, 1)) ?v = Some (Value 0, w1)"
      "holds V s' (kern w1)" "v_inp V (kern w1) = []" "v_out V (kern w1) = v_out V (kern ?v) @ greeting @ shown @ farewell"
    by blast
  from program_leaves [where h = "panic_handler P", OF s w1(1) assms(8)] w1(2-4) show ?thesis
    by (auto simp: shell_program_def)
qed

text \<open>A session: help with a typing error, a change of directory, a program, a pipeline.\<close>

definition example_session :: "rstr list" where
  "example_session = [str ''hex'' @ [0x7F] @ str ''lp'', str ''cd a'', str ''ls /'', str ''a | b'']"

lemma example_parses:
  "parse ref_platform (str ''ls /'') = Inr (Inr (Command (str ''ls'') [str ''/''] Default Default))"
  "parse ref_platform (str ''a | b'') = Inr (Inl ParseErr)"
proof -
  show "parse ref_platform (str ''ls /'') = Inr (Inr (Command (str ''ls'') [str ''/''] Default Default))"
    by (simp add: parse_no_pipe redirections_none build_command_def tokens_def io_of_def trim_def is_whitespace_def)
  have p: "parse ref_platform (trim (str ''a '')) = Inr (Inr (Command (str ''a'') [] Default Default))"
    by (simp add: parse_no_pipe redirections_none build_command_def tokens_def io_of_def trim_def is_whitespace_def)
  have "124 \<notin> set (str ''a '')" by simp
  from parse_with_pipe [OF this, of ref_platform "str '' b''"] p
  show "parse ref_platform (str ''a | b'') = Inr (Inl ParseErr)" by simp
qed

theorem shell_program_runs_session_witness:
  "\<exists>w'. shell_program ref_platform 1 0x1000
       ((arg_world 1)\<lparr>kern := (ref_state (keyboard example_session))\<lparr>times := [0, 1]\<rparr>\<rparr>)
     = Some (Gone :: unit outcome, w') \<and>
     directory (kern w') = str ''/a'' \<and> pending (kern w') = [] \<and> times (kern w') = []"
proof -
  let ?k = "(ref_state (keyboard example_session))\<lparr>times := [0, 1]\<rparr>"
  let ?w = "(arg_world 1)\<lparr>kern := ?k\<rparr>"
  let ?s = "\<lparr>sh_dir = [47], sh_jobs = [([], 42)], sh_times = [0, 1]\<rparr>"
  have p: "at_prompt ref_platform ref_view 16 ?s (?w\<lparr>heap := Some (heap_space ref_platform, HEAP_SIZE)\<rparr>)"
    using ref_at_prompt [of 16 "[0, 1]" "keyboard example_session"] by (simp add: at_prompt_def arg_world_def)
  have a: "argv_at ((mem ?w)(place ref_platform (length (trace ?w)) 1 := 0)) 0x1000 [chars ''cat'']"
    using argv_arg_world [of 1] by simp
  have l: "list_all (typed ref_platform 16) example_session"
    using example_parses
    by (simp add: example_session_def typed_def stays_def line_text_def is_scalar_def key_def starts_with_def
        str_len_def utf8_encode_ascii parse_no_pipe redirections_none build_command_def tokens_def io_of_def
        trim_def is_whitespace_def)
  have t: "trim (str '' a'') = str ''a''" by (simp add: trim_def is_whitespace_def)
  obtain shown where d: "dialogue ref_platform (v_resolve ref_view) example_session ?s
      = (shown, \<lparr>sh_dir = str ''/a'', sh_jobs = [], sh_times = []\<rparr>)"
    using example_parses
    by (simp add: example_session_def dialogue_def answer_def tick_def key_def starts_with_def ref_resolve_def utf8_encode_ascii
        trim_def is_whitespace_def)
  have e: "\<And>m k. ecall ref_platform SYSCALL_EXIT [0, 0, 0, 0, 0, 0] m k = Vanish k"
    by (simp add: ref_ecall_def syscall_num_defs)
  have i: "v_inp ref_view (kern ?w) = keyboard example_session" "(16 :: nat) \<le> 16" "length [chars ''cat''] \<le> 1" by simp_all
  from shell_program_runs_session [OF p i(2) a i(3) l i(1) d e] show ?thesis
    by (auto simp: holds_def simp del: str_simps)
qed

text \<open>
  C2. Started with the path of a script the shell takes its input from that file: descriptor 0 is closed,
  the file opens in its place, and the session is the dialogue with the lines of the script, ending with the
  file. The path is read after the greeting is printed, so the argument must lie apart from its text.
\<close>

theorem shell_program_runs_script:
  fixes P :: "'k platform"
  assumes "at_prompt P V lim s (w\<lparr>heap := Some (heap_space P, HEAP_SIZE)\<rparr>)" and "16 \<le> lim" and "str_len path < lim"
    and "argv_at ((mem w)(place P (length (trace w)) 1 := 0)) ap [name, as_bytes path]" and "valid_str path"
    and "load_bytes ((mem w)(place P (length (trace w)) 1 := 0)) (ap + 8) 8 = to_le 8 (unat p)"
    and "apart (place P (length (trace w)) (length greeting)) (length greeting) p (str_len path)"
    and "closes_stdin P (holds V s) closed (v_out V)"
    and "opens_file P 0 closed (holds V s) (v_inp V) (v_out V) path (keyboard ls)"
    and "list_all (typed P lim) ls" and "dialogue P (v_resolve V) ls s = (shown, s')"
    and "\<And>m k. ecall P SYSCALL_EXIT [0, 0, 0, 0, 0, 0] m k = Vanish k"
  shows "\<exists>w'. shell_program P 2 ap w = Some (Gone :: 'r outcome, w') \<and>
    v_out V (kern w') = v_out V (kern w) @ greeting @ shown @ farewell \<and>
    v_inp V (kern w') = [] \<and> holds V s' (kern w')"
proof -
  let ?z = "place P (length (trace w)) 1"
  let ?v = "w\<lparr>mem := (mem w)(?z := 0), heap := Some (heap_space P, HEAP_SIZE)\<rparr>"
  obtain argv q where two: "1 < length argv" and q: "argv ! 1 = (q, of_nat (length (as_bytes path)))"
    and l: "load_bytes ((mem w)(?z := 0)) (ap + 8) 8 = to_le 8 (unat q)"
    and arg: "slice_bytes (mem ?v) (argv ! 1) = as_bytes path"
    and s: "(start P (shell_main P) 2 ap w :: ('r outcome \<times> _) option) = andthen (shell_main P 2 argv) (exit P) ?v"
    by (rule start_argument [OF assms(4)])
  note slice = argument_slice [OF l assms(6) arg [unfolded q]]
  have p: "argv ! 1 = (p, of_nat (str_len path))" using q slice(1) by (simp add: str_len_def)
  have n: "unat (of_nat (str_len path) :: u64) = str_len path" using slice(2) by (simp add: str_len_def)
  have nul: "0 \<notin> set (as_bytes path)" by (rule argument_no_nul [OF assms(4)])
  have pr: "at_prompt P V lim s ?v" using assms(1) by (simp add: at_prompt_def)
  have ap: "apart (place P (length (trace ?v)) (length greeting)) (length greeting) p (unat (of_nat (str_len path) :: u64))"
    using assms(7) unfolding n by simp
  from shell_main_script [OF pr assms(2,3,10,8,9) nul assms(5) two p arg [unfolded p] ap assms(11)] obtain w1 where
    w1: "shell_main P 2 argv ?v = Some (Value 0, w1)" "holds V s' (kern w1)" "v_inp V (kern w1) = []"
      "v_out V (kern w1) = v_out V (kern ?v) @ greeting @ shown @ farewell" by blast
  from program_leaves [where h = "panic_handler P", OF s w1(1) assms(12)] w1(2-4) show ?thesis
    by (auto simp: shell_program_def)
qed

theorem shell_program_runs_script_witness:
  "\<exists>w'. shell_program ref_platform 2 0x1000 (arg_world 2) = Some (Gone :: unit outcome, w') \<and>
     directory (kern w') = str ''/a'' \<and> pending (kern w') = [([], 42)] \<and> con_in (kern w') = []"
proof -
  let ?w = "arg_world 2"
  let ?s = "\<lparr>sh_dir = [47], sh_jobs = [([], 42)], sh_times = []\<rparr>"
  have p: "at_prompt ref_platform ref_view 16 ?s (?w\<lparr>heap := Some (heap_space ref_platform, HEAP_SIZE)\<rparr>)"
    using ref_at_prompt_without_clock [of 16 "[]"] by (simp add: at_prompt_def arg_world_def)
  have a: "argv_at ((mem ?w)(place ref_platform (length (trace ?w)) 1 := 0)) 0x1000 [chars ''cat'', as_bytes (str ''cat'')]"
    using argv_arg_world [of 2] by (simp add: numeral_2_eq_2 chars_def del: str_simps)
  have t: "load_bytes ((mem ?w)(place ref_platform (length (trace ?w)) 1 := 0)) (0x1000 + 8) 8 = to_le 8 (unat (0x2000 :: addr))"
    using argv_arg_pointer [of 2 1] by (simp del: to_le.simps)
  have v: "valid_str (str ''cat'')" by (simp add: is_scalar_def)
  have n: "str_len (str ''cat'') < 16" "(16 :: nat) \<le> 16" by (simp_all add: str_len_def utf8_encode_ascii)
  have g: "length greeting = 22" by (simp add: greeting_def crlf_def utf8_encode_ascii)
  have ap: "apart (place ref_platform (length (trace ?w)) (length greeting)) (length greeting) 0x2000 (str_len (str ''cat''))"
    by (simp add: g apart_def fits_def disjoint_def str_len_def utf8_encode_ascii)
  have l: "list_all (typed ref_platform 16) ref_script"
    using example_parses
    by (simp add: ref_script_def typed_def stays_def line_text_def is_scalar_def key_def starts_with_def
        str_len_def utf8_encode_ascii parse_no_pipe redirections_none build_command_def tokens_def io_of_def
        trim_def is_whitespace_def)
  obtain shown where d: "dialogue ref_platform (v_resolve ref_view) ref_script ?s
      = (shown, \<lparr>sh_dir = str ''/a'', sh_jobs = [([], 42)], sh_times = []\<rparr>)"
    using example_parses
    by (simp add: ref_script_def dialogue_def answer_def tick_def key_def starts_with_def ref_resolve_def utf8_encode_ascii
        trim_def is_whitespace_def)
  have e: "\<And>m k. ecall ref_platform SYSCALL_EXIT [0, 0, 0, 0, 0, 0] m k = Vanish k"
    by (simp add: ref_ecall_def syscall_num_defs)
  have c: "closes_stdin ref_platform (holds ref_view ?s) (\<lambda>k. holds ref_view ?s k \<and> \<not> stdin_open k) (v_out ref_view)"
    and o: "opens_file ref_platform 0 (\<lambda>k. holds ref_view ?s k \<and> \<not> stdin_open k) (holds ref_view ?s)
      (v_inp ref_view) (v_out ref_view) (str ''cat'') (keyboard ref_script)"
    using ref_closes_stdin [of ?s] ref_opens_script [of ?s] by simp_all
  from shell_program_runs_script [OF p n(2,1) a v t ap c o l d e] show ?thesis
    by (auto simp: holds_def simp del: str_simps)
qed

text \<open>
  C19. Started with the path of a script that does not become descriptor 0, because the kernel refuses to open
  it or gives it another number, the shell dies before its first prompt: after the greeting it closes
  descriptor 0 and asks once for the path, panics at the place that tells the two cases apart, prints the
  error by name or the descriptor, and leaves with -1. No input is read, from the console or elsewhere.
\<close>

theorem shell_program_script_unavailable:
  fixes P :: "'k platform"
  assumes "argv_at ((mem w)(place P (length (trace w)) 1 := 0)) ap [name, as_bytes path]" and "valid_str path"
    and "load_bytes ((mem w)(place P (length (trace w)) 1 := 0)) (ap + 8) 8 = to_le 8 (unat p)"
    and "apart (place P (length (trace w)) (length greeting)) (length greeting) p (str_len path)"
    and "console P ready inp out" and "ready (kern w)" and "closes_stdin P ready closed out"
    and "answers_open P closed after out path r" and "r \<noteq> Inr 0" and "console P after inp out"
    and "allocator_sound P"
    and "heap_place P (Some (heap_space P, HEAP_SIZE)) (live w) (Suc (str_len path)) \<noteq> None"
    and "\<And>m k. ecall P SYSCALL_EXIT [- 1, 0, 0, 0, 0, 0] m k = Vanish k"
    and "length (source_path P shell_rs) < 2 ^ 32"
  shows "\<exists>w' ws c a es x. shell_program P 2 ap w = Some (Gone :: 'r outcome, w') \<and>
    out (kern w') = out (kern w) @ greeting @ as_bytes (panic_text P ''Shell'' (remap_panic r)) \<and>
    trace w' = trace w @ ws @ c # a # es @ [x] \<and> only_write_calls ws \<and> only_write_calls es \<and>
    plain_call SYSCALL_CLOSE [0, 0, 0, 0, 0, 0] c \<and> path_call SYSCALL_OPEN path [om_READ, 0, 0, 0, 0] a \<and>
    plain_call SYSCALL_EXIT [- 1, 0, 0, 0, 0, 0] x"
proof -
  let ?z = "place P (length (trace w)) 1" and ?i = "remap_panic r"
  let ?v = "w\<lparr>mem := (mem w)(?z := 0), heap := Some (heap_space P, HEAP_SIZE)\<rparr>"
  obtain argv q where two: "1 < length argv" and q: "argv ! 1 = (q, of_nat (length (as_bytes path)))"
    and l: "load_bytes ((mem w)(?z := 0)) (ap + 8) 8 = to_le 8 (unat q)"
    and arg: "slice_bytes (mem ?v) (argv ! 1) = as_bytes path"
    and s: "(start P (shell_main P) 2 ap w :: ('r outcome \<times> _) option) = andthen (shell_main P 2 argv) (exit P) ?v"
    by (rule start_argument [OF assms(1)])
  note slice = argument_slice [OF l assms(3) arg [unfolded q]]
  have p: "argv ! 1 = (p, of_nat (str_len path))" using q slice(1) by (simp add: str_len_def)
  have n: "unat (of_nat (str_len path) :: u64) = str_len path" using slice(2) by (simp add: str_len_def)
  have nul: "0 \<notin> set (as_bytes path)" by (rule argument_no_nul [OF assms(1)])
  have v: "ready (kern ?v)" "heap_place P (heap ?v) (live ?v) (Suc (str_len path)) \<noteq> None"
    "apart (place P (length (trace ?v)) (length greeting)) (length greeting) p (unat (of_nat (str_len path) :: u64))"
    using assms(4,6,12) unfolding n by simp_all
  from shell_main_script_unavailable [OF assms(5) v(1) assms(7-9,11) v(2) nul assms(2) two p arg [unfolded p] v(3)]
  obtain w1 ws c a where w1: "shell_main P 2 argv ?v = Some (Panicked ?i, w1)" "after (kern w1)"
      "out (kern w1) = out (kern ?v) @ greeting" "trace w1 = trace ?v @ ws @ [c, a]" "only_write_calls ws"
    and ca: "plain_call SYSCALL_CLOSE [0, 0, 0, 0, 0, 0] c" "path_call SYSCALL_OPEN path [om_READ, 0, 0, 0, 0] a"
    by (elim exE conjE) (rule that)
  have "on_console P after inp out w1" using w1(2) assms(10) by (simp add: on_console_def)
  from panic_exit_console [OF this remap_report_small [OF assms(14), of r] assms(13)] obtain w2 es x where
    w2: "panic_handler P ?i w1 = Some (Gone :: 'r outcome, w2)"
      "prints inp out (as_bytes (panic_text P ''Shell'' ?i)) w1 w2"
    and t: "trace w2 = trace w1 @ es @ [x]" "only_write_calls es" "plain_call SYSCALL_EXIT [- 1, 0, 0, 0, 0, 0] x"
    unfolding panic_handler_def by blast
  have "shell_program P 2 ap w = Some (Gone :: 'r outcome, w2)"
    using s w1(1) w2(1) by (simp add: shell_program_def catch_panic_def andthen_simps(2))
  with w1 w2(2) t ca show ?thesis
    by (intro exI [of _ w2] exI [of _ ws] exI [of _ c] exI [of _ a] exI [of _ es] exI [of _ x])
      (simp add: talks_def del: str_simps as_bytes_simps)
qed

theorem shell_program_script_unavailable_witness:
  "\<exists>w' es x. shell_program no_files 2 0x1000 (arg_world 2) = Some (Gone :: unit outcome, w') \<and>
     con_out (kern w') = greeting @ chars ''Shell panicked at parch_utils/shell/src/main.rs:297, ''
       @ chars ''called `Result::unwrap()` on an `Err` value: ENOENT'' @ [13, 10] \<and>
     trace w' = es @ [x] \<and> plain_call SYSCALL_EXIT [- 1, 0, 0, 0, 0, 0] x"
proof -
  let ?w = "arg_world 2"
  have a: "argv_at ((mem ?w)(place no_files (length (trace ?w)) 1 := 0)) 0x1000 [chars ''cat'', as_bytes (str ''cat'')]"
    using argv_two_cats by (simp add: no_files_def)
  have t: "load_bytes ((mem ?w)(place no_files (length (trace ?w)) 1 := 0)) (0x1000 + 8) 8 = to_le 8 (unat (0x2000 :: addr))"
    using argv_arg_pointer [of 2 1] by (simp add: no_files_def del: to_le.simps)
  have g: "length greeting = 22" by (simp add: greeting_def crlf_def utf8_encode_ascii)
  have ap: "apart (place no_files (length (trace ?w)) (length greeting)) (length greeting) 0x2000 (str_len (str ''cat''))"
    by (simp add: no_files_def g apart_def fits_def disjoint_def str_len_def utf8_encode_ascii)
  have h: "heap_place no_files (Some (heap_space no_files, HEAP_SIZE)) (live ?w) (Suc (str_len (str ''cat''))) \<noteq> None"
    using room_for_cat by (simp add: no_files_def)
  have v: "valid_str (str ''cat'')" by (simp add: is_scalar_def)
  have e: "\<And>m k. ecall no_files SYSCALL_EXIT [- 1, 0, 0, 0, 0, 0] m k = Vanish k"
    by (simp add: no_files_def ref_ecall_def syscall_num_defs)
  have l: "length (source_path no_files shell_rs) < 2 ^ 32" "(Inl ENOENT :: errornum + u64) \<noteq> Inr 0"
    by (simp_all add: no_files_def)
  have o: "con_out (kern ?w) = []" by (simp add: arg_world_def)
  from shell_program_script_unavailable [OF a v t ap no_files_contracts(2) TrueI no_files_contracts(3,4) l(2)
      no_files_contracts(2,1) h e l(1)]
  obtain w' ws c b es x where "shell_program no_files 2 0x1000 ?w = Some (Gone :: unit outcome, w')"
    "con_out (kern w') = con_out (kern ?w) @ greeting @ as_bytes (panic_text no_files ''Shell'' (remap_panic (Inl ENOENT)))"
    "trace w' = trace ?w @ ws @ c # b # es @ [x]" "plain_call SYSCALL_EXIT [- 1, 0, 0, 0, 0, 0] x"
    by (elim exE conjE) (rule that)
  moreover have "as_bytes (panic_text no_files ''Shell'' (remap_panic (Inl ENOENT)))
      = chars ''Shell panicked at parch_utils/shell/src/main.rs:297, ''
        @ chars ''called `Result::unwrap()` on an `Err` value: ENOENT'' @ [13, 10]"
    by (simp add: panic_text_def remap_panic_def shell_panic_def no_files_def chars_def utf8_encode_ascii dec_digits.simps)
  ultimately show ?thesis unfolding o
    by (intro exI [of _ w'] exI [of _ "trace ?w @ ws @ c # b # es"] exI [of _ x]) simp
qed


text \<open>The shell up to a last line \<open>e\<close> that is not answered.\<close>

lemma shell_starts_last:
  assumes "at_prompt P V lim s (w\<lparr>heap := Some (heap_space P, HEAP_SIZE)\<rparr>)" and "16 \<le> lim"
    and "argv_at ((mem w)(place P (length (trace w)) 1 := 0)) ap args" and "length args \<le> 1"
    and "list_all (typed P lim) ls" and "line_text e"
    and "v_inp V (kern w) = keyboard (ls @ [e]) @ rest" and "exchange P (v_resolve V) ls s = (bs, s')"
  shows "\<exists>w'. at_prompt P V lim (tick s') w' \<and> v_inp V (kern w') = rest \<and>
    v_out V (kern w') = v_out V (kern w) @ greeting @ bs @ as_bytes (prompt_text P (sh_dir s') (reading s'))
      @ echo_keys [] e @ [10] \<and>
    (\<forall>v. serve_command P (foldl key [] e) w' = Some (Gone, v) \<longrightarrow>
      start P (shell_main P) (of_nat (length args)) ap w = Some (Gone :: 'r outcome, v)) \<and>
    (\<forall>i v. serve_command P (foldl key [] e) w' = Some (Panicked i, v) \<longrightarrow>
      start P (shell_main P) (of_nat (length args)) ap w = Some (Panicked i :: 'r outcome, v))"
proof -
  let ?z = "place P (length (trace w)) 1"
  let ?v = "w\<lparr>mem := (mem w)(?z := 0), heap := Some (heap_space P, HEAP_SIZE)\<rparr>"
  have "length args \<le> 16" using assms(4) by simp
  from start_runs [OF assms(3) this, of "shell_main P"] obtain slices where
    s: "(start P (shell_main P) (of_nat (length args)) ap w :: ('r outcome \<times> _) option)
      = andthen (shell_main P (of_nat (length args)) (slices @ replicate (16 - length args) (?z, 1))) (exit P) ?v"
    by blast
  have "length args = 0 \<or> length args = 1" using assms(4) by linarith
  then have argc: "(of_nat (length args) :: u64) \<le> 1" by auto
  have pr: "at_prompt P V lim s ?v" using assms(1) by (simp add: at_prompt_def)
  have "v_inp V (kern ?v) = keyboard (ls @ [e]) @ rest" using assms(7) by simp
  from shell_main_last [OF pr assms(2,5,6) argc this assms(8), of "slices @ replicate (16 - length args) (?z, 1)"]
  obtain w1 where w1: "at_prompt P V lim (tick s') w1" "v_inp V (kern w1) = rest"
      "v_out V (kern w1) = v_out V (kern ?v) @ greeting @ bs @ as_bytes (prompt_text P (sh_dir s') (reading s'))
        @ echo_keys [] e @ [10]"
    and last: "\<forall>v. serve_command P (foldl key [] e) w1 = Some (Gone, v) \<longrightarrow>
        shell_main P (of_nat (length args)) (slices @ replicate (16 - length args) (?z, 1)) ?v = Some (Gone, v)"
      "\<forall>i v. serve_command P (foldl key [] e) w1 = Some (Panicked i, v) \<longrightarrow>
        shell_main P (of_nat (length args)) (slices @ replicate (16 - length args) (?z, 1)) ?v = Some (Panicked i, v)"
    by (elim exE conjE) (rule that)
  have "start P (shell_main P) (of_nat (length args)) ap w = Some (Gone :: 'r outcome, v)"
    if "serve_command P (foldl key [] e) w1 = Some (Gone, v)" for v
    unfolding s by (rule andthen_simps(3)) (rule last(1) [rule_format, OF that])
  moreover have "start P (shell_main P) (of_nat (length args)) ap w = Some (Panicked i :: 'r outcome, v)"
    if "serve_command P (foldl key [] e) w1 = Some (Panicked i, v)" for i v
    unfolding s by (rule andthen_simps(2)) (rule last(2) [rule_format, OF that])
  moreover have "kern ?v = kern w" by simp
  ultimately show ?thesis using w1 by metis
qed


text \<open>
  C5. A line that begins with "exit" leaves the shell: after the lines before it are answered the shell says
  "Bye." and ends the process with code 0, its last system call; the rest of the input is never read.
\<close>

theorem shell_program_exits:
  fixes P :: "'k platform"
  assumes "at_prompt P V lim s (w\<lparr>heap := Some (heap_space P, HEAP_SIZE)\<rparr>)" and "16 \<le> lim"
    and "argv_at ((mem w)(place P (length (trace w)) 1 := 0)) ap args" and "length args \<le> 1"
    and "list_all (typed P lim) ls" and "line_text line" and "foldl key [] line = str ''exit'' @ extra"
    and "v_inp V (kern w) = keyboard (ls @ [line]) @ rest" and "exchange P (v_resolve V) ls s = (shown, s')"
    and "\<And>m k. ecall P SYSCALL_EXIT [0, 0, 0, 0, 0, 0] m k = Vanish k"
  shows "\<exists>w' es m. shell_program P (of_nat (length args)) ap w = Some (Gone :: 'r outcome, w') \<and> v_inp V (kern w') = rest \<and>
    v_out V (kern w') = v_out V (kern w) @ greeting @ shown @ as_bytes (prompt_text P (sh_dir s') (reading s'))
      @ echo_keys [] line @ [10] @ as_bytes (str ''Bye.'' @ [13, 10]) \<and>
    trace w' = es @ [\<lparr>ev_number = SYSCALL_EXIT, ev_args = [0, 0, 0, 0, 0, 0], ev_mem = m\<rparr>]"
proof -
  from shell_starts_last [OF assms(1-6,8,9)] obtain w1 where
    w1: "at_prompt P V lim (tick s') w1" "v_inp V (kern w1) = rest"
      "v_out V (kern w1) = v_out V (kern w) @ greeting @ shown @ as_bytes (prompt_text P (sh_dir s') (reading s'))
        @ echo_keys [] line @ [10]"
    and last: "\<forall>v. serve_command P (foldl key [] line) w1 = Some (Gone, v) \<longrightarrow>
      start P (shell_main P) (of_nat (length args)) ap w = Some (Gone :: 'r outcome, v)" by blast
  from exit_prefix_leaves [OF at_prompt_console [OF w1(1)] assms(10), of extra] obtain w2 es m where
    w2: "serve_command P (str ''exit'' @ extra) w1 = Some (Gone, w2)"
      "v_out V (kern w2) = v_out V (kern w1) @ as_bytes (str ''Bye.'' @ [13, 10])" "v_inp V (kern w2) = v_inp V (kern w1)"
    and t: "trace w2 = es @ [\<lparr>ev_number = SYSCALL_EXIT, ev_args = [0, 0, 0, 0, 0, 0], ev_mem = m\<rparr>]" by blast
  have "start P (shell_main P) (of_nat (length args)) ap w = Some (Gone :: 'r outcome, w2)"
    by (rule last [rule_format]) (unfold assms(7), rule w2(1))
  then have "shell_program P (of_nat (length args)) ap w = Some (Gone :: 'r outcome, w2)"
    by (simp add: shell_program_def catch_panic_def)
  with w1 w2(2,3) t show ?thesis
    by (intro exI [of _ w2] exI [of _ es] exI [of _ m]) (simp del: str_simps as_bytes_simps)
qed

text \<open>Both end the example kernel's shell after a change of directory.\<close>

definition last_world :: "rstr \<Rightarrow> machine_state world" where
  "last_world line = (arg_world 1)\<lparr>kern := ref_state (keyboard [str ''cd a'', line] @ [97])\<rparr>"

lemma last_world_facts:
  "at_prompt ref_platform ref_view 16 \<lparr>sh_dir = [47], sh_jobs = [([], 42)], sh_times = []\<rparr>
     ((last_world line)\<lparr>heap := Some (heap_space ref_platform, HEAP_SIZE)\<rparr>)"
  "argv_at ((mem (last_world line))(place ref_platform (length (trace (last_world line))) 1 := 0)) 0x1000 [chars ''cat'']"
  "v_inp ref_view (kern (last_world line)) = keyboard ([str ''cd a''] @ [line]) @ [97]"
  "list_all (typed ref_platform 16) [str ''cd a'']"
  "exchange ref_platform (v_resolve ref_view) [str ''cd a''] \<lparr>sh_dir = [47], sh_jobs = [([], 42)], sh_times = []\<rparr>
     = (as_bytes (prompt_text ref_platform [47] None) @ echo_keys [] (str ''cd a'') @ [10],
        \<lparr>sh_dir = str ''/a'', sh_jobs = [([], 42)], sh_times = []\<rparr>)"
proof -
  show "at_prompt ref_platform ref_view 16 \<lparr>sh_dir = [47], sh_jobs = [([], 42)], sh_times = []\<rparr>
     ((last_world line)\<lparr>heap := Some (heap_space ref_platform, HEAP_SIZE)\<rparr>)"
    using ref_at_prompt_without_clock [of 16 "keyboard [str ''cd a'', line] @ [97]"]
    by (simp add: at_prompt_def last_world_def arg_world_def)
  show "argv_at ((mem (last_world line))(place ref_platform (length (trace (last_world line))) 1 := 0)) 0x1000 [chars ''cat'']"
    using argv_arg_world [of 1] by (simp add: last_world_def)
  show "v_inp ref_view (kern (last_world line)) = keyboard ([str ''cd a''] @ [line]) @ [97]"
    by (simp add: last_world_def)
  show "list_all (typed ref_platform 16) [str ''cd a'']"
    by (simp add: typed_def stays_def line_text_def is_scalar_def key_def starts_with_def
        str_len_def utf8_encode_ascii parse_no_pipe redirections_none build_command_def tokens_def io_of_def
        trim_def is_whitespace_def)
  show "exchange ref_platform (v_resolve ref_view) [str ''cd a''] \<lparr>sh_dir = [47], sh_jobs = [([], 42)], sh_times = []\<rparr>
     = (as_bytes (prompt_text ref_platform [47] None) @ echo_keys [] (str ''cd a'') @ [10],
        \<lparr>sh_dir = str ''/a'', sh_jobs = [([], 42)], sh_times = []\<rparr>)"
    by (simp add: answer_def tick_def reading_def key_def starts_with_def ref_resolve_def utf8_encode_ascii
        trim_def is_whitespace_def)
qed


theorem shell_program_exits_witness:
  "\<exists>w'. shell_program ref_platform 1 0x1000 (last_world (str ''exit42'')) = Some (Gone :: unit outcome, w') \<and>
     con_in (kern w') = [97]"
proof -
  have k: "foldl key [] (str ''exit42'') = str ''exit'' @ str ''42''" by (simp add: key_def)
  have t: "line_text (str ''exit42'')" by (simp add: line_text_def is_scalar_def)
  have e: "\<And>m k. ecall ref_platform SYSCALL_EXIT [0, 0, 0, 0, 0, 0] m k = Vanish k"
    by (simp add: ref_ecall_def syscall_num_defs)
  have n: "(16 :: nat) \<le> 16" "length [chars ''cat''] \<le> 1" by simp_all
  from shell_program_exits [OF last_world_facts(1) n(1) last_world_facts(2) n(2) last_world_facts(4) t k
      last_world_facts(3,5) e]
  show ?thesis by auto
qed

end
